(* ===== verification/Prelude.thy ===== *)
theory Prelude
  imports Main
begin

text \<open>
  The vocabulary every component shares: the types of the model, actions that may fail
  while keeping the effects they already had, JavaScript's absent and null values, and the
  row operations (SELECT, UPDATE, DELETE with a predicate) that the repositories issue.
\<close>

section \<open>Time, identifiers, strings\<close>

text \<open>
  A \<open>Date\<close> is its number of milliseconds since the epoch; the ids are uuid strings.
  Calendar arithmetic (\<open>setDate\<close> with \<open>getDate\<close>) is that of a server in UTC, where a
  day has 86400000 milliseconds.
\<close>

type_synonym time = int
type_synonym uuid = string

abbreviation ms_per_day :: int where "ms_per_day \<equiv> 24 * 60 * 60 * 1000"

text \<open>
  An optional property is \<open>'a option\<close>; where the code distinguishes an absent property
  from an explicit null, it is a value of this type.
\<close>

datatype 'a js_opt = Undefined | Null | Val 'a

text \<open>\<open>x ?? d\<close> on a property that may be absent or null.\<close>

fun nullish :: "'a js_opt \<Rightarrow> 'a option" where
  "nullish Undefined = None"
| "nullish Null = None"
| "nullish (Val x) = Some x"

text \<open>Truthiness of an optional string: absent, null and the empty string are falsy.\<close>

definition truthy :: "string option \<Rightarrow> bool" where
  "truthy x = (case x of None \<Rightarrow> False | Some s \<Rightarrow> s \<noteq> [])"

lemma truthy_simps [simp]:
  "truthy None = False"
  "truthy (Some s) = (s \<noteq> [])"
  by (simp_all add: truthy_def)

section \<open>Errors and actions\<close>

text \<open>
  The exceptions the code throws: Nest's HTTP exceptions with their message, a failed query
  with its PostgreSQL error code, and a rejected cache operation. A handler that rethrows
  what it caught rethrows the same value; \<open>QueryFailed\<close> and \<open>CacheFailure\<close> reach the
  client as a 500.
\<close>

datatype http_error =
    Unauthorized string
  | Forbidden string
  | NotFound string
  | Conflict string
  | InternalServerError string
  | QueryFailed string
  | CacheFailure string
  | BadRequest string
  | ServiceUnavailable string
  | TooManyRequests string

text \<open>
  An action returns its value or throws, and in both cases leaves a state: a throw does not
  undo what the action wrote before it. \<open>andThen\<close> is awaiting a promise and going on with
  its value; \<open>catching\<close> is a try block whose handler sees the state at the throw.
\<close>

type_synonym ('w, 'a) act = "'w \<Rightarrow> (http_error + 'a) \<times> 'w"

definition ret :: "'a \<Rightarrow> ('w, 'a) act" where
  "ret x = (\<lambda>w. (Inr x, w))"

definition throw :: "http_error \<Rightarrow> ('w, 'a) act" where
  "throw e = (\<lambda>w. (Inl e, w))"

definition andThen :: "('w, 'a) act \<Rightarrow> ('a \<Rightarrow> ('w, 'b) act) \<Rightarrow> ('w, 'b) act" where
  "andThen m k = (\<lambda>w. case m w of (Inl e, w') \<Rightarrow> (Inl e, w') | (Inr x, w') \<Rightarrow> k x w')"

definition catching :: "('w, 'a) act \<Rightarrow> (http_error \<Rightarrow> ('w, 'a) act) \<Rightarrow> ('w, 'a) act" where
  "catching m h = (\<lambda>w. case m w of (Inl e, w') \<Rightarrow> h e w' | (Inr x, w') \<Rightarrow> (Inr x, w'))"

definition modify :: "('w \<Rightarrow> 'w) \<Rightarrow> ('w, unit) act" where
  "modify f = (\<lambda>w. (Inr (), f w))"

lemma act_simps [simp]:
  "ret x w = (Inr x, w)"
  "throw e w = (Inl e, w)"
  "modify f w = (Inr (), f w)"
  by (simp_all add: ret_def throw_def modify_def)

lemma andThen_ret [simp]: "andThen (ret x) k = k x"
  by (simp add: andThen_def ret_def)

lemma andThen_throw [simp]: "andThen (throw e) k = throw e"
  by (simp add: andThen_def throw_def)

lemma andThen_read: "andThen (\<lambda>w. (Inr (f w), w)) k w = k (f w) w"
  by (simp add: andThen_def)

lemma andThen_Inl: "m w = (Inl e, w') \<Longrightarrow> andThen m k w = (Inl e, w')"
  by (simp add: andThen_def)

lemma andThen_Inr: "m w = (Inr x, w') \<Longrightarrow> andThen m k w = k x w'"
  by (simp add: andThen_def)

text \<open>A result that is not an error, as a pair.\<close>

lemma Inr_pair: "\<not> isl (fst x) \<Longrightarrow> x = (Inr (projr (fst x)), snd x)"
  by (cases x) (metis fst_conv snd_conv sum.collapse(2))

lemma Inr_unit: "\<not> isl (fst x) \<Longrightarrow> x = (Inr (), snd x)"
  by (cases x) (metis fst_conv snd_conv sum.collapse(2) old.unit.exhaust)

lemma andThen_assoc: "andThen (andThen m f) g = andThen m (\<lambda>x. andThen (f x) g)"
  by (rule ext) (simp add: andThen_def split: prod.splits sum.splits)

text \<open>
  A fact every action of a sequence keeps, whether it returns or throws: the invariants of
  the development are lifted along \<open>andThen\<close> with \<open>preserves_andThen\<close>.
\<close>

definition preserves :: "('w \<Rightarrow> bool) \<Rightarrow> ('w, 'a) act \<Rightarrow> bool" where
  "preserves I m \<longleftrightarrow> (\<forall>w. I w \<longrightarrow> I (snd (m w)))"

named_theorems preserves_intros

lemma preservesD: "preserves I m \<Longrightarrow> I w \<Longrightarrow> m w = (r, w') \<Longrightarrow> I w'"
  by (auto simp: preserves_def dest!: spec [where x = w])

lemma preserves_ret [preserves_intros]: "preserves I (ret x)"
  by (simp add: preserves_def)

lemma preserves_Pair [preserves_intros]: "preserves I (Pair r)"
  by (simp add: preserves_def)

lemma preserves_throw [preserves_intros]: "preserves I (throw e)"
  by (simp add: preserves_def)

lemma preserves_andThen [preserves_intros]:
  assumes "preserves I m" and "\<And>x. preserves I (k x)"
  shows "preserves I (andThen m k)"
  unfolding preserves_def
proof (intro allI impI)
  fix w assume "I w"
  obtain r w' where m: "m w = (r, w')" by fastforce
  with assms(1) \<open>I w\<close> have "I w'" by (rule preservesD)
  with assms(2) m show "I (snd (andThen m k w))"
    by (cases r) (simp_all add: andThen_def preserves_def)
qed

lemma preserves_catching [preserves_intros]:
  assumes "preserves I m" and "\<And>e. preserves I (h e)"
  shows "preserves I (catching m h)"
  unfolding preserves_def
proof (intro allI impI)
  fix w assume "I w"
  obtain r w' where m: "m w = (r, w')" by fastforce
  with assms(1) \<open>I w\<close> have "I w'" by (rule preservesD)
  with assms(2) m show "I (snd (catching m h w))"
    by (cases r) (simp_all add: catching_def preserves_def)
qed

lemma preserves_modify [preserves_intros]:
  "(\<And>w. I w \<Longrightarrow> I (f w)) \<Longrightarrow> preserves I (modify f)"
  by (simp add: preserves_def)

lemma preserves_if [preserves_intros]:
  "preserves I m \<Longrightarrow> preserves I n \<Longrightarrow> preserves I (if b then m else n)"
  by simp

lemma preserves_option [preserves_intros]:
  "preserves I m \<Longrightarrow> (\<And>x. preserves I (k x)) \<Longrightarrow>
     preserves I (case a of None \<Rightarrow> m | Some x \<Rightarrow> k x)"
  by (cases a) simp_all

lemma preserves_case_prod [preserves_intros]:
  "(\<And>a b. preserves I (f a b)) \<Longrightarrow> preserves I (case p of (a, b) \<Rightarrow> f a b)"
  by (cases p) simp

section \<open>Rows\<close>

text \<open>
  A table is the list of its rows in insertion order. \<open>find_row\<close> is \<open>findOne\<close> with a
  \<open>where\<close>, \<open>update_where\<close> is UPDATE ... SET ... WHERE, \<open>affected\<close> the number of rows such
  a statement reports, \<open>delete_where\<close> is DELETE ... WHERE.
\<close>

definition find_row :: "('r \<Rightarrow> bool) \<Rightarrow> 'r list \<Rightarrow> 'r option" where
  "find_row P rs = find P rs"

definition update_where :: "('r \<Rightarrow> bool) \<Rightarrow> ('r \<Rightarrow> 'r) \<Rightarrow> 'r list \<Rightarrow> 'r list" where
  "update_where P f rs = map (\<lambda>r. if P r then f r else r) rs"

definition affected :: "('r \<Rightarrow> bool) \<Rightarrow> 'r list \<Rightarrow> nat" where
  "affected P rs = length (filter P rs)"

definition delete_where :: "('r \<Rightarrow> bool) \<Rightarrow> 'r list \<Rightarrow> 'r list" where
  "delete_where P rs = filter (\<lambda>r. \<not> P r) rs"

named_theorems row_simps

lemma find_row_Nil [simp, row_simps]: "find_row P [] = None"
  by (simp add: find_row_def)

lemma find_row_Cons [row_simps]:
  "find_row P (r # rs) = (if P r then Some r else find_row P rs)"
  by (simp add: find_row_def)

lemma find_row_None_iff: "find_row P rs = None \<longleftrightarrow> (\<forall>r \<in> set rs. \<not> P r)"
  by (auto simp: find_row_def find_None_iff)

lemma find_key_None: "find_row (\<lambda>r. k r = x) rs = None \<longleftrightarrow> x \<notin> k ` set rs"
  by (auto simp: find_row_None_iff)

lemma find_key_Some: "(\<exists>y. find_row (\<lambda>r. k r = x) rs = Some y) \<longleftrightarrow> x \<in> k ` set rs"
  using find_key_None [of k x rs] by (cases "find_row (\<lambda>r. k r = x) rs") auto

lemma find_pair_None:
  "find_row (\<lambda>r. k r = x \<and> l r = y) rs = None \<longleftrightarrow> (x, y) \<notin> (\<lambda>r. (k r, l r)) ` set rs"
  by (auto simp: find_row_None_iff)

lemma find_row_SomeD: "find_row P rs = Some r \<Longrightarrow> r \<in> set rs \<and> P r"
  by (auto simp: find_row_def find_Some_iff)

lemma find_row_append:
  "find_row P (rs @ qs) = (case find_row P rs of None \<Rightarrow> find_row P qs | Some r \<Rightarrow> Some r)"
  by (induction rs) (simp_all add: row_simps)

lemma find_row_unique:
  assumes "distinct (map k rs)" and "r \<in> set rs" and "P = (\<lambda>x. k x = k r)"
  shows "find_row P rs = Some r"
proof (cases "find_row P rs")
  case None
  with assms show ?thesis by (auto simp: find_row_None_iff)
next
  case (Some q)
  then have "q \<in> set rs" "k q = k r" using find_row_SomeD assms(3) by fastforce+
  with assms Some show ?thesis by (auto simp: distinct_map inj_on_def)
qed

lemma set_update_where:
  "set (update_where P f rs) = f ` {r \<in> set rs. P r} \<union> {r \<in> set rs. \<not> P r}"
  by (auto simp: update_where_def)

lemma in_update_whereE:
  assumes "r \<in> set (update_where P f rs)"
  obtains q where "q \<in> set rs" "P q" "r = f q" | "r \<in> set rs" "\<not> P r"
  using assms by (auto simp: set_update_where)

lemma update_where_Nil [simp, row_simps]: "update_where P f [] = []"
  by (simp add: update_where_def)

lemma update_where_Cons [row_simps]:
  "update_where P f (r # rs) = (if P r then f r else r) # update_where P f rs"
  by (simp add: update_where_def)

lemma update_where_none:
  "\<forall>r \<in> set rs. \<not> P r \<Longrightarrow> update_where P f rs = rs"
  by (induction rs) (simp_all add: row_simps)

lemma length_update_where [simp]: "length (update_where P f rs) = length rs"
  by (simp add: update_where_def)

lemma map_update_where:
  "(\<And>r. k (f r) = k r) \<Longrightarrow> map k (update_where P f rs) = map k rs"
  by (induction rs) (simp_all add: row_simps)

lemma find_row_update_where:
  assumes "\<And>r. Q (f r) = Q r"
  shows "find_row Q (update_where P f rs) =
    map_option (\<lambda>r. if P r then f r else r) (find_row Q rs)"
  using assms by (induction rs) (simp_all add: row_simps)

lemma filter_update_where_frame:
  assumes "\<And>r. Q (f r) = Q r" and "\<And>r. Q r \<Longrightarrow> \<not> P r"
  shows "filter Q (update_where P f rs) = filter Q rs"
  using assms by (induction rs) (auto simp: row_simps)

lemma affected_0: "affected P rs = 0 \<longleftrightarrow> (\<forall>r \<in> set rs. \<not> P r)"
  by (auto simp: affected_def filter_empty_conv)

lemma affected_Nil [simp, row_simps]: "affected P [] = 0"
  by (simp add: affected_def)

lemma affected_Cons [row_simps]:
  "affected P (r # rs) = (if P r then Suc (affected P rs) else affected P rs)"
  by (simp add: affected_def)

lemma affected_pos: "r \<in> set rs \<Longrightarrow> P r \<Longrightarrow> affected P rs \<noteq> 0"
  by (auto simp: affected_0)

lemma set_delete_where [simp]: "set (delete_where P rs) = {r \<in> set rs. \<not> P r}"
  by (auto simp: delete_where_def)

lemma delete_where_Nil [simp, row_simps]: "delete_where P [] = []"
  by (simp add: delete_where_def)

lemma delete_where_Cons [row_simps]:
  "delete_where P (r # rs) = (if P r then delete_where P rs else r # delete_where P rs)"
  by (simp add: delete_where_def)

lemma distinct_map_delete_where:
  "distinct (map k rs) \<Longrightarrow> distinct (map k (delete_where P rs))"
  by (simp add: delete_where_def distinct_map_filter)

section \<open>Deleting a batch by key\<close>

text \<open>
  \<open>DELETE ... WHERE id IN (SELECT id ... WHERE Q LIMIT b)\<close>: the keys of the first \<open>b\<close> rows
  with \<open>Q\<close>, how many rows carry them, and the rows with \<open>Q\<close> that are left.
\<close>

definition batch_keys :: "('r \<Rightarrow> 'k) \<Rightarrow> ('r \<Rightarrow> bool) \<Rightarrow> nat \<Rightarrow> 'r list \<Rightarrow> 'k list" where
  "batch_keys k Q b rs = take b (map k (filter Q rs))"

lemma filter_keys_take:
  assumes "distinct (map k xs)"
  shows "filter (\<lambda>x. k x \<in> k ` set (take b xs)) xs = take b xs"
    and "filter (\<lambda>x. k x \<notin> k ` set (take b xs)) xs = drop b xs"
proof -
  have disj: "k x \<notin> k ` set (take b xs)" if "x \<in> set (drop b xs)" for x
  proof
    assume "k x \<in> k ` set (take b xs)"
    moreover have "distinct (map k (take b xs @ drop b xs))" using assms by simp
    ultimately show False using that by (auto simp del: append_take_drop_id)
  qed
  have "filter P xs = filter P (take b xs) @ filter P (drop b xs)" for P
    by (metis append_take_drop_id filter_append)
  with disj show "filter (\<lambda>x. k x \<in> k ` set (take b xs)) xs = take b xs"
    and "filter (\<lambda>x. k x \<notin> k ` set (take b xs)) xs = drop b xs"
    by (simp_all add: filter_id_conv filter_empty_conv)
qed

lemma batch_keys_set: "set (batch_keys k Q b rs) = k ` set (take b (filter Q rs))"
  by (simp add: batch_keys_def take_map)

lemma batch_rest:
  assumes "distinct (map k rs)"
  shows "filter (\<lambda>r. k r \<notin> set (batch_keys k Q b rs) \<and> Q r) rs = drop b (filter Q rs)"
proof -
  let ?out = "\<lambda>r. k r \<notin> set (batch_keys k Q b rs)"
  have "filter (\<lambda>r. ?out r \<and> Q r) rs = filter ?out (filter Q rs)"
    by (simp add: conj_commute)
  also have "\<dots> = drop b (filter Q rs)"
    unfolding batch_keys_set
    by (rule filter_keys_take(2)) (rule distinct_map_filter [OF assms])
  finally show ?thesis .
qed

lemma batch_key_matches:
  assumes "distinct (map k rs)" and "r \<in> set rs" and "k r \<in> set (batch_keys k Q b rs)"
  shows "Q r"
proof -
  from assms(3) obtain q where "q \<in> set (take b (filter Q rs))" "k r = k q"
    by (auto simp: batch_keys_set)
  moreover from this(1) have "q \<in> set rs" "Q q" by (auto dest: in_set_takeD)
  ultimately show ?thesis using assms(1,2) by (auto simp: distinct_map inj_on_def)
qed

lemma batch_count:
  assumes "distinct (map k rs)"
  shows "affected (\<lambda>r. k r \<in> set (batch_keys k Q b rs)) rs = min b (length (filter Q rs))"
proof -
  let ?in = "\<lambda>r. k r \<in> set (batch_keys k Q b rs)"
  have "filter ?in rs = filter ?in (filter Q rs)"
    unfolding filter_filter
    by (rule filter_cong) (auto dest: batch_key_matches [OF assms])
  also have "\<dots> = take b (filter Q rs)"
    using filter_keys_take(1) [OF distinct_map_filter [OF assms], of b Q]
    by (simp add: batch_keys_set)
  finally show ?thesis by (simp add: affected_def min.commute)
qed

lemma batch_others:
  assumes "distinct (map k rs)"
  shows "filter (\<lambda>r. k r \<notin> set (batch_keys k Q b rs) \<and> \<not> Q r) rs = filter (\<lambda>r. \<not> Q r) rs"
  by (rule filter_cong) (auto dest: batch_key_matches [OF assms])

end
