(* ===== verification/Entities.thy ===== *)
theory Entities
  imports Prelude
begin

text \<open>
  The rows of the database, one record per TypeORM entity (the files
  \<open>modules/*/entities/*.entity.ts\<close>), with the columns in the order the entity declares
  them; relations are the foreign-key columns. A nullable column is an \<open>option\<close>.
\<close>

section \<open>RBAC entities\<close>

record feature =
  f_id :: uuid
  f_key :: string
  f_name :: string
  f_description :: "string option"
  f_isActive :: bool
  f_createdAt :: time
  f_updatedAt :: time

record permission =
  p_id :: uuid
  p_featureId :: uuid
  p_action :: string
  p_name :: string
  p_description :: "string option"
  p_createdAt :: time
  p_updatedAt :: time

record role =
  r_id :: uuid
  r_name :: string
  r_description :: "string option"
  r_isActive :: bool
  r_createdAt :: time
  r_updatedAt :: time

record role_permission =
  rp_id :: uuid
  rp_roleId :: uuid
  rp_permissionId :: uuid
  rp_createdAt :: time

section \<open>Users and sessions\<close>

text \<open>
  The password column is declared \<open>select: false\<close>: a row of the table holds \<open>Some\<close>
  hash, and a user object read without naming the column holds \<open>None\<close> (the property is
  absent).
\<close>

record user =
  u_id :: uuid
  u_email :: string
  u_password :: "string option"
  u_name :: string
  u_roleId :: "uuid option"
  u_isActive :: bool
  u_failedLoginAttempts :: nat
  u_lockedUntil :: "time option"
  u_createdAt :: time
  u_updatedAt :: time
  u_deletedAt :: "time option"

record session =
  s_id :: uuid
  s_userId :: uuid
  s_refreshTokenHash :: string
  s_ip :: "string option"
  s_userAgent :: "string option"
  s_createdAt :: time
  s_expiresAt :: time
  s_revokedAt :: "time option"
  s_rotatedFromSessionId :: "uuid option"
  s_jti :: "uuid option"
  s_accessJti :: "uuid option"
  s_rotatedToSessionId :: "uuid option"

section \<open>Audit log\<close>

text \<open>Values of type \<open>unknown\<close> that the audit metadata and handler results carry.\<close>

datatype json =
    JUndefined
  | JNull
  | JBool bool
  | JNum int
  | JStr string
  | JArr "json list"
  | JObj "(string \<times> json) list"
  | JDate time

record audit_log =
  al_id :: uuid
  al_actorUserId :: "uuid option"
  al_action :: string
  al_entityType :: string
  al_entityId :: "uuid option"
  al_correlationId :: "uuid option"
  al_metadata :: "(string \<times> json) list"
  al_ip :: "string option"
  al_userAgent :: "string option"
  al_createdAt :: time

section \<open>The database\<close>

record database =
  db_features :: "feature list"
  db_permissions :: "permission list"
  db_roles :: "role list"
  db_rolePermissions :: "role_permission list"
  db_users :: "user list"
  db_sessions :: "session list"
  db_auditLogs :: "audit_log list"

text \<open>What a \<open>find\<close> without the password column returns of a row.\<close>

definition without_password :: "user \<Rightarrow> user" where
  "without_password u = u\<lparr>u_password := None\<rparr>"

lemma without_password_simps [simp]:
  "u_id (without_password u) = u_id u"
  "u_email (without_password u) = u_email u"
  "u_password (without_password u) = None"
  "u_name (without_password u) = u_name u"
  "u_roleId (without_password u) = u_roleId u"
  "u_isActive (without_password u) = u_isActive u"
  "u_failedLoginAttempts (without_password u) = u_failedLoginAttempts u"
  "u_lockedUntil (without_password u) = u_lockedUntil u"
  "u_deletedAt (without_password u) = u_deletedAt u"
  by (simp_all add: without_password_def)

text \<open>The column limits \<open>varchar(45)\<close> and \<open>varchar(512)\<close> of sessions and audit logs.\<close>

definition varchar_ok :: "nat \<Rightarrow> string option \<Rightarrow> bool" where
  "varchar_ok n x = (case x of None \<Rightarrow> True | Some s \<Rightarrow> length s \<le> n)"

lemma varchar_ok_simps [simp]:
  "varchar_ok n None"
  "varchar_ok n (Some s) = (length s \<le> n)"
  by (simp_all add: varchar_ok_def)

section \<open>Active sessions\<close>

text \<open>
  The sessions that \<open>user_id = u AND revoked_at IS NULL\<close> selects: the ones a refresh token
  can still be exchanged on.
\<close>

definition active_session :: "uuid \<Rightarrow> session \<Rightarrow> bool" where
  "active_session uid s \<longleftrightarrow> s_userId s = uid \<and> s_revokedAt s = None"

definition active_sessions :: "uuid \<Rightarrow> session list \<Rightarrow> session list" where
  "active_sessions uid ss = filter (active_session uid) ss"

lemma active_sessions_iff: "s \<in> set (active_sessions uid ss) \<longleftrightarrow> s \<in> set ss \<and> active_session uid s"
  by (simp add: active_sessions_def)

lemma active_sessions_empty:
  "active_sessions uid ss = [] \<longleftrightarrow> (\<forall>s \<in> set ss. \<not> active_session uid s)"
  by (simp add: active_sessions_def filter_empty_conv)

end
