(* ===== verification/Cache_Store.thy ===== *)
theory Cache_Store
  imports Entities
begin

text \<open>
  The cache behind \<open>CACHE_MANAGER\<close>: the interface the services rely on as a locale, and
  the store that provides it. Three components share the one store under the key prefixes
  \<open>jti:\<close> (denied access tokens), \<open>user:\<close> (user rows) and \<open>rbac:role:\<close> (permission
  sets), so the keys and their disjointness are here too.
\<close>

section \<open>The interface\<close>

text \<open>
  What cache-manager documents of \<open>get\<close>, \<open>set\<close> with a time to live in milliseconds, and
  \<open>del\<close>; \<open>get t\<close> is a read at time \<open>t\<close>. A time to live of 0 means no expiry.
\<close>

locale ttl_store =
  fixes get :: "time \<Rightarrow> 'k \<Rightarrow> 'c \<Rightarrow> 'v option"
    and put :: "time \<Rightarrow> 'k \<Rightarrow> 'v \<Rightarrow> int \<Rightarrow> 'c \<Rightarrow> 'c"
    and del :: "'k \<Rightarrow> 'c \<Rightarrow> 'c"
  assumes get_put_live: "ttl = 0 \<or> t \<le> t0 + ttl \<Longrightarrow> get t k (put t0 k v ttl c) = Some v"
    and get_put_expired: "ttl \<noteq> 0 \<Longrightarrow> t0 + ttl < t \<Longrightarrow> get t k (put t0 k v ttl c) = None"
    and get_put_other: "k \<noteq> k' \<Longrightarrow> get t k' (put t0 k v ttl c) = get t k' c"
    and get_del_same: "get t k (del k c) = None"
    and get_del_other: "k \<noteq> k' \<Longrightarrow> get t k' (del k c) = get t k' c"
begin

text \<open>
  A batch of writes with one value: every written key is present for the time to live, and
  a key outside the batch reads as before.
\<close>

lemma put_all_other:
  "k \<notin> set ks \<Longrightarrow> get t k (fold (\<lambda>k. put t0 k v ttl) ks c) = get t k c"
  by (induction ks arbitrary: c) (auto simp: get_put_other)

lemma put_all_live:
  assumes "k \<in> set ks" and "t \<le> t0 + ttl"
  shows "get t k (fold (\<lambda>k. put t0 k v ttl) ks c) = Some v"
  using assms(1)
proof (induction ks arbitrary: c)
  case (Cons k' ks)
  show ?case
  proof (cases "k \<in> set ks")
    case True
    with Cons.IH show ?thesis by simp
  next
    case False
    with Cons.prems have "k' = k" by simp
    with False assms(2) show ?thesis by (simp add: put_all_other get_put_live)
  qed
qed simp

end

section \<open>The store\<close>

text \<open>
  The values the services store: the number 1 of the denylist, a user object, and the
  permission strings of a role with the epoch they were read at. An entry carries the time
  it expires at, if any.
\<close>

datatype cache_value =
    CNum int
  | CUser user
  | CPerms int "string list"

type_synonym cache = "string \<rightharpoonup> cache_value \<times> time option"

definition cache_get :: "time \<Rightarrow> string \<Rightarrow> cache \<Rightarrow> cache_value option" where
  "cache_get t k c = (case c k of
     None \<Rightarrow> None
   | Some (v, None) \<Rightarrow> Some v
   | Some (v, Some expires) \<Rightarrow> if t \<le> expires then Some v else None)"

definition cache_put :: "time \<Rightarrow> string \<Rightarrow> cache_value \<Rightarrow> int \<Rightarrow> cache \<Rightarrow> cache" where
  "cache_put t k v ttl c = c(k \<mapsto> (v, if ttl = 0 then None else Some (t + ttl)))"

definition cache_del :: "string \<Rightarrow> cache \<Rightarrow> cache" where
  "cache_del k c = c(k := None)"

interpretation cache_manager: ttl_store cache_get cache_put cache_del
  by unfold_locales (auto simp: cache_get_def cache_put_def cache_del_def)

lemmas cache_reads =
  cache_manager.get_put_live cache_manager.get_put_expired cache_manager.get_put_other
  cache_manager.get_del_same cache_manager.get_del_other

section \<open>Keys\<close>

definition jti_key :: "uuid \<Rightarrow> string" where
  "jti_key jti = ''jti:'' @ jti"

definition user_key :: "uuid \<Rightarrow> string" where
  "user_key uid = ''user:'' @ uid"

definition rolePermissionCacheKey :: "uuid \<Rightarrow> string" where
  "rolePermissionCacheKey roleId = ''rbac:role:'' @ roleId @ '':permissions''"

lemma cache_keys_inj [simp]:
  "jti_key a = jti_key b \<longleftrightarrow> a = b"
  "user_key a = user_key b \<longleftrightarrow> a = b"
  "rolePermissionCacheKey a = rolePermissionCacheKey b \<longleftrightarrow> a = b"
  by (simp_all add: jti_key_def user_key_def rolePermissionCacheKey_def)

lemma cache_keys_disjoint [simp]:
  "jti_key a \<noteq> user_key b" "user_key b \<noteq> jti_key a"
  "jti_key a \<noteq> rolePermissionCacheKey c" "rolePermissionCacheKey c \<noteq> jti_key a"
  "user_key b \<noteq> rolePermissionCacheKey c" "rolePermissionCacheKey c \<noteq> user_key b"
  by (simp_all add: jti_key_def user_key_def rolePermissionCacheKey_def)

end
