(* ===== verification/World.thy ===== *)
theory World
  imports Cache_Store
begin

text \<open>
  The state the services act on, and the code they call that is not in the repository.
  Every handler is a function of the parameters \<open>env\<close> and of its arguments, from worlds to
  worlds; the clock, the tables, the cache, the audit queue, the request context and the
  faults of the infrastructure are parts of the world.
\<close>

section \<open>Parameters\<close>

text \<open>The claims of a token: what \<open>buildTokenPair\<close> signs and \<open>verify\<close> returns.\<close>

record payload =
  jp_sub :: uuid
  jp_email :: string
  jp_roleId :: "uuid option"
  jp_tokenType :: string
  jp_jti :: "uuid option"

text \<open>
  \<open>env\<close> holds the third-party functions (jsonwebtoken behind \<open>JwtService\<close>, SHA-256, bcrypt,
  the uuid generator, PostgreSQL's uuid syntax) and the configuration. Signing takes the
  claims, the lifetime in seconds and the time of signing; hashing a password takes the
  password, the cost and the salt's source of randomness.
\<close>

record env =
  e_sign :: "payload \<Rightarrow> int \<Rightarrow> time \<Rightarrow> string"
  e_verify :: "string \<Rightarrow> time \<Rightarrow> payload option"
  e_sha256 :: "string \<Rightarrow> string"
  e_bcryptCompare :: "string \<Rightarrow> string \<Rightarrow> bool"
  e_bcryptHash :: "string \<Rightarrow> nat \<Rightarrow> nat \<Rightarrow> string"
  e_uuid :: "nat \<Rightarrow> uuid"
  e_pgUuid :: "string \<Rightarrow> bool"
  e_redisConfigured :: bool
  e_rbacCacheTtl :: int

text \<open>
  The documented behaviour of these functions that theorems rely on, each named. A token
  verifies with the public key as long as its lifetime has not passed, counted in whole
  seconds as the \<open>iat\<close> and \<open>exp\<close> claims are, and only tokens the private key signed verify.
\<close>

definition jwt_ok :: "env \<Rightarrow> bool" where
  "jwt_ok E \<longleftrightarrow>
     (\<forall>p lifetime t now. e_verify E (e_sign E p lifetime t) now =
        (if now div 1000 < t div 1000 + lifetime then Some p else None)) \<and>
     (\<forall>tok now p. e_verify E tok now = Some p \<longrightarrow>
        (\<exists>lifetime t. tok = e_sign E p lifetime t))"

definition sha_ok :: "env \<Rightarrow> bool" where
  "sha_ok E \<longleftrightarrow> inj (e_sha256 E)"

definition bcrypt_ok :: "env \<Rightarrow> bool" where
  "bcrypt_ok E \<longleftrightarrow> (\<forall>pw cost salt. e_bcryptCompare E pw (e_bcryptHash E pw cost salt))"

definition uuid_ok :: "env \<Rightarrow> bool" where
  "uuid_ok E \<longleftrightarrow> inj (e_uuid E) \<and> (\<forall>n. e_uuid E n \<noteq> [] \<and> e_pgUuid E (e_uuid E n))"

lemma jwt_sign_inj:
  assumes "jwt_ok E" and "e_sign E p l t = e_sign E q l' t'"
  shows "p = q"
proof -
  let ?now = "(min (t div 1000 + l) (t' div 1000 + l') - 1) * 1000"
  from assms(1) have v: "\<And>p l t. e_verify E (e_sign E p l t) ?now =
      (if ?now div 1000 < t div 1000 + l then Some p else None)"
    by (simp add: jwt_ok_def)
  have "e_verify E (e_sign E p l t) ?now = Some p"
    unfolding v by (simp add: min_def)
  moreover have "e_verify E (e_sign E q l' t') ?now = Some q"
    unfolding v by (simp add: min_def)
  ultimately show ?thesis using assms(2) by simp
qed

lemma uuid_inj [simp]: "uuid_ok E \<Longrightarrow> e_uuid E m = e_uuid E n \<longleftrightarrow> m = n"
  by (auto simp: uuid_ok_def inj_def)

lemma sha_inj: "sha_ok E \<Longrightarrow> e_sha256 E a = e_sha256 E b \<longleftrightarrow> a = b"
  by (auto simp: sha_ok_def inj_def)

section \<open>The world\<close>

text \<open>
  \<open>faults\<close> says which operations of the infrastructure are failing now: the cache's, by key,
  the two Redis commands on the RBAC epoch, the audit queue, INSERTs into the audit table, the
  DELETEs of the purge jobs, and the query for the permissions of a role.
\<close>

record faults =
  cacheGetFails :: "string \<Rightarrow> bool"
  cacheSetFails :: "string \<Rightarrow> bool"
  cacheDelFails :: "string \<Rightarrow> bool"
  redisReadFails :: bool
  redisIncrFails :: bool
  auditQueueFails :: bool
  auditInsertFails :: bool
  purgeFails :: bool
  rbacQueryFails :: bool

definition no_faults :: faults where
  "no_faults = \<lparr>cacheGetFails = (\<lambda>_. False), cacheSetFails = (\<lambda>_. False),
     cacheDelFails = (\<lambda>_. False), redisReadFails = False, redisIncrFails = False,
     auditQueueFails = False, auditInsertFails = False, purgeFails = False,
     rbacQueryFails = False\<rparr>"

text \<open>\<open>RequestContextData\<close> of \<open>logger/request-context.ts\<close>.\<close>

record request_context =
  rc_correlationId :: string
  rc_userId :: "uuid option"

text \<open>\<open>AuditLogJobPayload\<close> of \<open>modules/audit/audit-log.service.ts\<close>, the data of a queued job.\<close>

record audit_payload =
  ap_action :: string
  ap_entityType :: string
  ap_entityId :: "string option"
  ap_actorUserId :: "string js_opt"
  ap_correlationId :: "string js_opt"
  ap_metadata :: "(string \<times> json) list js_opt"
  ap_ip :: "string js_opt"
  ap_userAgent :: "string js_opt"

text \<open>
  \<open>w_fresh\<close> counts the uuids generated so far; \<open>w_queue\<close> holds the waiting audit jobs, and
  is \<open>None\<close> where no queue is injected; \<open>w_ctx\<close> is the request's \<open>AsyncLocalStorage\<close>
  store; the last three are the state of \<open>RbacService\<close> and Redis' epoch counter.
\<close>

record world =
  w_now :: time
  w_faults :: faults
  w_fresh :: nat
  w_db :: database
  w_cache :: cache
  w_queue :: "audit_payload list option"
  w_ctx :: "request_context option"
  w_redisEpoch :: "int option"
  w_invalidationEpoch :: int
  w_cachedRoleKeys :: "string list"

abbreviation sessions :: "world \<Rightarrow> session list" where
  "sessions w \<equiv> db_sessions (w_db w)"

abbreviation users :: "world \<Rightarrow> user list" where
  "users w \<equiv> db_users (w_db w)"

abbreviation auditLogs :: "world \<Rightarrow> audit_log list" where
  "auditLogs w \<equiv> db_auditLogs (w_db w)"

definition set_sessions :: "session list \<Rightarrow> world \<Rightarrow> world" where
  "set_sessions ss w = w\<lparr>w_db := (w_db w)\<lparr>db_sessions := ss\<rparr>\<rparr>"

definition set_users :: "user list \<Rightarrow> world \<Rightarrow> world" where
  "set_users us w = w\<lparr>w_db := (w_db w)\<lparr>db_users := us\<rparr>\<rparr>"

definition set_auditLogs :: "audit_log list \<Rightarrow> world \<Rightarrow> world" where
  "set_auditLogs ls w = w\<lparr>w_db := (w_db w)\<lparr>db_auditLogs := ls\<rparr>\<rparr>"

lemma set_table_simps [simp]:
  "sessions (set_sessions ss w) = ss" "users (set_sessions ss w) = users w"
  "auditLogs (set_sessions ss w) = auditLogs w"
  "sessions (set_users us w) = sessions w" "users (set_users us w) = us"
  "auditLogs (set_users us w) = auditLogs w"
  "sessions (set_auditLogs ls w) = sessions w" "users (set_auditLogs ls w) = users w"
  "auditLogs (set_auditLogs ls w) = ls"
  "w_now (set_sessions ss w) = w_now w" "w_now (set_users us w) = w_now w"
  "w_now (set_auditLogs ls w) = w_now w"
  "w_fresh (set_sessions ss w) = w_fresh w" "w_fresh (set_users us w) = w_fresh w"
  "w_fresh (set_auditLogs ls w) = w_fresh w"
  "w_cache (set_sessions ss w) = w_cache w" "w_cache (set_users us w) = w_cache w"
  "w_cache (set_auditLogs ls w) = w_cache w"
  "w_faults (set_sessions ss w) = w_faults w" "w_faults (set_users us w) = w_faults w"
  "w_faults (set_auditLogs ls w) = w_faults w"
  "w_ctx (set_sessions ss w) = w_ctx w" "w_ctx (set_users us w) = w_ctx w"
  "w_ctx (set_auditLogs ls w) = w_ctx w"
  "w_queue (set_sessions ss w) = w_queue w" "w_queue (set_users us w) = w_queue w"
  "w_queue (set_auditLogs ls w) = w_queue w"
  by (simp_all add: set_sessions_def set_users_def set_auditLogs_def)

section \<open>Primitive actions\<close>

definition genUuid :: "env \<Rightarrow> (world, uuid) act" where
  "genUuid E = (\<lambda>w. (Inr (e_uuid E (w_fresh w)), w\<lparr>w_fresh := Suc (w_fresh w)\<rparr>))"

definition cacheGet :: "string \<Rightarrow> (world, cache_value option) act" where
  "cacheGet k = (\<lambda>w. if cacheGetFails (w_faults w) k then (Inl (CacheFailure k), w)
     else (Inr (cache_get (w_now w) k (w_cache w)), w))"

definition cacheSet :: "string \<Rightarrow> cache_value \<Rightarrow> int \<Rightarrow> (world, unit) act" where
  "cacheSet k v ttl = (\<lambda>w. if cacheSetFails (w_faults w) k then (Inl (CacheFailure k), w)
     else (Inr (), w\<lparr>w_cache := cache_put (w_now w) k v ttl (w_cache w)\<rparr>))"

definition cacheDel :: "string \<Rightarrow> (world, unit) act" where
  "cacheDel k = (\<lambda>w. if cacheDelFails (w_faults w) k then (Inl (CacheFailure k), w)
     else (Inr (), w\<lparr>w_cache := cache_del k (w_cache w)\<rparr>))"

text \<open>
  \<open>manager.transaction\<close>: the tables go back to what they were when the body throws, and
  keep its changes when it returns. What the body wrote to the cache stays in both cases.
\<close>

definition transaction :: "(world, 'a) act \<Rightarrow> (world, 'a) act" where
  "transaction body = (\<lambda>w. case body w of
     (Inl e, w') \<Rightarrow> (Inl e, w'\<lparr>w_db := w_db w\<rparr>)
   | (Inr x, w') \<Rightarrow> (Inr x, w'))"

lemma transaction_throws:
  "transaction body w = (Inl e, w') \<Longrightarrow> w_db w' = w_db w"
  by (auto simp: transaction_def split: prod.splits sum.splits)

lemma transaction_then:
  "andThen (transaction body) k w = (case body w of
     (Inl e, w') \<Rightarrow> (Inl e, w'\<lparr>w_db := w_db w\<rparr>) | (Inr x, w') \<Rightarrow> k x w')"
  by (auto simp: andThen_def transaction_def split: prod.splits sum.splits)

end
