(* ===== verification/Pg_Errors.thy ===== *)
theory Pg_Errors
  imports World
begin

text \<open>
  Errors of the database driver and how the services turn them into HTTP errors:
  \<open>common/utils/pg-constraint-error.util.ts\<close> and \<open>modules/rbac/utils/rbac-crud.util.ts\<close>.
\<close>

text \<open>\<open>getPgErrorCode\<close>: only a failed query carries a code.\<close>

fun getPgErrorCode :: "http_error \<Rightarrow> string option" where
  "getPgErrorCode (QueryFailed code) = Some code"
| "getPgErrorCode _ = None"

definition isPgError :: "http_error \<Rightarrow> string \<Rightarrow> bool" where
  "isPgError err code \<longleftrightarrow> getPgErrorCode err = Some code"

text \<open>
  \<open>handlePgConstraintError\<close> always throws: what the handler of the violated constraint
  throws, if one was given, and the caught error otherwise.
\<close>

definition handlePgConstraintError ::
  "http_error \<Rightarrow> http_error option \<Rightarrow> http_error option \<Rightarrow> http_error" where
  "handlePgConstraintError err onUnique onForeignKey =
     (if isPgError err ''23505'' \<and> onUnique \<noteq> None then the onUnique
      else if isPgError err ''23503'' \<and> onForeignKey \<noteq> None then the onForeignKey
      else err)"

lemma handlePg_simps [simp]:
  "handlePgConstraintError (QueryFailed ''23505'') (Some e) f = e"
  "handlePgConstraintError (QueryFailed ''23505'') None f = QueryFailed ''23505''"
  "handlePgConstraintError (QueryFailed ''23503'') u (Some e) = e"
  "handlePgConstraintError (QueryFailed ''23503'') u None = QueryFailed ''23503''"
  by (simp_all add: handlePgConstraintError_def isPgError_def)

lemma handlePg_other:
  "getPgErrorCode err \<notin> {Some ''23505'', Some ''23503''} \<Longrightarrow>
     handlePgConstraintError err u f = err"
  by (simp add: handlePgConstraintError_def isPgError_def)

text \<open>\<open>assertFound\<close> and \<open>ensureAffected\<close>.\<close>

definition quoted :: "string \<Rightarrow> string" where
  "quoted s = CHR 0x22 # s @ [CHR 0x22]"

definition not_found_message :: "string \<Rightarrow> string \<Rightarrow> string" where
  "not_found_message label rowId = label @ '' with ID '' @ quoted rowId @ '' not found''"

definition assertFound :: "'a option \<Rightarrow> string \<Rightarrow> string \<Rightarrow> ('w, 'a) act" where
  "assertFound entity label rowId = (case entity of
     None \<Rightarrow> throw (NotFound (not_found_message label rowId))
   | Some e \<Rightarrow> ret e)"

definition ensureAffected :: "nat \<Rightarrow> string \<Rightarrow> string \<Rightarrow> ('w, unit) act" where
  "ensureAffected n label rowId =
     (if n = 0 then throw (NotFound (not_found_message label rowId)) else ret ())"

text \<open>
  \<open>safeDelete\<close>: the handler is given the repository's \<open>delete\<close>, which reports how many rows
  went; a violated foreign key becomes a conflict, everything else is rethrown.
\<close>

definition safeDelete ::
  "('w, nat) act \<Rightarrow> string \<Rightarrow> string \<Rightarrow> string \<Rightarrow> ('w, unit) act" where
  "safeDelete delete rowId label foreignKeyMessage = catching
     (andThen delete (\<lambda>n. ensureAffected n label rowId))
     (\<lambda>err. throw (handlePgConstraintError err None (Some (Conflict foreignKeyMessage))))"

lemma safeDelete_cases:
  "delete w = (Inr n, w') \<Longrightarrow> n \<noteq> 0 \<Longrightarrow> safeDelete delete i l m w = (Inr (), w')"
  "delete w = (Inr 0, w') \<Longrightarrow>
     safeDelete delete i l m w = (Inl (NotFound (not_found_message l i)), w')"
  "delete w = (Inl (QueryFailed ''23503''), w') \<Longrightarrow>
     safeDelete delete i l m w = (Inl (Conflict m), w')"
  by (simp_all add: safeDelete_def catching_def andThen_def ensureAffected_def
      handlePg_other)

end
