(* ===== verification/Users.thy ===== *)
theory Users
  imports Pg_Errors
begin

text \<open>
  \<open>UsersService\<close> (\<open>users/users.service.ts\<close>): the user rows, the lockout counter, and the
  cached user object that \<open>JwtStrategy\<close> reads, which every change of a row drops.
\<close>

definition LOCKOUT_THRESHOLD :: nat where "LOCKOUT_THRESHOLD = 5"

definition LOCKOUT_DURATION_MS :: int where "LOCKOUT_DURATION_MS = 15 * 60 * 1000"

definition invalidateUserCache :: "uuid \<Rightarrow> (world, unit) act" where
  "invalidateUserCache uid = cacheDel (user_key uid)"

section \<open>Reading\<close>

text \<open>
  A \<open>find\<close> on an entity with a \<open>DeleteDateColumn\<close> leaves out the rows that are soft-deleted.
\<close>

definition visible_user :: "(user \<Rightarrow> bool) \<Rightarrow> user \<Rightarrow> bool" where
  "visible_user P u \<longleftrightarrow> P u \<and> u_deletedAt u = None"

definition users_findOne :: "string \<Rightarrow> world \<Rightarrow> user option" where
  "users_findOne email w =
     map_option without_password (find_row (visible_user (\<lambda>u. u_email u = email)) (users w))"

definition users_findOneWithPassword :: "string \<Rightarrow> world \<Rightarrow> user option" where
  "users_findOneWithPassword email w = find_row (visible_user (\<lambda>u. u_email u = email)) (users w)"

definition users_findById :: "uuid \<Rightarrow> world \<Rightarrow> user option" where
  "users_findById uid w =
     map_option without_password (find_row (visible_user (\<lambda>u. u_id u = uid)) (users w))"

definition users_findByIdWithPassword :: "uuid \<Rightarrow> world \<Rightarrow> user option" where
  "users_findByIdWithPassword uid w = find_row (visible_user (\<lambda>u. u_id u = uid)) (users w)"

section \<open>Writing\<close>

text \<open>
  An UPDATE of the row with one id, through the repository or the entity manager: it sets the
  columns and the entity's \<open>@UpdateDateColumn\<close>, on soft-deleted rows too.
\<close>

definition update_user :: "uuid \<Rightarrow> (user \<Rightarrow> user) \<Rightarrow> world \<Rightarrow> world" where
  "update_user uid f w = set_users (update_where (\<lambda>u. u_id u = uid)
     (\<lambda>u. (f u)\<lparr>u_updatedAt := w_now w\<rparr>) (users w)) w"

record create_user_dto =
  cu_email :: string
  cu_name :: string
  cu_password :: string
  cu_roleId :: "uuid option"

definition new_user :: "uuid \<Rightarrow> time \<Rightarrow> create_user_dto \<Rightarrow> user" where
  "new_user uid now dto =
     \<lparr>u_id = uid, u_email = cu_email dto, u_password = Some (cu_password dto),
      u_name = cu_name dto, u_roleId = cu_roleId dto, u_isActive = True,
      u_failedLoginAttempts = 0, u_lockedUntil = None, u_createdAt = now,
      u_updatedAt = now, u_deletedAt = None\<rparr>"

text \<open>
  The INSERT into \<open>users\<close>: the unique key on the emails of all rows, the soft-deleted ones
  included (\<open>migrations/1707764400000\<close>; the one on the others, of \<open>migrations/1740400000003\<close>, adds
  nothing to it), and the foreign key to \<open>roles\<close>.
\<close>

definition insert_user :: "user \<Rightarrow> (world, user) act" where
  "insert_user row = (\<lambda>w.
     if find_row (\<lambda>u. u_email u = u_email row) (users w) \<noteq> None
     then (Inl (QueryFailed ''23505''), w)
     else if u_roleId row \<noteq> None \<and>
             find_row (\<lambda>r. r_id r = the (u_roleId row)) (db_roles (w_db w)) = None
     then (Inl (QueryFailed ''23503''), w)
     else (Inr row, set_users (users w @ [row]) w))"

definition users_create :: "env \<Rightarrow> create_user_dto \<Rightarrow> (world, user) act" where
  "users_create E dto = catching
     (andThen (genUuid E) (\<lambda>uid w. insert_user (new_user uid (w_now w) dto) w))
     (\<lambda>err. throw (handlePgConstraintError err (Some (Conflict ''User already exists'')) None))"

text \<open>
  \<open>recordFailedLogin\<close>: increment, read back, and lock once the threshold is reached and no
  lock is running; one transaction, then the cached user is dropped.
\<close>

definition recordFailedLogin_body :: "uuid \<Rightarrow> (world, nat \<times> time option) act" where
  "recordFailedLogin_body uid = (\<lambda>w.
     let w1 = update_user uid (\<lambda>u. u\<lparr>u_failedLoginAttempts := Suc (u_failedLoginAttempts u)\<rparr>) w in
     case users_findById uid w1 of
       None \<Rightarrow> (Inl (Unauthorized ''Invalid credentials''), w1)
     | Some updated \<Rightarrow>
         let shouldLock = LOCKOUT_THRESHOLD \<le> u_failedLoginAttempts updated \<and>
               (case u_lockedUntil updated of None \<Rightarrow> True | Some t \<Rightarrow> t \<le> w_now w) in
         if shouldLock then
           let until = w_now w + LOCKOUT_DURATION_MS in
           (Inr (u_failedLoginAttempts updated, Some until),
            update_user uid (\<lambda>u. u\<lparr>u_lockedUntil := Some until\<rparr>) w1)
         else (Inr (u_failedLoginAttempts updated, u_lockedUntil updated), w1))"

definition users_recordFailedLogin :: "uuid \<Rightarrow> (world, nat \<times> time option) act" where
  "users_recordFailedLogin uid =
     andThen (transaction (recordFailedLogin_body uid))
       (\<lambda>result. andThen (invalidateUserCache uid) (\<lambda>_. ret result))"

definition users_resetFailedLogin :: "uuid \<Rightarrow> (world, unit) act" where
  "users_resetFailedLogin uid =
     andThen (modify (update_user uid (\<lambda>u. u\<lparr>u_failedLoginAttempts := 0, u_lockedUntil := None\<rparr>)))
       (\<lambda>_. invalidateUserCache uid)"

definition users_updatePassword :: "uuid \<Rightarrow> string \<Rightarrow> (world, unit) act" where
  "users_updatePassword uid hashed =
     andThen (modify (update_user uid (\<lambda>u. u\<lparr>u_password := Some hashed\<rparr>)))
       (\<lambda>_. invalidateUserCache uid)"

definition users_setActive :: "uuid \<Rightarrow> bool \<Rightarrow> (world, nat) act" where
  "users_setActive uid active = (\<lambda>w.
     andThen (modify (update_user uid (\<lambda>u. u\<lparr>u_isActive := active\<rparr>)))
       (\<lambda>_. andThen (invalidateUserCache uid)
         (\<lambda>_. ret (affected (\<lambda>u. u_id u = uid) (users w)))) w)"

section \<open>Lemmas\<close>

lemma update_user_frame [simp]:
  "sessions (update_user uid f w) = sessions w"
  "auditLogs (update_user uid f w) = auditLogs w"
  "w_now (update_user uid f w) = w_now w"
  "w_cache (update_user uid f w) = w_cache w"
  "w_fresh (update_user uid f w) = w_fresh w"
  "w_faults (update_user uid f w) = w_faults w"
  "w_ctx (update_user uid f w) = w_ctx w"
  "w_queue (update_user uid f w) = w_queue w"
  by (simp_all add: update_user_def)

text \<open>
  What a lookup by id sees after an UPDATE of an id, when the update touches neither the id
  nor the deletion date: the one row changes.
\<close>

lemma findByIdWithPassword_update_user:
  assumes "\<And>u. u_id (f u) = u_id u" "\<And>u. u_deletedAt (f u) = u_deletedAt u"
  shows "users_findByIdWithPassword v (update_user uid f w) =
    map_option (\<lambda>u. if u_id u = uid then (f u)\<lparr>u_updatedAt := w_now w\<rparr> else u)
      (users_findByIdWithPassword v w)"
  unfolding users_findByIdWithPassword_def update_user_def set_table_simps
  by (rule find_row_update_where) (simp add: visible_user_def assms)

lemma findById_eq: "users_findById uid w = map_option without_password (users_findByIdWithPassword uid w)"
  by (simp add: users_findById_def users_findByIdWithPassword_def)

lemma findByIdWithPassword_id:
  "users_findByIdWithPassword uid w = Some u \<Longrightarrow> u_id u = uid \<and> u \<in> set (users w) \<and> u_deletedAt u = None"
  unfolding users_findByIdWithPassword_def visible_user_def by (drule find_row_SomeD) simp

lemma findById_no_password: "users_findById uid w = Some u \<Longrightarrow> u_password u = None"
  by (auto simp: findById_eq)

lemma findOne_no_password: "users_findOne email w = Some u \<Longrightarrow> u_password u = None"
  by (auto simp: users_findOne_def)

text \<open>A row other than the updated one is untouched.\<close>

lemma other_rows_update_user:
  "(\<And>u. u_id (f u) = u_id u) \<Longrightarrow>
   filter (\<lambda>u. u_id u \<noteq> uid) (users (update_user uid f w)) = filter (\<lambda>u. u_id u \<noteq> uid) (users w)"
  by (simp add: update_user_def filter_update_where_frame)

text \<open>The lockout step, as one equation over the row that the counter belongs to.\<close>

definition lockout_step :: "time \<Rightarrow> user \<Rightarrow> user" where
  "lockout_step now u =
     (let n = Suc (u_failedLoginAttempts u) in
      u\<lparr>u_failedLoginAttempts := n,
        u_lockedUntil :=
          (if LOCKOUT_THRESHOLD \<le> n \<and> (case u_lockedUntil u of None \<Rightarrow> True | Some t \<Rightarrow> t \<le> now)
           then Some (now + LOCKOUT_DURATION_MS) else u_lockedUntil u),
        u_updatedAt := now\<rparr>)"

lemma recordFailedLogin_body_result:
  assumes "users_findByIdWithPassword uid w = Some u"
  shows "fst (recordFailedLogin_body uid w) =
    Inr (Suc (u_failedLoginAttempts u), u_lockedUntil (lockout_step (w_now w) u))"
  using assms findByIdWithPassword_id [OF assms]
  by (auto simp: recordFailedLogin_body_def Let_def findById_eq findByIdWithPassword_update_user
      lockout_step_def split: option.splits)

lemma recordFailedLogin_body_row:
  assumes "users_findByIdWithPassword uid w = Some u"
  shows "users_findByIdWithPassword uid (snd (recordFailedLogin_body uid w)) =
    Some (lockout_step (w_now w) u)"
  using assms findByIdWithPassword_id [OF assms]
  by (cases "u_lockedUntil u")
     (auto simp: recordFailedLogin_body_def Let_def findById_eq findByIdWithPassword_update_user
      lockout_step_def)

lemma recordFailedLogin_body_frame:
  "sessions (snd (recordFailedLogin_body uid w)) = sessions w"
  "auditLogs (snd (recordFailedLogin_body uid w)) = auditLogs w"
  "w_now (snd (recordFailedLogin_body uid w)) = w_now w"
  "w_cache (snd (recordFailedLogin_body uid w)) = w_cache w"
  "w_fresh (snd (recordFailedLogin_body uid w)) = w_fresh w"
  "w_faults (snd (recordFailedLogin_body uid w)) = w_faults w"
  by (auto simp: recordFailedLogin_body_def Let_def split: option.splits)

end
