(* ===== verification/Request_Context.thy ===== *)
theory Request_Context
  imports World
begin

text \<open>
  The request as the services see it: \<open>common/utils/request-context.util.ts\<close>,
  \<open>logger/correlation-id.middleware.ts\<close> and the \<open>AsyncLocalStorage\<close> store of
  \<open>logger/request-context.ts\<close>, plus the key of the login throttle.
\<close>

section \<open>Requests\<close>

text \<open>
  The parts of an Express request the code reads: the two headers, \<open>ip\<close>,
  \<open>socket.remoteAddress\<close>, \<open>body\<close>, and the properties \<open>id\<close> and \<open>correlationId\<close> that the
  middleware writes.
\<close>

record request =
  rq_ip :: "string option"
  rq_remoteAddress :: "string option"
  rq_userAgentHeader :: "string option"
  rq_correlationHeader :: "string option"
  rq_id :: "string option"
  rq_correlationId :: "string option"
  rq_body :: "(string \<times> json) list"

definition extractRequestContext :: "request \<Rightarrow> string option \<times> string option" where
  "extractRequestContext req =
     ((case rq_ip req of Some ip \<Rightarrow> Some ip | None \<Rightarrow> rq_remoteAddress req),
      rq_userAgentHeader req)"

definition getClientIp :: "request \<Rightarrow> string" where
  "getClientIp req = (case fst (extractRequestContext req) of Some ip \<Rightarrow> ip | None \<Rightarrow> [])"

section \<open>The request's store\<close>

definition rc_run :: "request_context \<Rightarrow> world \<Rightarrow> world" where
  "rc_run data w = w\<lparr>w_ctx := Some data\<rparr>"

definition rc_setUser :: "uuid \<Rightarrow> world \<Rightarrow> world" where
  "rc_setUser uid w = (case w_ctx w of
     None \<Rightarrow> w
   | Some store \<Rightarrow> w\<lparr>w_ctx := Some (store\<lparr>rc_userId := Some uid\<rparr>)\<rparr>)"

definition rc_getCorrelationId :: "world \<Rightarrow> string option" where
  "rc_getCorrelationId w = map_option rc_correlationId (w_ctx w)"

definition rc_getUserId :: "world \<Rightarrow> uuid option" where
  "rc_getUserId w = (case w_ctx w of None \<Rightarrow> None | Some store \<Rightarrow> rc_userId store)"

text \<open>
  \<open>CorrelationIdMiddleware.use\<close>: the header's value if there is one (whatever it is), a new
  uuid otherwise, stored on the request as \<open>correlationId\<close> and as \<open>id\<close>, sent back in the
  response header (the second result), and the request's store opened with it.
\<close>

definition correlationId_use :: "env \<Rightarrow> request \<Rightarrow> (world, request \<times> string) act" where
  "correlationId_use E req =
     andThen (if truthy (rq_correlationHeader req)
              then ret (the (rq_correlationHeader req)) else genUuid E)
       (\<lambda>cid. andThen (modify (rc_run \<lparr>rc_correlationId = cid, rc_userId = None\<rparr>))
         (\<lambda>_. ret (req\<lparr>rq_correlationId := Some cid, rq_id := Some cid\<rparr>, cid)))"

lemma rc_simps [simp]:
  "rc_getUserId (rc_run d w) = rc_userId d"
  "rc_getCorrelationId (rc_run d w) = Some (rc_correlationId d)"
  "w_db (rc_setUser u w) = w_db w" "w_cache (rc_setUser u w) = w_cache w"
  "w_now (rc_setUser u w) = w_now w" "w_fresh (rc_setUser u w) = w_fresh w"
  "w_faults (rc_setUser u w) = w_faults w" "w_queue (rc_setUser u w) = w_queue w"
  by (auto simp: rc_run_def rc_setUser_def rc_getUserId_def rc_getCorrelationId_def
      split: option.splits)

lemma rc_getUserId_setUser:
  "w_ctx w \<noteq> None \<Longrightarrow> rc_getUserId (rc_setUser u w) = Some u"
  by (auto simp: rc_setUser_def rc_getUserId_def)

lemma rc_getCorrelationId_setUser [simp]:
  "rc_getCorrelationId (rc_setUser u w) = rc_getCorrelationId w"
  by (auto simp: rc_setUser_def rc_getCorrelationId_def split: option.splits)

text \<open>One id travels to the request, to the response header and to the store.\<close>

lemma correlationId_use_agrees:
  assumes "correlationId_use E req w = (Inr (req', header), w')"
  shows "rq_id req' = Some header \<and> rq_correlationId req' = Some header \<and>
         rc_getCorrelationId w' = Some header"
  using assms
  by (auto simp: correlationId_use_def andThen_def genUuid_def split: if_splits)

section \<open>The login throttle's key\<close>

text \<open>
  \<open>String.prototype.toLowerCase\<close> on the characters of ASCII; the addresses compared are
  validated by \<open>IsEmail\<close>.
\<close>

definition lower_char :: "char \<Rightarrow> char" where
  "lower_char c = (if of_char c \<ge> (65::nat) \<and> of_char c \<le> (90::nat)
     then char_of (of_char c + (32::nat)) else c)"

definition toLowerCase :: "string \<Rightarrow> string" where
  "toLowerCase s = map lower_char s"

definition buildLoginThrottleKey :: "string option \<Rightarrow> string option \<Rightarrow> string" where
  "buildLoginThrottleKey ip email =
     ''login:'' @ (case ip of Some s \<Rightarrow> s | None \<Rightarrow> []) @ '':'' @
     toLowerCase (case email of Some s \<Rightarrow> s | None \<Rightarrow> [])"

lemma lower_char_idem [simp]: "lower_char (lower_char c) = lower_char c"
  by (simp add: lower_char_def)

lemma toLowerCase_idem: "toLowerCase (toLowerCase s) = toLowerCase s"
  by (simp add: toLowerCase_def)

lemma throttle_key_case_insensitive:
  "toLowerCase a = toLowerCase b \<Longrightarrow>
     buildLoginThrottleKey ip (Some a) = buildLoginThrottleKey ip (Some b)"
  by (simp add: buildLoginThrottleKey_def)

end
