(* ===== verification/Audit_Log.thy ===== *)
theory Audit_Log
  imports Request_Context
begin

text \<open>
  The audit module: \<open>AuditLogService\<close> (\<open>modules/audit/audit-log.service.ts\<close>) with its
  queue processor, and the \<open>AuditInterceptor\<close> that writes the entries of handlers marked
  \<open>@Auditable\<close>. An interface \<open>audit_sink\<close> states what the callers rely on.
\<close>

section \<open>AuditLogService\<close>

record audit_entry =
  ae_action :: string
  ae_entityType :: string
  ae_entityId :: "string option"
  ae_actorUserId :: "string js_opt"
  ae_correlationId :: "string option"
  ae_metadata :: "(string \<times> json) list option"
  ae_ip :: "string option"
  ae_userAgent :: "string option"

definition opt_or_null :: "'a option \<Rightarrow> 'a js_opt" where
  "opt_or_null x = (case x of Some v \<Rightarrow> Val v | None \<Rightarrow> Null)"

definition opt_or_undefined :: "'a option \<Rightarrow> 'a js_opt" where
  "opt_or_undefined x = (case x of Some v \<Rightarrow> Val v | None \<Rightarrow> Undefined)"

lemma nullish_opt [simp]:
  "nullish (opt_or_null x) = x" "nullish (opt_or_undefined x) = x"
  by (auto simp: opt_or_null_def opt_or_undefined_def split: option.splits)

definition buildPayload :: "audit_entry \<Rightarrow> world \<Rightarrow> audit_payload" where
  "buildPayload entry w =
     \<lparr>ap_action = ae_action entry,
      ap_entityType = ae_entityType entry,
      ap_entityId = ae_entityId entry,
      ap_actorUserId = (if ae_actorUserId entry = Undefined
                        then opt_or_undefined (rc_getUserId w) else ae_actorUserId entry),
      ap_correlationId = (case ae_correlationId entry of Some c \<Rightarrow> Val c
                          | None \<Rightarrow> opt_or_null (rc_getCorrelationId w)),
      ap_metadata = Val (case ae_metadata entry of Some m \<Rightarrow> m | None \<Rightarrow> []),
      ap_ip = opt_or_null (ae_ip entry),
      ap_userAgent = opt_or_null (ae_userAgent entry)\<rparr>"

text \<open>
  \<open>persistFromPayload\<close>: the row \<open>create\<close> builds, and its INSERT. The columns are the
  entity's: uuids for the entity, the actor (a user, by the foreign key) and the correlation
  id, \<open>varchar(45)\<close> and \<open>varchar(512)\<close> for the address and the agent; PostgreSQL refuses a
  row that does not fit, with the code given here.
\<close>

definition audit_row :: "uuid \<Rightarrow> time \<Rightarrow> audit_payload \<Rightarrow> audit_log" where
  "audit_row rowId now p =
     \<lparr>al_id = rowId,
      al_actorUserId = nullish (ap_actorUserId p),
      al_action = ap_action p,
      al_entityType = ap_entityType p,
      al_entityId = ap_entityId p,
      al_correlationId = nullish (ap_correlationId p),
      al_metadata = (case nullish (ap_metadata p) of Some m \<Rightarrow> m | None \<Rightarrow> []),
      al_ip = nullish (ap_ip p),
      al_userAgent = nullish (ap_userAgent p),
      al_createdAt = now\<rparr>"

definition uuid_column_ok :: "env \<Rightarrow> string option \<Rightarrow> bool" where
  "uuid_column_ok E x = (case x of None \<Rightarrow> True | Some s \<Rightarrow> e_pgUuid E s)"

definition audit_insert_error :: "env \<Rightarrow> world \<Rightarrow> audit_log \<Rightarrow> string option" where
  "audit_insert_error E w row =
     (if auditInsertFails (w_faults w) then Some ''08006''
      else if \<not> uuid_column_ok E (al_actorUserId row) \<or> \<not> uuid_column_ok E (al_entityId row)
              \<or> \<not> uuid_column_ok E (al_correlationId row) then Some ''22P02''
      else if \<not> varchar_ok 45 (al_ip row) \<or> \<not> varchar_ok 512 (al_userAgent row)
      then Some ''22001''
      else if (case al_actorUserId row of None \<Rightarrow> False
               | Some a \<Rightarrow> find_row (\<lambda>u. u_id u = a) (users w) = None)
      then Some ''23503'' else None)"

definition persistFromPayload :: "env \<Rightarrow> audit_payload \<Rightarrow> (world, unit) act" where
  "persistFromPayload E p = andThen (genUuid E) (\<lambda>rowId w.
     let row = audit_row rowId (w_now w) p in
     case audit_insert_error E w row of
       Some code \<Rightarrow> (Inl (QueryFailed code), w)
     | None \<Rightarrow> (Inr (), set_auditLogs (auditLogs w @ [row]) w))"

definition queue_add :: "audit_payload \<Rightarrow> audit_payload list \<Rightarrow> (world, unit) act" where
  "queue_add p jobs = (\<lambda>w. if auditQueueFails (w_faults w) then (Inl (CacheFailure ''audit-log''), w)
     else (Inr (), w\<lparr>w_queue := Some (jobs @ [p])\<rparr>))"

text \<open>\<open>log\<close>: to the queue when there is one, to the table otherwise; any failure is logged
  and swallowed.\<close>

definition auditLog :: "env \<Rightarrow> audit_entry \<Rightarrow> (world, unit) act" where
  "auditLog E entry = catching
     (\<lambda>w. let payload = buildPayload entry w in
        case w_queue w of
          Some jobs \<Rightarrow> queue_add payload jobs w
        | None \<Rightarrow> persistFromPayload E payload w)
     (\<lambda>e. ret ())"

text \<open>
  \<open>AuditLogProcessor.process\<close> on the oldest waiting job. A failing job is handed back to
  BullMQ, which runs it at most three times (\<open>attempts: 3\<close>); \<open>attempts_left\<close> counts them and
  a job that failed them all is dropped.
\<close>

fun run_job :: "env \<Rightarrow> nat \<Rightarrow> audit_payload \<Rightarrow> (world, unit) act" where
  "run_job E 0 p = ret ()"
| "run_job E (Suc attempts_left) p =
     catching (persistFromPayload E p) (\<lambda>e. run_job E attempts_left p)"

definition processNext :: "env \<Rightarrow> (world, unit) act" where
  "processNext E = (\<lambda>w. case w_queue w of
     Some (p # jobs) \<Rightarrow> run_job E 3 p (w\<lparr>w_queue := Some jobs\<rparr>)
   | _ \<Rightarrow> (Inr (), w))"

section \<open>The interface of the callers\<close>

text \<open>
  What a caller of \<open>log\<close> relies on: it never throws, and it changes nothing the caller
  reads later (\<open>view\<close>: the tables but for the audit rows, the cache, the clock); what was
  recorded stays recorded, in order.
\<close>

locale audit_sink =
  fixes log :: "'e \<Rightarrow> ('w, unit) act"
    and view :: "'w \<Rightarrow> 'v"
    and rows :: "'w \<Rightarrow> 'r list"
  assumes log_returns: "fst (log e w) = Inr ()"
    and log_view: "view (snd (log e w)) = view w"
    and log_rows: "\<exists>new. rows (snd (log e w)) = rows w @ new"
begin

text \<open>Going on after \<open>log\<close> is going on from a state that looks the same.\<close>

lemma then_continues: "andThen (log e) k w = k () (snd (log e w))"
proof -
  obtain r w' where "log e w = (r, w')" by fastforce
  with log_returns [of e w] show ?thesis by (simp add: andThen_def)
qed

text \<open>A sequence of entries, logged one after the other.\<close>

lemma log_all_view: "view (fold (\<lambda>e w. snd (log e w)) es w) = view w"
  by (induction es arbitrary: w) (simp_all add: log_view)

lemma log_all_append_only: "\<exists>new. rows (fold (\<lambda>e w. snd (log e w)) es w) = rows w @ new"
proof (induction es arbitrary: w)
  case (Cons e es)
  obtain a where a: "rows (snd (log e w)) = rows w @ a" using log_rows by blast
  obtain b where "rows (fold (\<lambda>e w. snd (log e w)) es (snd (log e w))) =
      rows (snd (log e w)) @ b"
    using Cons.IH by blast
  with a show ?case by auto
qed simp

end

definition audit_view :: "world \<Rightarrow> time \<times> faults \<times> database \<times> cache \<times> request_context option" where
  "audit_view w = (w_now w, w_faults w, (w_db w)\<lparr>db_auditLogs := []\<rparr>, w_cache w, w_ctx w)"

lemma audit_insert_error_fresh [simp]:
  "audit_insert_error E (w\<lparr>w_fresh := n\<rparr>) row = audit_insert_error E w row"
  by (cases "al_actorUserId row") (simp_all add: audit_insert_error_def)

lemma persist_cases:
  "persistFromPayload E p w =
     (let row = audit_row (e_uuid E (w_fresh w)) (w_now w) p;
          w' = w\<lparr>w_fresh := Suc (w_fresh w)\<rparr> in
      case audit_insert_error E w row of
        Some code \<Rightarrow> (Inl (QueryFailed code), w')
      | None \<Rightarrow> (Inr (), set_auditLogs (auditLogs w @ [row]) w'))"
  by (simp add: persistFromPayload_def andThen_def genUuid_def Let_def split: option.splits)

lemma auditLog_returns: "fst (auditLog E entry w) = Inr ()"
  by (auto simp: auditLog_def catching_def Let_def split: prod.splits sum.splits)

lemma auditLog_cases:
  obtains (direct) row where "w_queue w = None"
      and "auditLog E entry w = (Inr (), set_auditLogs (auditLogs w @ [row])
             (w\<lparr>w_fresh := Suc (w_fresh w)\<rparr>))"
  | (lost) "w_queue w = None"
      and "auditLog E entry w = (Inr (), w\<lparr>w_fresh := Suc (w_fresh w)\<rparr>)"
  | (queued) jobs where "w_queue w = Some jobs"
      and "auditLog E entry w = (Inr (), w\<lparr>w_queue := Some (jobs @ [buildPayload entry w])\<rparr>)"
  | (unqueued) jobs where "w_queue w = Some jobs" and "auditLog E entry w = (Inr (), w)"
proof (cases "w_queue w")
  case None
  then show ?thesis
    using direct lost
    by (cases "audit_insert_error E w
          (audit_row (e_uuid E (w_fresh w)) (w_now w) (buildPayload entry w))")
       (auto simp: auditLog_def catching_def Let_def persist_cases)
next
  case (Some jobs)
  then show ?thesis
    using queued unqueued
    by (cases "auditQueueFails (w_faults w)")
       (auto simp: auditLog_def catching_def Let_def queue_add_def)
qed

interpretation audit: audit_sink "auditLog E" audit_view auditLogs for E
proof
  fix e w
  show "fst (auditLog E e w) = Inr ()" by (rule auditLog_returns)
  show "audit_view (snd (auditLog E e w)) = audit_view w"
    by (cases rule: auditLog_cases [of w E e]) (simp_all add: audit_view_def set_auditLogs_def)
  show "\<exists>new. auditLogs (snd (auditLog E e w)) = auditLogs w @ new"
    by (cases rule: auditLog_cases [of w E e]) simp_all
qed

text \<open>The view, field by field, as the callers' proofs use it.\<close>

lemma auditLog_frame [simp]:
  "w_now (snd (auditLog E e w)) = w_now w"
  "w_faults (snd (auditLog E e w)) = w_faults w"
  "w_cache (snd (auditLog E e w)) = w_cache w"
  "w_ctx (snd (auditLog E e w)) = w_ctx w"
  "sessions (snd (auditLog E e w)) = sessions w"
  "users (snd (auditLog E e w)) = users w"
  by (cases rule: auditLog_cases [of w E e]; simp)+

lemma auditLog_fresh: "w_fresh w \<le> w_fresh (snd (auditLog E e w))"
  by (cases rule: auditLog_cases [of w E e]) simp_all

text \<open>
  An entry is logged: where there is a queue a job with it is the last one, unless the queue refused
  it; without a queue its row is the last one of the table, unless the INSERT failed.
\<close>

definition logged :: "env \<Rightarrow> audit_entry \<Rightarrow> world \<Rightarrow> world \<Rightarrow> bool" where
  "logged E e w w' \<longleftrightarrow> (case w_queue w of
     Some jobs \<Rightarrow> auditQueueFails (w_faults w) \<or> w_queue w' = Some (jobs @ [buildPayload e w])
   | None \<Rightarrow> let row = audit_row (e_uuid E (w_fresh w)) (w_now w) (buildPayload e w) in
       audit_insert_error E w row \<noteq> None \<or> auditLogs w' = auditLogs w @ [row])"

lemma auditLog_logged: "logged E e w (snd (auditLog E e w))"
  by (simp add: logged_def auditLog_def catching_def queue_add_def persist_cases Let_def
      split: option.split)

end
