(* ===== verification/Auth_Service.thy ===== *)
theory Auth_Service
  imports Users Audit_Log
begin

text \<open>
  \<open>AuthService\<close> (\<open>auth/auth.service.ts\<close>): login with lockout, refresh with rotation and
  reuse detection, logout, password change, registration, and the mass revocation it exports
  as \<open>SessionRevocationPort\<close>. Each handler is one definition with every branch of the code.
\<close>

section \<open>Constants and tokens\<close>

definition INVALID_CREDENTIALS_MESSAGE :: string where
  "INVALID_CREDENTIALS_MESSAGE = ''Invalid credentials''"

definition ACCESS_TOKEN_EXPIRES :: int where "ACCESS_TOKEN_EXPIRES = 15 * 60"

definition ACCESS_TOKEN_EXPIRES_MS :: int where "ACCESS_TOKEN_EXPIRES_MS = 15 * 60 * 1000"

definition REFRESH_TOKEN_EXPIRES :: int where "REFRESH_TOKEN_EXPIRES = 7 * 24 * 60 * 60"

definition REFRESH_TOKEN_DAYS :: int where "REFRESH_TOKEN_DAYS = 7"

definition hashRefreshToken :: "env \<Rightarrow> string \<Rightarrow> string" where
  "hashRefreshToken E token = e_sha256 E token"

record token_pair =
  tp_accessToken :: string
  tp_refreshToken :: string
  tp_accessJti :: uuid
  tp_refreshJti :: uuid
  tp_expiresAt :: time

definition token_payload :: "user \<Rightarrow> string \<Rightarrow> uuid \<Rightarrow> payload" where
  "token_payload u tokenType jti =
     \<lparr>jp_sub = u_id u, jp_email = u_email u, jp_roleId = u_roleId u,
      jp_tokenType = tokenType, jp_jti = Some jti\<rparr>"

definition buildTokenPair :: "env \<Rightarrow> user \<Rightarrow> (world, token_pair) act" where
  "buildTokenPair E u =
     andThen (genUuid E) (\<lambda>accessJti. andThen (genUuid E) (\<lambda>refreshJti w.
       (Inr \<lparr>tp_accessToken =
               e_sign E (token_payload u ''access'' accessJti) ACCESS_TOKEN_EXPIRES (w_now w),
             tp_refreshToken =
               e_sign E (token_payload u ''refresh'' refreshJti) REFRESH_TOKEN_EXPIRES (w_now w),
             tp_accessJti = accessJti, tp_refreshJti = refreshJti,
             tp_expiresAt = w_now w + REFRESH_TOKEN_DAYS * ms_per_day\<rparr>, w)))"

section \<open>Revocation\<close>

text \<open>
  \<open>denylistActiveAccessJtis\<close>: every write is started before any is awaited, so a failing one
  does not keep the others from happening, and the first failure is the one reported.
\<close>

definition active_jti_keys :: "uuid \<Rightarrow> session list \<Rightarrow> string list" where
  "active_jti_keys uid ss =
     map (\<lambda>s. jti_key (the (s_accessJti s)))
       (filter (\<lambda>s. truthy (s_accessJti s)) (active_sessions uid ss))"

definition denylistActiveAccessJtis :: "uuid \<Rightarrow> (world, unit) act" where
  "denylistActiveAccessJtis uid = (\<lambda>w.
     let keys = active_jti_keys uid (sessions w);
         fails = cacheSetFails (w_faults w);
         w' = w\<lparr>w_cache := fold (\<lambda>k. cache_put (w_now w) k (CNum 1) ACCESS_TOKEN_EXPIRES_MS)
                              (filter (\<lambda>k. \<not> fails k) keys) (w_cache w)\<rparr>
     in case find fails keys of
          Some k \<Rightarrow> (Inl (CacheFailure k), w')
        | None \<Rightarrow> (Inr (), w'))"

text \<open>The two UPDATEs on \<open>sessions\<close>; both report how many rows they changed.\<close>

definition revoke_where :: "(session \<Rightarrow> bool) \<Rightarrow> (world, nat) act" where
  "revoke_where P = (\<lambda>w.
     (Inr (affected P (sessions w)),
      set_sessions (update_where P (\<lambda>s. s\<lparr>s_revokedAt := Some (w_now w)\<rparr>) (sessions w)) w))"

definition revokeAllUserSessions :: "uuid \<Rightarrow> (world, nat) act" where
  "revokeAllUserSessions uid =
     andThen (catching (denylistActiveAccessJtis uid) (\<lambda>err. ret ()))
       (\<lambda>_. revoke_where (active_session uid))"

definition revokeSessionByRefreshHash :: "uuid \<Rightarrow> string \<Rightarrow> (world, nat) act" where
  "revokeSessionByRefreshHash uid refreshTokenHash =
     revoke_where (\<lambda>s. active_session uid s \<and> s_refreshTokenHash s = refreshTokenHash)"

section \<open>Login\<close>

record auth_result =
  ar_email :: string
  ar_access_token :: string
  ar_refresh_token :: string

text \<open>
  The INSERT of a session: \<open>ip\<close> and \<open>user_agent\<close> are \<open>varchar(45)\<close> and \<open>varchar(512)\<close>.
\<close>

definition insert_session :: "session \<Rightarrow> (world, unit) act" where
  "insert_session row = (\<lambda>w.
     if varchar_ok 45 (s_ip row) \<and> varchar_ok 512 (s_userAgent row)
     then (Inr (), set_sessions (sessions w @ [row]) w)
     else (Inl (QueryFailed ''22001''), w))"

definition new_session :: "env \<Rightarrow> user \<Rightarrow> token_pair \<Rightarrow> string option \<Rightarrow> string option \<Rightarrow>
    uuid option \<Rightarrow> uuid \<Rightarrow> time \<Rightarrow> session" where
  "new_session E u tp ip userAgent rotatedFrom sid now =
     \<lparr>s_id = sid, s_userId = u_id u,
      s_refreshTokenHash = hashRefreshToken E (tp_refreshToken tp),
      s_ip = ip, s_userAgent = userAgent, s_createdAt = now, s_expiresAt = tp_expiresAt tp,
      s_revokedAt = None, s_rotatedFromSessionId = rotatedFrom,
      s_jti = Some (tp_refreshJti tp), s_accessJti = Some (tp_accessJti tp),
      s_rotatedToSessionId = None\<rparr>"

definition save_new_session :: "env \<Rightarrow> user \<Rightarrow> token_pair \<Rightarrow> string option \<Rightarrow> string option \<Rightarrow>
    uuid option \<Rightarrow> (world, uuid) act" where
  "save_new_session E u tp ip userAgent rotatedFrom =
     andThen (genUuid E) (\<lambda>sid w.
       andThen (insert_session (new_session E u tp ip userAgent rotatedFrom sid (w_now w)))
         (\<lambda>_. ret sid) w)"

definition login_success_entry :: "user \<Rightarrow> string option \<Rightarrow> string option \<Rightarrow> audit_entry" where
  "login_success_entry u ip userAgent =
     \<lparr>ae_action = ''auth.login_success'', ae_entityType = ''User'', ae_entityId = Some (u_id u),
      ae_actorUserId = Val (u_id u), ae_correlationId = None, ae_metadata = Some [],
      ae_ip = ip, ae_userAgent = userAgent\<rparr>"

definition createTokensAndSession ::
  "env \<Rightarrow> user \<Rightarrow> string option \<Rightarrow> string option \<Rightarrow> (world, auth_result) act" where
  "createTokensAndSession E u ip userAgent =
     andThen (buildTokenPair E u) (\<lambda>tp.
     andThen (save_new_session E u tp ip userAgent None) (\<lambda>_.
     andThen (auditLog E (login_success_entry u ip userAgent)) (\<lambda>_.
     ret \<lparr>ar_email = u_email u, ar_access_token = tp_accessToken tp,
          ar_refresh_token = tp_refreshToken tp\<rparr>)))"

text \<open>\<open>compare\<close> of bcryptjs rejects when the stored hash is absent.\<close>

definition compare_password :: "env \<Rightarrow> string \<Rightarrow> string option \<Rightarrow> (world, bool) act" where
  "compare_password E pw stored = (case stored of
     None \<Rightarrow> throw (InternalServerError ''Illegal arguments: string, undefined'')
   | Some h \<Rightarrow> ret (e_bcryptCompare E pw h))"

definition account_locked_entry ::
  "user \<Rightarrow> nat \<Rightarrow> string option \<Rightarrow> string option \<Rightarrow> audit_entry" where
  "account_locked_entry u attempts ip userAgent =
     \<lparr>ae_action = ''auth.account.locked'', ae_entityType = ''User'', ae_entityId = Some (u_id u),
      ae_actorUserId = Null, ae_correlationId = None,
      ae_metadata = Some [(''email'', JStr (u_email u)), (''failedAttempts'', JNum (int attempts))],
      ae_ip = ip, ae_userAgent = userAgent\<rparr>"

definition locked_at :: "time \<Rightarrow> user \<Rightarrow> bool" where
  "locked_at now u = (case u_lockedUntil u of None \<Rightarrow> False | Some t \<Rightarrow> now < t)"

definition login ::
  "env \<Rightarrow> string \<Rightarrow> string \<Rightarrow> string option \<Rightarrow> string option \<Rightarrow> (world, auth_result) act" where
  "login E email password ip userAgent = (\<lambda>w.
     case users_findOneWithPassword email w of
       None \<Rightarrow> (Inl (Unauthorized INVALID_CREDENTIALS_MESSAGE), w)
     | Some u \<Rightarrow>
         if \<not> u_isActive u then (Inl (Unauthorized INVALID_CREDENTIALS_MESSAGE), w)
         else if locked_at (w_now w) u then (Inl (Unauthorized INVALID_CREDENTIALS_MESSAGE), w)
         else andThen (compare_password E password (u_password u)) (\<lambda>isValid.
           if \<not> isValid then
             andThen (users_recordFailedLogin (u_id u)) (\<lambda>(attempts, lockedUntil).
             andThen (if lockedUntil \<noteq> None
                      then auditLog E (account_locked_entry u attempts ip userAgent)
                      else ret ()) (\<lambda>_.
             throw (Unauthorized INVALID_CREDENTIALS_MESSAGE)))
           else
             andThen (users_resetFailedLogin (u_id u)) (\<lambda>_.
             createTokensAndSession E u ip userAgent)) w)"

section \<open>Refresh\<close>

text \<open>
  What the transaction of \<open>refresh\<close> returns. \<open>Reuse\<close> and \<open>Denied\<close> are returned, not
  thrown, so that the mass revocation is committed before the handler throws.
\<close>

datatype refresh_outcome =
    Reuse uuid uuid nat
  | Denied uuid uuid nat
  | Success string string string "audit_entry option"

definition truthy_mismatch :: "string option \<Rightarrow> string option \<Rightarrow> bool" where
  "truthy_mismatch a b \<longleftrightarrow> truthy a \<and> truthy b \<and> a \<noteq> b"

definition opt_json :: "string option \<Rightarrow> json" where
  "opt_json x = (case x of Some s \<Rightarrow> JStr s | None \<Rightarrow> JUndefined)"

definition null_json :: "string option \<Rightarrow> json" where
  "null_json x = (case x of Some s \<Rightarrow> JStr s | None \<Rightarrow> JNull)"

definition context_mismatch_audit ::
  "session \<Rightarrow> string option \<Rightarrow> string option \<Rightarrow> audit_entry option" where
  "context_mismatch_audit s ip userAgent =
     (if truthy_mismatch ip (s_ip s) \<or> truthy_mismatch userAgent (s_userAgent s)
      then Some \<lparr>ae_action = ''auth.session.context_mismatch'', ae_entityType = ''Session'',
        ae_entityId = Some (s_id s), ae_actorUserId = Val (s_userId s), ae_correlationId = None,
        ae_metadata = Some [(''sessionIp'', null_json (s_ip s)), (''requestIp'', opt_json ip),
          (''sessionUserAgent'', null_json (s_userAgent s)),
          (''requestUserAgent'', opt_json userAgent)],
        ae_ip = ip, ae_userAgent = userAgent\<rparr>
      else None)"

text \<open>
  The reads inside the transaction: the session by hash (its row is locked until the
  transaction ends, so two requests with one token run one after the other), and the user
  with its soft-deleted rows.
\<close>

definition find_session_by_hash :: "string \<Rightarrow> world \<Rightarrow> session option" where
  "find_session_by_hash h w = find_row (\<lambda>s. s_refreshTokenHash s = h) (sessions w)"

definition find_user_withDeleted :: "uuid \<Rightarrow> world \<Rightarrow> user option" where
  "find_user_withDeleted uid w =
     map_option without_password (find_row (\<lambda>u. u_id u = uid) (users w))"

definition user_may_refresh :: "time \<Rightarrow> user option \<Rightarrow> bool" where
  "user_may_refresh now user = (case user of
     None \<Rightarrow> False
   | Some u \<Rightarrow> u_deletedAt u = None \<and> u_isActive u \<and> \<not> locked_at now u)"

definition mark_rotated :: "uuid \<Rightarrow> uuid \<Rightarrow> (world, unit) act" where
  "mark_rotated sid newSid = modify (\<lambda>w. set_sessions
     (update_where (\<lambda>s. s_id s = sid)
        (\<lambda>s. s\<lparr>s_revokedAt := Some (w_now w), s_rotatedToSessionId := Some newSid\<rparr>) (sessions w)) w)"

definition rotate_session ::
  "env \<Rightarrow> session \<Rightarrow> user \<Rightarrow> string option \<Rightarrow> string option \<Rightarrow> (world, refresh_outcome) act" where
  "rotate_session E s u ip userAgent =
     andThen (buildTokenPair E u) (\<lambda>tp.
     andThen (save_new_session E u tp ip userAgent (Some (s_id s))) (\<lambda>newSid.
     andThen (mark_rotated (s_id s) newSid) (\<lambda>_.
     ret (Success (u_email u) (tp_accessToken tp) (tp_refreshToken tp)
            (context_mismatch_audit s ip userAgent)))))"

definition refresh_tx ::
  "env \<Rightarrow> string \<Rightarrow> string option \<Rightarrow> string option \<Rightarrow> (world, refresh_outcome) act" where
  "refresh_tx E tokenHash ip userAgent = (\<lambda>w.
     case find_session_by_hash tokenHash w of
       None \<Rightarrow> (Inl (Unauthorized ''Invalid refresh token''), w)
     | Some s \<Rightarrow>
         if s_revokedAt s \<noteq> None then
           if truthy (s_rotatedToSessionId s)
           then (Inl (Unauthorized ''Refresh token already rotated''), w)
           else andThen (revokeAllUserSessions (s_userId s))
                  (\<lambda>revokedCount. ret (Reuse (s_id s) (s_userId s) revokedCount)) w
         else if s_expiresAt s < w_now w then (Inl (Unauthorized ''Refresh token expired''), w)
         else if \<not> user_may_refresh (w_now w) (find_user_withDeleted (s_userId s) w) then
           andThen (revokeAllUserSessions (s_userId s))
             (\<lambda>revokedCount. ret (Denied (s_userId s) (s_id s) revokedCount)) w
         else rotate_session E s (the (find_user_withDeleted (s_userId s) w)) ip userAgent w)"

definition reuse_entry :: "uuid \<Rightarrow> nat \<Rightarrow> string option \<Rightarrow> string option \<Rightarrow> audit_entry" where
  "reuse_entry sid n ip userAgent =
     \<lparr>ae_action = ''auth.refresh_token_reuse_detected'', ae_entityType = ''Session'',
      ae_entityId = Some sid, ae_actorUserId = Null, ae_correlationId = None,
      ae_metadata = Some [(''reusedSessionId'', JStr sid), (''suspectedReuse'', JBool True),
        (''revokedSessionCount'', JNum (int n))],
      ae_ip = ip, ae_userAgent = userAgent\<rparr>"

definition denied_entry :: "uuid \<Rightarrow> uuid \<Rightarrow> nat \<Rightarrow> string option \<Rightarrow> string option \<Rightarrow> audit_entry" where
  "denied_entry uid sid n ip userAgent =
     \<lparr>ae_action = ''auth.refresh_denied_invalid_user'', ae_entityType = ''Session'',
      ae_entityId = Some sid, ae_actorUserId = Null, ae_correlationId = None,
      ae_metadata = Some [(''sessionId'', JStr sid), (''userId'', JStr uid),
        (''revokedSessionCount'', JNum (int n))],
      ae_ip = ip, ae_userAgent = userAgent\<rparr>"

definition refresh_finish ::
  "env \<Rightarrow> string option \<Rightarrow> string option \<Rightarrow> refresh_outcome \<Rightarrow> (world, auth_result) act" where
  "refresh_finish E ip userAgent txResult = (case txResult of
     Reuse sid uid n \<Rightarrow>
       andThen (auditLog E (reuse_entry sid n ip userAgent)) (\<lambda>_.
       throw (Unauthorized ''Refresh token reuse detected. All sessions have been revoked.''))
   | Denied uid sid n \<Rightarrow>
       andThen (auditLog E (denied_entry uid sid n ip userAgent)) (\<lambda>_.
       throw (Unauthorized INVALID_CREDENTIALS_MESSAGE))
   | Success email accessToken refreshToken mismatch \<Rightarrow>
       andThen (case mismatch of None \<Rightarrow> ret () | Some entry \<Rightarrow> auditLog E entry) (\<lambda>_.
       ret \<lparr>ar_email = email, ar_access_token = accessToken, ar_refresh_token = refreshToken\<rparr>))"

definition refresh ::
  "env \<Rightarrow> string \<Rightarrow> string option \<Rightarrow> string option \<Rightarrow> (world, auth_result) act" where
  "refresh E refresh_token ip userAgent = (\<lambda>w.
     case e_verify E refresh_token (w_now w) of
       None \<Rightarrow> (Inl (Unauthorized ''Invalid or expired refresh token''), w)
     | Some p \<Rightarrow>
         if jp_tokenType p \<noteq> ''refresh'' then (Inl (Unauthorized ''Not a refresh token''), w)
         else andThen (transaction (refresh_tx E (hashRefreshToken E refresh_token) ip userAgent))
                (refresh_finish E ip userAgent) w)"

section \<open>Registration, password change, logout, listing\<close>

record register_dto =
  rg_email :: string
  rg_name :: string
  rg_password :: string
  rg_roleId :: "uuid option"

text \<open>\<open>hash\<close> of bcryptjs with a cost draws a new salt.\<close>

definition hash_password :: "env \<Rightarrow> string \<Rightarrow> nat \<Rightarrow> (world, string) act" where
  "hash_password E pw cost =
     (\<lambda>w. (Inr (e_bcryptHash E pw cost (w_fresh w)), w\<lparr>w_fresh := Suc (w_fresh w)\<rparr>))"

definition register :: "env \<Rightarrow> register_dto \<Rightarrow> (world, string \<times> uuid) act" where
  "register E dto = (\<lambda>w.
     if users_findOne (rg_email dto) w \<noteq> None
     then (Inl (Conflict ''User already exists''), w)
     else
       andThen (if truthy (rg_roleId dto) then ret (the (rg_roleId dto))
                else (case find_row (\<lambda>r. r_name r = ''Viewer'') (db_roles (w_db w)) of
                        None \<Rightarrow> throw (InternalServerError (''Default role '' @ quoted ''Viewer'' @ '' not found''))
                      | Some r \<Rightarrow> ret (r_id r)))
         (\<lambda>roleId. andThen (hash_password E (rg_password dto) 12) (\<lambda>hashedPassword. andThen
            (users_create E \<lparr>cu_email = rg_email dto, cu_name = rg_name dto,
               cu_password = hashedPassword, cu_roleId = Some roleId\<rparr>)
            (\<lambda>u. ret (''User created with success'', u_id u)))) w)"

definition changePassword :: "env \<Rightarrow> uuid \<Rightarrow> string \<Rightarrow> string \<Rightarrow> (world, uuid) act" where
  "changePassword E uid currentPassword newPassword = (\<lambda>w.
     case users_findByIdWithPassword uid w of
       None \<Rightarrow> (Inl (Unauthorized ''User not found''), w)
     | Some u \<Rightarrow>
         andThen (compare_password E currentPassword (u_password u)) (\<lambda>isCurrentValid.
           if \<not> isCurrentValid then throw (Unauthorized ''Current password is incorrect'')
           else
             andThen (hash_password E newPassword 12) (\<lambda>hashedPassword.
             andThen (users_updatePassword uid hashedPassword) (\<lambda>_.
             andThen (revokeAllUserSessions uid) (\<lambda>_. ret uid)))) w)"

definition denylist_own_token :: "uuid option \<Rightarrow> (world, unit) act" where
  "denylist_own_token accessJti =
     (if truthy accessJti
      then cacheSet (jti_key (the accessJti)) (CNum 1) ACCESS_TOKEN_EXPIRES_MS else ret ())"

definition logout :: "env \<Rightarrow> uuid \<Rightarrow> uuid option \<Rightarrow> string option \<Rightarrow> (world, unit) act" where
  "logout E uid accessJti refreshToken =
     andThen (denylist_own_token accessJti) (\<lambda>_.
       if truthy refreshToken
       then andThen (revokeSessionByRefreshHash uid (hashRefreshToken E (the refreshToken)))
              (\<lambda>_. ret ())
       else ret ())"

definition logoutAll :: "uuid \<Rightarrow> uuid option \<Rightarrow> (world, unit) act" where
  "logoutAll uid accessJti =
     andThen (denylist_own_token accessJti) (\<lambda>_.
     andThen (revokeAllUserSessions uid) (\<lambda>_. ret ()))"

record session_response =
  sr_id :: uuid
  sr_ip :: "string option"
  sr_userAgent :: "string option"
  sr_createdAt :: time
  sr_expiresAt :: time

definition session_to_response :: "session \<Rightarrow> session_response" where
  "session_to_response s =
     \<lparr>sr_id = s_id s, sr_ip = s_ip s, sr_userAgent = s_userAgent s,
      sr_createdAt = s_createdAt s, sr_expiresAt = s_expiresAt s\<rparr>"

definition listSessions :: "uuid \<Rightarrow> world \<Rightarrow> session_response list" where
  "listSessions uid w = map session_to_response
     (sort_key (\<lambda>s. - s_createdAt s)
        (filter (\<lambda>s. active_session uid s \<and> w_now w < s_expiresAt s) (sessions w)))"

end
