(* ===== verification/Session_Port.thy ===== *)
theory Session_Port
  imports World
begin

text \<open>
  \<open>SessionRevocationPort\<close> (\<open>common/ports/session-revocation.port.ts\<close>), the interface through
  which \<open>UserAdminService\<close> reaches the session component: its operation and the laws its
  clients count on.
\<close>

locale session_revocation =
  fixes revoke :: "uuid \<Rightarrow> ('w, nat) act"
    and active :: "uuid \<Rightarrow> 'w \<Rightarrow> 's list"
  assumes revoke_returns: "fst (revoke u w) = Inr (length (active u w))"
    and revoke_active: "active u (snd (revoke u w)) = []"
    and revoke_other: "v \<noteq> u \<Longrightarrow> active v (snd (revoke u w)) = active v w"
begin

text \<open>The clients' code after a revocation always runs, with the number of sessions ended.\<close>

lemma andThen_revoke: "andThen (revoke u) k w = k (length (active u w)) (snd (revoke u w))"
proof -
  obtain r w' where "revoke u w = (r, w')" by fastforce
  with revoke_returns [of u w] show ?thesis by (simp add: andThen_def)
qed

lemma revoke_again: "fst (revoke u (snd (revoke u w))) = Inr 0"
  by (simp add: revoke_returns revoke_active)

text \<open>Ending the sessions of several users, in any order, leaves none of them a session.\<close>

lemma revoke_many:
  "active v (fold (\<lambda>u w. snd (revoke u w)) us w) = (if v \<in> set us then [] else active v w)"
proof (induction us arbitrary: w)
  case (Cons u us)
  then show ?case
    by (cases "v = u") (simp_all add: revoke_active revoke_other)
qed simp

end

end
