(* ===== verification/Auth_Revocation.thy ===== *)
theory Auth_Revocation
  imports Auth_Service Session_Port
begin

text \<open>
  What a mass revocation does: the sessions it ends, the access tokens it denies, and that
  \<open>revokeAllUserSessions\<close> provides \<open>SessionRevocationPort\<close>.
\<close>

section \<open>The denylist writes\<close>

definition denylist_cache :: "uuid \<Rightarrow> world \<Rightarrow> cache" where
  "denylist_cache uid w =
     fold (\<lambda>k. cache_put (w_now w) k (CNum 1) ACCESS_TOKEN_EXPIRES_MS)
       (filter (\<lambda>k. \<not> cacheSetFails (w_faults w) k) (active_jti_keys uid (sessions w))) (w_cache w)"

lemma denylist_world: "snd (denylistActiveAccessJtis uid w) = w\<lparr>w_cache := denylist_cache uid w\<rparr>"
  by (simp add: denylistActiveAccessJtis_def denylist_cache_def Let_def split: option.splits)

lemma revokeAll_eq:
  "revokeAllUserSessions uid w =
     (Inr (affected (active_session uid) (sessions w)),
      set_sessions (update_where (active_session uid) (\<lambda>s. s\<lparr>s_revokedAt := Some (w_now w)\<rparr>)
        (sessions w)) (w\<lparr>w_cache := denylist_cache uid w\<rparr>))"
proof -
  obtain r w1 where d: "denylistActiveAccessJtis uid w = (r, w1)" by fastforce
  then have "w1 = w\<lparr>w_cache := denylist_cache uid w\<rparr>" using denylist_world [of uid w] by simp
  with d show ?thesis
    by (cases r) (simp_all add: revokeAllUserSessions_def andThen_def catching_def revoke_where_def)
qed

lemma revokeAll_frame [simp]:
  "users (snd (revokeAllUserSessions uid w)) = users w"
  "auditLogs (snd (revokeAllUserSessions uid w)) = auditLogs w"
  "w_now (snd (revokeAllUserSessions uid w)) = w_now w"
  "w_fresh (snd (revokeAllUserSessions uid w)) = w_fresh w"
  "w_faults (snd (revokeAllUserSessions uid w)) = w_faults w"
  by (simp_all add: revokeAll_eq)

lemma active_jti_key_in:
  assumes "s \<in> set (sessions w)" "active_session uid s" "s_accessJti s = Some j" "j \<noteq> []"
  shows "jti_key j \<in> set (active_jti_keys uid (sessions w))"
  using assms by (force simp: active_jti_keys_def active_sessions_def)

text \<open>
  The key of every active session whose write does not fail is present for the lifetime of an
  access token; keys of other kinds read as before.
\<close>

lemma denylist_denies:
  assumes "s \<in> set (sessions w)" "active_session uid s" "s_accessJti s = Some j" "j \<noteq> []"
    and "\<not> cacheSetFails (w_faults w) (jti_key j)" and "t \<le> w_now w + ACCESS_TOKEN_EXPIRES_MS"
  shows "cache_get t (jti_key j) (denylist_cache uid w) = Some (CNum 1)"
  using active_jti_key_in [OF assms(1-4)] assms(5,6)
  unfolding denylist_cache_def by (intro cache_manager.put_all_live) auto

lemma denylist_keeps_user_keys:
  "cache_get t (user_key u) (denylist_cache uid w) = cache_get t (user_key u) (w_cache w)"
  unfolding denylist_cache_def
  by (rule cache_manager.put_all_other) (auto simp: active_jti_keys_def)

section \<open>The port\<close>

lemma active_after_revoke:
  "active_sessions v (update_where (active_session u) (\<lambda>s. s\<lparr>s_revokedAt := Some t\<rparr>) ss) =
     (if v = u then [] else active_sessions v ss)"
  by (induction ss) (auto simp: active_sessions_def active_session_def row_simps)

interpretation port: session_revocation revokeAllUserSessions "\<lambda>u w. active_sessions u (sessions w)"
  by unfold_locales
     (simp_all add: revokeAll_eq active_after_revoke affected_def flip: active_sessions_def)

end
