(* ===== verification/User_Admin.thy ===== *)
theory User_Admin
  imports Auth_Revocation
begin

text \<open>
  \<open>UserAdminService\<close> (\<open>modules/rbac/services/user-admin.service.ts\<close>), a client of
  \<open>UsersService\<close> and of \<open>SessionRevocationPort\<close>.
\<close>

definition setUserActive :: "uuid \<Rightarrow> bool \<Rightarrow> (world, uuid \<times> bool) act" where
  "setUserActive uid isActive = (\<lambda>w.
     if users_findById uid w = None then (Inl (NotFound ''User not found''), w)
     else andThen (users_setActive uid isActive) (\<lambda>n.
       if n = 0 then throw (NotFound ''User not found'')
       else if \<not> isActive then andThen (revokeAllUserSessions uid) (\<lambda>_. ret (uid, isActive))
       else ret (uid, isActive)) w)"

lemma setActive_cases:
  "users_setActive uid b w =
     (if cacheDelFails (w_faults w) (user_key uid)
      then (Inl (CacheFailure (user_key uid)), update_user uid (\<lambda>u. u\<lparr>u_isActive := b\<rparr>) w)
      else (Inr (affected (\<lambda>u. u_id u = uid) (users w)),
            (update_user uid (\<lambda>u. u\<lparr>u_isActive := b\<rparr>) w)\<lparr>w_cache := cache_del (user_key uid) (w_cache w)\<rparr>))"
  by (simp add: users_setActive_def andThen_def invalidateUserCache_def cacheDel_def)

lemma found_affected:
  "users_findById uid w \<noteq> None \<Longrightarrow> affected (\<lambda>u. u_id u = uid) (users w) \<noteq> 0"
  by (auto simp: findById_eq affected_0 dest!: findByIdWithPassword_id)

text \<open>The whole operation on a user that exists, when the cache answers.\<close>

definition activated :: "uuid \<Rightarrow> bool \<Rightarrow> world \<Rightarrow> world" where
  "activated uid b w =
     (update_user uid (\<lambda>u. u\<lparr>u_isActive := b\<rparr>) w)\<lparr>w_cache := cache_del (user_key uid) (w_cache w)\<rparr>"

lemma setUserActive_eq:
  assumes "users_findById uid w \<noteq> None" and "\<not> cacheDelFails (w_faults w) (user_key uid)"
  shows "setUserActive uid b w =
    (Inr (uid, b), if b then activated uid b w else snd (revokeAllUserSessions uid (activated uid b w)))"
proof -
  have "andThen (users_setActive uid b) k w =
      k (affected (\<lambda>u. u_id u = uid) (users w)) (activated uid b w)" for k :: "nat \<Rightarrow> (world, uuid \<times> bool) act"
    using assms(2) by (simp add: andThen_def setActive_cases activated_def)
  with assms(1) found_affected [OF assms(1)] show ?thesis
    by (simp add: setUserActive_def port.andThen_revoke)
qed

end
