(* ===== verification/Jwt_Strategy.thy ===== *)
theory Jwt_Strategy
  imports Auth_Service
begin

text \<open>
  Authentication of a request: \<open>JwtStrategy.validate\<close> (\<open>auth/strategy/jwt.strategy.ts\<close>) and
  \<open>JwtAuthGuard\<close> (\<open>auth/strategy/jwt-auth.guard.ts\<close>).
\<close>

definition USER_CACHE_TTL_MS :: int where "USER_CACHE_TTL_MS = 30000"

text \<open>Truthiness of what the denylist holds.\<close>

fun truthy_cached :: "cache_value option \<Rightarrow> bool" where
  "truthy_cached None = False"
| "truthy_cached (Some (CNum n)) = (n \<noteq> 0)"
| "truthy_cached (Some _) = True"

fun cached_user :: "cache_value option \<Rightarrow> user option" where
  "cached_user (Some (CUser u)) = Some u"
| "cached_user _ = None"

definition check_denylist :: "uuid option \<Rightarrow> (world, unit) act" where
  "check_denylist jti =
     (if truthy jti then
        andThen (cacheGet (jti_key (the jti))) (\<lambda>denied.
          if truthy_cached denied then throw (Unauthorized ''Token has been revoked'') else ret ())
      else ret ())"

text \<open>The user object of the token's subject: from the cache, or read and cached for 30 s.\<close>

definition load_user :: "uuid \<Rightarrow> (world, user) act" where
  "load_user uid =
     andThen (cacheGet (user_key uid)) (\<lambda>cached.
       case cached_user cached of
         Some u \<Rightarrow> ret u
       | None \<Rightarrow> (\<lambda>w. case users_findById uid w of
             None \<Rightarrow> (Inl (Unauthorized ''Invalid token''), w)
           | Some u \<Rightarrow> andThen (cacheSet (user_key uid) (CUser u) USER_CACHE_TTL_MS)
                         (\<lambda>_. ret u) w))"

definition validate :: "payload \<Rightarrow> (world, user \<times> uuid option) act" where
  "validate p =
     (if jp_tokenType p \<noteq> ''access'' then throw (Unauthorized ''Wrong token type'')
      else andThen (check_denylist (jp_jti p)) (\<lambda>_.
           andThen (load_user (jp_sub p)) (\<lambda>u.
             if \<not> u_isActive u then throw (Unauthorized ''User account is deactivated'')
             else andThen (modify (rc_setUser (u_id u))) (\<lambda>_ w.
               if locked_at (w_now w) u
               then (Inl (Unauthorized ''Account is locked. Try again later.''), w)
               else (Inr (u, jp_jti p), w)))))"

text \<open>
  \<open>handleRequest\<close>: what passport passes on is an error, no user, or the validated user.
\<close>

definition handleRequest ::
  "http_error option \<Rightarrow> (user \<times> uuid option) option \<Rightarrow> (world, user \<times> uuid option) act" where
  "handleRequest err user = (\<lambda>w. case err of
     Some e \<Rightarrow> (Inl e, w)
   | None \<Rightarrow> (case user of
       None \<Rightarrow> (Inl (Unauthorized ''Authentication token required''), w)
     | Some (u, jti) \<Rightarrow>
         if \<not> u_isActive u then (Inl (Unauthorized ''User account is deactivated''), w)
         else if locked_at (w_now w) u
         then (Inl (Unauthorized ''Account is locked. Try again later.''), w)
         else (Inr (u, jti), w)))"

text \<open>
  \<open>canActivate\<close> around passport-jwt: a public route passes with no user; elsewhere the bearer
  token, if there is one and it verifies, goes to \<open>validate\<close>, whose throw becomes the error.
\<close>

definition canActivate :: "env \<Rightarrow> bool \<Rightarrow> string option \<Rightarrow> (world, (user \<times> uuid option) option) act" where
  "canActivate E isPublic bearer = (\<lambda>w.
     if isPublic then (Inr None, w)
     else case (case bearer of None \<Rightarrow> None | Some tok \<Rightarrow> e_verify E tok (w_now w)) of
       None \<Rightarrow> andThen (handleRequest None None) (\<lambda>u. ret (Some u)) w
     | Some p \<Rightarrow> (case validate p w of
         (Inl e, w') \<Rightarrow> andThen (handleRequest (Some e) None) (\<lambda>u. ret (Some u)) w'
       | (Inr u, w') \<Rightarrow> andThen (handleRequest None (Some u)) (\<lambda>u. ret (Some u)) w'))"

section \<open>Lemmas\<close>

text \<open>
  The user objects in the cache, under their keys; the sound ones carry no password and sit
  under the key of their own id.
\<close>

definition cached_users :: "cache \<Rightarrow> (string \<times> user) set" where
  "cached_users c = {(k, u). \<exists>e. c k = Some (CUser u, e)}"

definition sound_entries :: "(string \<times> user) set" where
  "sound_entries = {(k, u). u_password u = None \<and> k = user_key (u_id u)}"

definition user_cache_ok :: "world \<Rightarrow> bool" where
  "user_cache_ok w \<longleftrightarrow> cached_users (w_cache w) \<subseteq> sound_entries"

lemma cached_users_put_del:
  "cached_users (cache_put t k (CNum n) ttl c) \<subseteq> cached_users c"
  "cached_users (cache_put t k (CUser u) ttl c) \<subseteq> insert (k, u) (cached_users c)"
  "cached_users (cache_del k c) \<subseteq> cached_users c"
  by (auto simp: cached_users_def cache_put_def cache_del_def split: if_splits)

lemma cached_users_del [simp]: "cached_users (cache_del k c) \<subseteq> cached_users c \<union> X"
  using cached_users_put_del(3) by fastforce

lemma cached_user_sound:
  assumes "user_cache_ok w" and "cached_user (cache_get t (user_key uid) (w_cache w)) = Some u"
  shows "u_password u = None \<and> u_id u = uid"
proof -
  have "(user_key uid, u) \<in> cached_users (w_cache w)"
    using assms(2) by (auto simp: cached_users_def cache_get_def split: option.splits prod.splits if_splits
        cache_value.splits elim!: cached_user.elims)
  with assms(1) show ?thesis by (auto simp: user_cache_ok_def sound_entries_def)
qed

lemma check_denylist_state: "snd (check_denylist jti w) = w"
  by (auto simp: check_denylist_def andThen_def cacheGet_def split: prod.splits sum.splits)

lemma check_denylist_ok:
  assumes "check_denylist jti w = (Inr x, w')"
  shows "w' = w \<and> (truthy jti \<longrightarrow> \<not> truthy_cached (cache_get (w_now w) (jti_key (the jti)) (w_cache w)))"
  using assms by (auto simp: check_denylist_def andThen_def cacheGet_def split: if_splits)

lemma findById_id: "users_findById uid w = Some u \<Longrightarrow> u_id u = uid"
  by (auto simp: findById_eq dest: findByIdWithPassword_id)

lemma load_user_sound:
  assumes "user_cache_ok w" and "load_user uid w = (Inr u, w')"
  shows "u_password u = None \<and> u_id u = uid"
  using assms
  by (auto simp: load_user_def andThen_def cacheGet_def cacheSet_def
      dest: cached_user_sound findById_no_password findById_id split: if_splits option.splits)

lemma validateE:
  assumes "validate p w = (Inr (u, j), w')"
  obtains w1 where "check_denylist (jp_jti p) w = (Inr (), w)" and "load_user (jp_sub p) w = (Inr u, w1)"
    and "jp_tokenType p = ''access''" and "u_isActive u" and "\<not> locked_at (w_now w1) u"
    and "j = jp_jti p" and "w' = rc_setUser (u_id u) w1"
proof -
  obtain r w0 where c: "check_denylist (jp_jti p) w = (r, w0)" by fastforce
  obtain r1 w1 where l: "load_user (jp_sub p) w = (r1, w1)" by fastforce
  have "w0 = w" using check_denylist_state [of "jp_jti p" w] c by simp
  with assms c l that show ?thesis
    by (cases r; cases r1) (auto simp: validate_def andThen_def split: if_splits)
qed

lemma load_user_now: "w_now (snd (load_user uid w)) = w_now w"
  by (auto simp: load_user_def andThen_def cacheGet_def cacheSet_def split: option.splits)

lemma validated_user:
  assumes "validate p w = (Inr (u, j), w')"
  shows "w_now w' = w_now w \<and> u_isActive u \<and> \<not> locked_at (w_now w) u"
  using assms
proof (rule validateE)
  fix w1 assume l: "load_user (jp_sub p) w = (Inr u, w1)"
    and "u_isActive u" "\<not> locked_at (w_now w1) u" "w' = rc_setUser (u_id u) w1"
  moreover have "w_now w1 = w_now w" using load_user_now [of "jp_sub p" w] l by simp
  ultimately show ?thesis by simp
qed

text \<open>After \<open>validate\<close> accepted a user, \<open>handleRequest\<close> accepts it too.\<close>

lemma handleRequest_after_validate:
  assumes "validate p w = (Inr (u, j), w')"
  shows "handleRequest None (Some (u, j)) w' = (Inr (u, j), w')"
  using validated_user [OF assms] by (simp add: handleRequest_def)

lemma canActivate_private:
  "canActivate E False (Some tok) w = (case e_verify E tok (w_now w) of
      None \<Rightarrow> (Inl (Unauthorized ''Authentication token required''), w)
    | Some p \<Rightarrow> (case validate p w of
        (Inl e, w') \<Rightarrow> (Inl e, w')
      | (Inr u, w') \<Rightarrow> (Inr (Some u), w')))"
proof (cases "e_verify E tok (w_now w)")
  case None
  then show ?thesis by (simp add: canActivate_def andThen_def handleRequest_def)
next
  case (Some p)
  obtain r w' where v: "validate p w = (r, w')" by fastforce
  show ?thesis
  proof (cases r)
    case (Inl e)
    with Some v show ?thesis by (simp add: canActivate_def andThen_def handleRequest_def)
  next
    case (Inr uj)
    obtain u j where "uj = (u, j)" by fastforce
    with Some v Inr handleRequest_after_validate [of p w u j w'] show ?thesis
      by (simp add: canActivate_def andThen_def)
  qed
qed

end
