(* ===== verification/Purge.thy ===== *)
theory Purge
  imports World
begin

text \<open>
  \<open>PurgeService\<close> (\<open>modules/maintenance/purge.service.ts\<close>): the two scheduled jobs delete in
  batches until a batch comes back short. The loop is stated over any batched DELETE, an
  interface that both jobs provide.
\<close>

section \<open>The loop\<close>

text \<open>
  \<open>deleteInBatches\<close>, with the DELETE as an argument as in the code. The code has no bound on
  the number of rounds, so the result is an \<open>option\<close>: \<open>None\<close> is a loop that never ends.
\<close>

partial_function (option) deleteInBatches ::
  "('w, nat) act \<Rightarrow> nat \<Rightarrow> nat \<Rightarrow> 'w \<Rightarrow> ((http_error + nat) \<times> 'w) option" where
  "deleteInBatches execute batchSize totalDeleted w =
     (case execute w of
        (Inl e, w') \<Rightarrow> Some (Inl e, w')
      | (Inr n, w') \<Rightarrow>
          if n < batchSize then Some (Inr (totalDeleted + n), w')
          else deleteInBatches execute batchSize (totalDeleted + n) w')"

text \<open>With batches of no rows the loop never ends, unless a DELETE fails.\<close>

lemma deleteInBatches_0:
  assumes "\<And>w. \<exists>n w'. execute w = (Inr n, w')"
  shows "deleteInBatches execute 0 t w = None"
proof (cases "deleteInBatches execute 0 t w")
  case (Some p)
  have "(\<forall>w. \<exists>n w'. execute w = (Inr n, w')) \<longrightarrow> (0::nat) \<noteq> 0"
  proof (rule deleteInBatches.raw_induct [where P = "\<lambda>execute b t w p.
          (\<forall>w. \<exists>n w'. execute w = (Inr n, w')) \<longrightarrow> b \<noteq> 0", OF _ Some])
    fix loop and execute :: "('w, nat) act" and b t w p
    assume IH: "\<And>execute b t w p. loop execute b t w = Some p \<Longrightarrow>
        (\<forall>w. \<exists>n w'. execute w = (Inr n, w')) \<longrightarrow> b \<noteq> (0::nat)"
      and ret: "(case execute w of (Inl e, w') \<Rightarrow> Some (Inl e, w')
        | (Inr n, w') \<Rightarrow> if n < b then Some (Inr (t + n), w') else loop execute b (t + n) w') = Some p"
    show "(\<forall>w. \<exists>n w'. execute w = (Inr n, w')) \<longrightarrow> b \<noteq> 0"
    proof
      assume succeeds: "\<forall>w. \<exists>n w'. execute w = (Inr n, w')"
      then obtain n w' where "execute w = (Inr n, w')" by blast
      with ret have "n < b \<or> loop execute b (t + n) w' = Some p" by (auto split: if_splits)
      with IH [of execute b "t + n" w' p] succeeds show "b \<noteq> 0" by auto
    qed
  qed
  with assms show ?thesis by blast
qed simp

section \<open>The interface\<close>

text \<open>
  A DELETE of at most \<open>batchSize\<close> of the rows \<open>matching\<close>: it reports how many it removed,
  as many as there are up to the limit, and leaves everything else (\<open>kept\<close>) alone. \<open>invar\<close>
  is what the database guarantees (distinct primary keys).
\<close>

locale batched_delete =
  fixes execute :: "('w, nat) act"
    and matching :: "'w \<Rightarrow> 'r list"
    and kept :: "'w \<Rightarrow> 'v"
    and invar :: "'w \<Rightarrow> bool"
    and batchSize :: nat
  assumes batch_pos: "0 < batchSize"
    and removes: "invar w \<Longrightarrow> execute w = (Inr n, w') \<Longrightarrow>
      n = min batchSize (length (matching w)) \<and> length (matching w') = length (matching w) - n"
    and keeps: "invar w \<Longrightarrow> execute w = (r, w') \<Longrightarrow> kept w' = kept w \<and> invar w'"
begin

text \<open>The loop ends, whatever fails, and takes what is not matched through unchanged.\<close>

lemma loop_ends:
  assumes "invar w"
  shows "\<exists>r w'. deleteInBatches execute batchSize t w = Some (r, w') \<and> kept w' = kept w \<and> invar w'"
  using assms
proof (induction "length (matching w)" arbitrary: w t rule: less_induct)
  case less
  obtain r w' where ex: "execute w = (r, w')" by fastforce
  with less.prems have k: "kept w' = kept w" "invar w'" using keeps by blast+
  show ?case
  proof (cases r)
    case (Inl e)
    with ex k show ?thesis by (subst deleteInBatches.simps) simp
  next
    case (Inr n)
    with ex less.prems have n: "n = min batchSize (length (matching w))"
      "length (matching w') = length (matching w) - n" using removes by blast+
    show ?thesis
    proof (cases "n < batchSize")
      case True
      with ex Inr k show ?thesis by (subst deleteInBatches.simps) simp
    next
      case False
      with n batch_pos have "length (matching w') < length (matching w)" by simp
      from less.hyps [OF this k(2), of "t + n"] ex Inr k False show ?thesis
        by (subst deleteInBatches.simps) simp
    qed
  qed
qed

text \<open>When no DELETE failed, every matching row is gone and the total counts them.\<close>

lemma loop_deletes_all:
  assumes "invar w" and "deleteInBatches execute batchSize t w = Some (Inr m, w')"
  shows "m = t + length (matching w) \<and> matching w' = []"
  using assms
proof (induction "length (matching w)" arbitrary: w t rule: less_induct)
  case less
  obtain r w1 where ex: "execute w = (r, w1)" by fastforce
  with less.prems(1) have inv1: "invar w1" using keeps by blast
  from less.prems(2) ex obtain n where Inr: "r = Inr n"
    by (cases r) (auto simp: deleteInBatches.simps [of _ _ t w])
  with ex less.prems have n: "n = min batchSize (length (matching w))"
    "length (matching w1) = length (matching w) - n" using removes by blast+
  show ?case
  proof (cases "n < batchSize")
    case True
    with less.prems(2) ex Inr have "m = t + n" "w' = w1"
      by (simp_all add: deleteInBatches.simps [of _ _ t w])
    with n True show ?thesis by (simp add: min_def split: if_splits)
  next
    case False
    with n batch_pos have smaller: "length (matching w1) < length (matching w)" by simp
    from less.prems(2) ex Inr False
    have "deleteInBatches execute batchSize (t + n) w1 = Some (Inr m, w')"
      by (simp add: deleteInBatches.simps [of _ _ t w])
    from less.hyps [OF smaller inv1 this] n show ?thesis by simp
  qed
qed

text \<open>When no DELETE can fail, as far as \<open>kept\<close> tells, the loop ends with a total.\<close>

lemma loop_succeeds:
  assumes "invar w" and "ok (kept w)"
    and never: "\<And>w. ok (kept w) \<Longrightarrow> \<exists>n w'. execute w = (Inr n, w')"
  shows "\<exists>w'. deleteInBatches execute batchSize t w = Some (Inr (t + length (matching w)), w') \<and>
    matching w' = [] \<and> kept w' = kept w"
proof -
  obtain r w' where loop: "deleteInBatches execute batchSize t w = Some (r, w')"
    and k: "kept w' = kept w" using loop_ends [OF assms(1)] by blast
  have "\<not> isl r"
    using assms(1,2) loop
  proof (induction "length (matching w)" arbitrary: w t rule: less_induct)
    case less
    obtain n w1 where ex: "execute w = (Inr n, w1)" using never [OF less.prems(2)] by blast
    with less.prems(1) have n: "n = min batchSize (length (matching w))"
      "length (matching w1) = length (matching w) - n" and k1: "kept w1 = kept w" "invar w1"
      using removes keeps by blast+
    show ?case
    proof (cases "n < batchSize")
      case True
      with ex less.prems(3) show ?thesis by (auto simp: deleteInBatches.simps [of _ _ t w])
    next
      case False
      with n batch_pos have smaller: "length (matching w1) < length (matching w)" by simp
      from less.prems(3) ex False
      have "deleteInBatches execute batchSize (t + n) w1 = Some (r, w')"
        by (simp add: deleteInBatches.simps [of _ _ t w])
      from less.hyps [OF smaller k1(2) _ this] k1(1) less.prems(2) show ?thesis by simp
    qed
  qed
  then obtain m where "r = Inr m" by (cases r) simp_all
  with loop k loop_deletes_all [OF assms(1), of t m w'] show ?thesis by simp
qed

end

section \<open>The two jobs\<close>

record purge_config =
  pc_purgeEnabled :: bool
  pc_sessionGraceDays :: int
  pc_auditRetentionDays :: int
  pc_batchSize :: nat

definition daysAgo :: "int \<Rightarrow> world \<Rightarrow> time" where
  "daysAgo days w = w_now w - days * ms_per_day"

text \<open>
  The DELETE on \<open>sessions\<close>: the foreign key on \<open>rotated_from_session_id\<close> is ON DELETE SET
  NULL (\<open>migrations/1739462400000\<close>), so successors of a deleted session lose the reference.
\<close>

definition expired_before :: "time \<Rightarrow> session \<Rightarrow> bool" where
  "expired_before cutoff s \<longleftrightarrow> s_expiresAt s < cutoff"

definition remove_sessions :: "uuid list \<Rightarrow> session list \<Rightarrow> session list" where
  "remove_sessions ids ss =
     update_where (\<lambda>s. case s_rotatedFromSessionId s of None \<Rightarrow> False | Some i \<Rightarrow> i \<in> set ids)
       (\<lambda>s. s\<lparr>s_rotatedFromSessionId := None\<rparr>)
       (delete_where (\<lambda>s. s_id s \<in> set ids) ss)"

definition delete_expired_sessions :: "time \<Rightarrow> nat \<Rightarrow> (world, nat) act" where
  "delete_expired_sessions cutoff batch = (\<lambda>w.
     if purgeFails (w_faults w) then (Inl (QueryFailed ''57014''), w)
     else let ids = batch_keys s_id (expired_before cutoff) batch (sessions w) in
       (Inr (affected (\<lambda>s. s_id s \<in> set ids) (sessions w)),
        set_sessions (remove_sessions ids (sessions w)) w))"

definition older_than :: "time \<Rightarrow> audit_log \<Rightarrow> bool" where
  "older_than cutoff l \<longleftrightarrow> al_createdAt l < cutoff"

definition delete_old_audit_logs :: "time \<Rightarrow> nat \<Rightarrow> (world, nat) act" where
  "delete_old_audit_logs cutoff batch = (\<lambda>w.
     if purgeFails (w_faults w) then (Inl (QueryFailed ''57014''), w)
     else let ids = batch_keys al_id (older_than cutoff) batch (auditLogs w) in
       (Inr (affected (\<lambda>l. al_id l \<in> set ids) (auditLogs w)),
        set_auditLogs (delete_where (\<lambda>l. al_id l \<in> set ids) (auditLogs w)) w))"

text \<open>
  \<open>runSessionPurge\<close> and \<open>runAuditPurge\<close>: nothing when disabled; a failure is logged and
  swallowed, and what was deleted before it stays deleted.
\<close>

definition runSessionPurge :: "purge_config \<Rightarrow> world \<Rightarrow> world option" where
  "runSessionPurge cfg w =
     (if \<not> pc_purgeEnabled cfg then Some w
      else map_option snd (deleteInBatches
             (delete_expired_sessions (daysAgo (pc_sessionGraceDays cfg) w) (pc_batchSize cfg))
             (pc_batchSize cfg) 0 w))"

definition runAuditPurge :: "purge_config \<Rightarrow> world \<Rightarrow> world option" where
  "runAuditPurge cfg w =
     (if \<not> pc_purgeEnabled cfg then Some w
      else map_option snd (deleteInBatches
             (delete_old_audit_logs (daysAgo (pc_auditRetentionDays cfg) w) (pc_batchSize cfg))
             (pc_batchSize cfg) 0 w))"

section \<open>The jobs provide the interface\<close>

definition unlinked :: "session \<Rightarrow> session" where
  "unlinked s = s\<lparr>s_rotatedFromSessionId := None\<rparr>"

lemma map_unlinked_update:
  "map unlinked (update_where P (\<lambda>s. s\<lparr>s_rotatedFromSessionId := None\<rparr>) ss) = map unlinked ss"
  by (induction ss) (simp_all add: row_simps unlinked_def)

lemma filter_remove_sessions:
  assumes "\<And>s. Q (s\<lparr>s_rotatedFromSessionId := None\<rparr>) = Q s"
  shows "map unlinked (filter Q (remove_sessions ids ss)) =
    map unlinked (filter Q (filter (\<lambda>s. s_id s \<notin> set ids) ss))"
  using assms by (induction ss) (auto simp: remove_sessions_def row_simps unlinked_def split: option.splits)

lemma ids_remove_sessions:
  "distinct (map s_id ss) \<Longrightarrow> distinct (map s_id (remove_sessions ids ss))"
  by (simp add: remove_sessions_def map_update_where distinct_map_delete_where)

definition session_ids_distinct :: "world \<Rightarrow> bool" where
  "session_ids_distinct w \<longleftrightarrow> distinct (map s_id (sessions w))"

definition audit_ids_distinct :: "world \<Rightarrow> bool" where
  "audit_ids_distinct w \<longleftrightarrow> distinct (map al_id (auditLogs w))"

lemma unlinked_batch:
  assumes "distinct (map s_id ss)"
  shows "length (filter (expired_before c) (remove_sessions (batch_keys s_id (expired_before c) b ss) ss)) =
      length (filter (expired_before c) ss) - min b (length (filter (expired_before c) ss))"
    and "map unlinked (filter (\<lambda>s. \<not> expired_before c s)
        (remove_sessions (batch_keys s_id (expired_before c) b ss) ss)) =
      map unlinked (filter (\<lambda>s. \<not> expired_before c s) ss)"
proof -
  have q: "expired_before c (s\<lparr>s_rotatedFromSessionId := None\<rparr>) = expired_before c s" for s
    by (simp add: expired_before_def)
  from arg_cong [OF filter_remove_sessions [of "expired_before c", OF q], of length]
  show "length (filter (expired_before c) (remove_sessions (batch_keys s_id (expired_before c) b ss) ss)) =
      length (filter (expired_before c) ss) - min b (length (filter (expired_before c) ss))"
    by (simp add: batch_rest [OF assms] min_def)
  show "map unlinked (filter (\<lambda>s. \<not> expired_before c s)
        (remove_sessions (batch_keys s_id (expired_before c) b ss) ss)) =
      map unlinked (filter (\<lambda>s. \<not> expired_before c s) ss)"
    by (subst filter_remove_sessions) (simp_all add: q batch_others [OF assms])
qed

interpretation session_purge: batched_delete "delete_expired_sessions cutoff (Suc b)"
  "\<lambda>w. filter (expired_before cutoff) (sessions w)"
  "\<lambda>w. (map unlinked (filter (\<lambda>s. \<not> expired_before cutoff s) (sessions w)), users w, auditLogs w, w_faults w)"
  session_ids_distinct "Suc b" for cutoff b
  by unfold_locales
     (auto simp: delete_expired_sessions_def Let_def session_ids_distinct_def batch_count
       unlinked_batch ids_remove_sessions split: if_splits)

interpretation audit_purge: batched_delete "delete_old_audit_logs cutoff (Suc b)"
  "\<lambda>w. filter (older_than cutoff) (auditLogs w)"
  "\<lambda>w. (filter (\<lambda>l. \<not> older_than cutoff l) (auditLogs w), users w, sessions w, w_faults w)"
  audit_ids_distinct "Suc b" for cutoff b
  by unfold_locales
     (auto simp: delete_old_audit_logs_def Let_def audit_ids_distinct_def batch_count
       delete_where_def batch_rest batch_others distinct_map_filter split: if_splits)

end
