(* ===== verification/Auth_Machine.thy ===== *)
theory Auth_Machine
  imports User_Admin Jwt_Strategy Purge
begin

text \<open>
  The authentication handlers as one state machine: any sequence of requests, of clock ticks,
  of infrastructure faults and of purge runs. Each handler refines an abstract machine,
  \<open>touch\<close>, whose steps are the few ways in which the code changes the session table and the
  denylist; an invariant is a predicate that these steps keep (locale \<open>session_invariant\<close>).
\<close>

section \<open>Steps and runs\<close>

inductive auth_step :: "env \<Rightarrow> world \<Rightarrow> world \<Rightarrow> bool" for E where
  login_step: "auth_step E w (snd (login E email password ip userAgent w))"
| refresh_step: "auth_step E w (snd (refresh E refresh_token ip userAgent w))"
| authenticate_step: "auth_step E w (snd (canActivate E isPublic bearer w))"
| logout_step: "auth_step E w (snd (logout E uid accessJti refreshToken w))"
| logoutAll_step: "auth_step E w (snd (logoutAll uid accessJti w))"
| changePassword_step: "auth_step E w (snd (changePassword E uid current new w))"
| setUserActive_step: "auth_step E w (snd (setUserActive uid active w))"
| register_step: "auth_step E w (snd (register E dto w))"
| processor_step: "auth_step E w (snd (processNext E w))"
| purge_step: "runSessionPurge cfg w = Some w' \<Longrightarrow> auth_step E w w'"
| audit_purge_step: "runAuditPurge cfg w = Some w' \<Longrightarrow> auth_step E w w'"
| request_step: "auth_step E w (snd (correlationId_use E req w))"
| tick_step: "0 \<le> d \<Longrightarrow> auth_step E w (w\<lparr>w_now := w_now w + d\<rparr>)"
| faults_step: "auth_step E w (w\<lparr>w_faults := f\<rparr>)"

inductive auth_run :: "env \<Rightarrow> world \<Rightarrow> world \<Rightarrow> bool" for E where
  run_refl: "auth_run E w w"
| run_step: "auth_run E w w' \<Longrightarrow> auth_step E w' w'' \<Longrightarrow> auth_run E w w''"

lemma auth_run_trans: "auth_run E w' w'' \<Longrightarrow> auth_run E w w' \<Longrightarrow> auth_run E w w''"
  by (induction rule: auth_run.induct) (auto intro: auth_run.intros)

lemma auth_run_single: "auth_step E w w' \<Longrightarrow> auth_run E w w'"
  by (rule run_step [OF run_refl])

text \<open>A system that starts with no sessions, whatever its users.\<close>

definition initial_world :: "world \<Rightarrow> bool" where
  "initial_world w \<longleftrightarrow> sessions w = [] \<and> w_cache w = Map.empty"

definition auth_reachable :: "env \<Rightarrow> world \<Rightarrow> bool" where
  "auth_reachable E w \<longleftrightarrow> (\<exists>w0. initial_world w0 \<and> auth_run E w0 w)"

section \<open>Actions that leave sessions alone\<close>

text \<open>
  The session table and the denylist read as before; the user objects put into the cache are sound.
\<close>

definition same_sessions :: "world \<Rightarrow> world \<Rightarrow> bool" where
  "same_sessions w0 w \<longleftrightarrow> sessions w = sessions w0 \<and> w_fresh w0 \<le> w_fresh w \<and> w_now w0 \<le> w_now w \<and>
     (\<forall>t j. cache_get t (jti_key j) (w_cache w) = cache_get t (jti_key j) (w_cache w0)) \<and>
     cached_users (w_cache w) \<subseteq> cached_users (w_cache w0) \<union> sound_entries"

lemma same_sessions_refl [simp]: "same_sessions w w"
  by (simp add: same_sessions_def)

lemma same_sessions_trans: "same_sessions w0 w \<Longrightarrow> same_sessions w w' \<Longrightarrow> same_sessions w0 w'"
  by (auto simp: same_sessions_def)

text \<open>A fact about every start is a fact about a sequence.\<close>

lemma quiet_actionI:
  "(\<And>w. same_sessions w (snd (m w))) \<Longrightarrow> preserves (same_sessions w0) m"
  by (auto simp: preserves_def intro: same_sessions_trans)

lemma quiet_actionD: "(\<And>w0. preserves (same_sessions w0) m) \<Longrightarrow> same_sessions w (snd (m w))"
  by (metis preserves_def same_sessions_refl)

named_theorems quiet

lemma quiet_modify: "(\<And>w. same_sessions w (f w)) \<Longrightarrow> preserves (same_sessions w0) (modify f)"
  by (rule quiet_actionI) simp

lemma quiet_update_user [quiet]: "preserves (same_sessions w0) (modify (update_user uid f))"
  by (rule quiet_modify) (simp add: same_sessions_def)

lemma quiet_setUser [quiet]: "preserves (same_sessions w0) (modify (rc_setUser uid))"
  by (rule quiet_modify) (simp add: same_sessions_def)

lemma quiet_run [quiet]: "preserves (same_sessions w0) (modify (rc_run d))"
  by (rule quiet_modify) (simp add: same_sessions_def rc_run_def)

lemma quiet_genUuid [quiet]: "preserves (same_sessions w0) (genUuid E)"
  by (simp add: preserves_def genUuid_def same_sessions_def)

lemma quiet_hash [quiet]: "preserves (same_sessions w0) (hash_password E pw c)"
  by (simp add: preserves_def hash_password_def same_sessions_def)

lemma quiet_audit [quiet]: "preserves (same_sessions w0) (auditLog E e)"
  unfolding preserves_def
  by (auto simp: same_sessions_def intro: order_trans [OF _ auditLog_fresh])

lemma quiet_cacheGet [quiet]: "preserves (same_sessions w0) (cacheGet k)"
  by (simp add: preserves_def cacheGet_def)

lemma quiet_cacheDel [quiet]: "preserves (same_sessions w0) (cacheDel (user_key uid))"
  using cached_users_put_del(3)
  by (intro quiet_actionI) (auto simp: cacheDel_def same_sessions_def cache_reads)

lemma quiet_cacheSet [quiet]:
  "u_password u = None \<Longrightarrow> uid = u_id u \<Longrightarrow>
     preserves (same_sessions w0) (cacheSet (user_key uid) (CUser u) ttl)"
  using cached_users_put_del(2) [of _ "user_key uid" u ttl]
  by (intro quiet_actionI)
     (fastforce simp: cacheSet_def same_sessions_def cache_reads sound_entries_def)

lemma quiet_insert_user [quiet]: "preserves (same_sessions w0) (insert_user row)"
  by (simp add: preserves_def insert_user_def same_sessions_def)

lemma quiet_compare [quiet]: "preserves (same_sessions w0) (compare_password E pw h)"
  by (auto simp: preserves_def compare_password_def split: option.splits)

lemma quiet_check_denylist [quiet]: "preserves (same_sessions w0) (check_denylist jti)"
  by (simp add: preserves_def check_denylist_state)

text \<open>A transaction that touches users only is undone or kept; either way sessions stay.\<close>

lemma quiet_transaction [quiet]:
  assumes "\<And>w0. preserves (same_sessions w0) body"
  shows "preserves (same_sessions w0) (transaction body)"
  unfolding preserves_def
proof (intro allI impI)
  fix w assume w: "same_sessions w0 w"
  obtain r w' where b: "body w = (r, w')" by fastforce
  have "same_sessions w w'" by (rule preservesD [OF assms same_sessions_refl b])
  with w b show "same_sessions w0 (snd (transaction body w))"
    by (cases r) (auto simp: transaction_def same_sessions_def)
qed

lemma quiet_recordFailedLogin_body [quiet]: "preserves (same_sessions w0) (recordFailedLogin_body uid)"
  by (simp add: preserves_def recordFailedLogin_body_frame same_sessions_def)

lemma quiet_recordFailedLogin [quiet]: "preserves (same_sessions w0) (users_recordFailedLogin uid)"
  unfolding users_recordFailedLogin_def invalidateUserCache_def by (intro quiet preserves_intros)

lemma quiet_resetFailedLogin [quiet]: "preserves (same_sessions w0) (users_resetFailedLogin uid)"
  unfolding users_resetFailedLogin_def invalidateUserCache_def by (intro quiet preserves_intros)

lemma quiet_updatePassword [quiet]: "preserves (same_sessions w0) (users_updatePassword uid h)"
  unfolding users_updatePassword_def invalidateUserCache_def by (intro quiet preserves_intros)

lemma quiet_setActive [quiet]: "preserves (same_sessions w0) (users_setActive uid b)"
  using cached_users_put_del(3)
  by (intro quiet_actionI) (auto simp: setActive_cases same_sessions_def cache_reads)

lemma quiet_users_create [quiet]: "preserves (same_sessions w0) (users_create E dto)"
  unfolding users_create_def
  by (intro quiet preserves_intros) (simp add: preserves_def insert_user_def same_sessions_def)

lemma quiet_load_user [quiet]: "preserves (same_sessions w0) (load_user uid)"
proof (rule quiet_actionI)
  fix w
  show "same_sessions w (snd (load_user uid w))"
  proof (cases "users_findById uid w")
    case (Some u)
    have "same_sessions w (snd (cacheSet (user_key uid) (CUser u) USER_CACHE_TTL_MS w))"
      using Some by (intro quiet_actionD quiet_cacheSet) (simp_all add: findById_no_password findById_id)
    with Some show ?thesis
      by (auto simp: load_user_def andThen_def cacheGet_def cacheSet_def split: option.splits)
  qed (auto simp: load_user_def andThen_def cacheGet_def split: option.splits)
qed

lemma quiet_canActivate [quiet]: "preserves (same_sessions w0) (canActivate E pub tok)"
proof (rule quiet_actionI)
  fix w
  have v: "preserves (same_sessions v) (validate p)" for p v
    unfolding validate_def by (intro quiet preserves_intros) (simp add: preserves_def)
  have "same_sessions w w'" if "validate p w = (r, w')" for p r w'
    using v same_sessions_refl that by (rule preservesD)
  then show "same_sessions w (snd (canActivate E pub tok w))"
    by (cases "pub \<or> tok = None")
       (auto simp: canActivate_private canActivate_def [of _ True] canActivate_def [of _ _ None]
         andThen_def handleRequest_def split: option.splits prod.splits sum.splits)
qed

lemma quiet_register [quiet]: "preserves (same_sessions w0) (register E dto)"
proof (rule quiet_actionI)
  fix w
  have "preserves (same_sessions v) (andThen (hash_password E pw c)
      (\<lambda>h. andThen (users_create E (d h)) (\<lambda>u. ret (x u))))" for v pw c d and x :: "user \<Rightarrow> string \<times> uuid"
    by (intro quiet preserves_intros)
  from quiet_actionD [OF this] show "same_sessions w (snd (register E dto w))"
    by (auto simp: register_def split: option.splits)
qed

lemma quiet_processNext [quiet]: "preserves (same_sessions w0) (processNext E)"
proof (rule quiet_actionI)
  fix w
  have persist: "preserves (same_sessions v) (persistFromPayload E p)" for v p
    by (rule quiet_actionI) (simp add: persist_cases same_sessions_def Let_def split: option.splits)
  have job: "preserves (same_sessions v) (run_job E n p)" for v n p
    by (induction n) (auto intro!: preserves_intros persist)
  show "same_sessions w (snd (processNext E w))"
  proof (cases "w_queue w")
    case (Some jobs)
    then show ?thesis
      using quiet_actionD [OF job, of "w\<lparr>w_queue := Some (tl jobs)\<rparr>" 3 "hd jobs"]
      by (cases jobs) (auto simp: processNext_def same_sessions_def)
  qed (simp add: processNext_def)
qed

lemma quiet_correlationId [quiet]: "preserves (same_sessions w0) (correlationId_use E req)"
  unfolding correlationId_use_def by (intro quiet preserves_intros)

section \<open>The abstract machine\<close>

text \<open>The token pair and the session row that issuing at \<open>w\<close> makes, in closed form.\<close>

definition issued_pair :: "env \<Rightarrow> user \<Rightarrow> world \<Rightarrow> token_pair" where
  "issued_pair E u w =
     \<lparr>tp_accessToken = e_sign E (token_payload u ''access'' (e_uuid E (w_fresh w)))
        ACCESS_TOKEN_EXPIRES (w_now w),
      tp_refreshToken = e_sign E (token_payload u ''refresh'' (e_uuid E (Suc (w_fresh w))))
        REFRESH_TOKEN_EXPIRES (w_now w),
      tp_accessJti = e_uuid E (w_fresh w), tp_refreshJti = e_uuid E (Suc (w_fresh w)),
      tp_expiresAt = w_now w + REFRESH_TOKEN_DAYS * ms_per_day\<rparr>"

definition issued_session :: "env \<Rightarrow> user \<Rightarrow> string option \<Rightarrow> string option \<Rightarrow> uuid option \<Rightarrow> world \<Rightarrow> session" where
  "issued_session E u ip ua rf w =
     new_session E u (issued_pair E u w) ip ua rf (e_uuid E (Suc (Suc (w_fresh w)))) (w_now w)"

definition issued_world :: "session \<Rightarrow> world \<Rightarrow> world" where
  "issued_world row w = set_sessions (sessions w @ [row]) (w\<lparr>w_fresh := w_fresh w + 3\<rparr>)"

lemma issue_eq:
  "andThen (buildTokenPair E u) (\<lambda>tp. andThen (save_new_session E u tp ip ua rf) (k tp)) w =
     (if varchar_ok 45 ip \<and> varchar_ok 512 ua
      then k (issued_pair E u w) (e_uuid E (Suc (Suc (w_fresh w))))
             (issued_world (issued_session E u ip ua rf w) w)
      else (Inl (QueryFailed ''22001''), w\<lparr>w_fresh := w_fresh w + 3\<rparr>))"
  by (simp add: andThen_def buildTokenPair_def genUuid_def save_new_session_def insert_session_def
      issued_pair_def issued_session_def issued_world_def new_session_def numeral_3_eq_3)

inductive touch :: "env \<Rightarrow> world \<Rightarrow> world \<Rightarrow> bool" for E where
  touch_none: "same_sessions w w' \<Longrightarrow> touch E w w'"
| touch_revoke: "\<forall>s. P s \<longrightarrow> s_revokedAt s = None \<Longrightarrow>
    touch E w (set_sessions (update_where P (\<lambda>s. s\<lparr>s_revokedAt := Some (w_now w)\<rparr>) (sessions w)) w)"
| touch_rotate: "touch E w (snd (mark_rotated sid newSid w))"
| touch_issue: "touch E w (issued_world (issued_session E u ip ua rf w) w)"
| touch_deny: "touch E w
    (w\<lparr>w_cache := cache_put (w_now w) (jti_key j) (CNum 1) ACCESS_TOKEN_EXPIRES_MS (w_cache w)\<rparr>)"
| touch_remove: "touch E w (set_sessions (remove_sessions ids (sessions w)) w)"

definition touches :: "env \<Rightarrow> world \<Rightarrow> world \<Rightarrow> bool" where
  "touches E = (touch E)\<^sup>*\<^sup>*"

lemma touches_refl [simp]: "touches E w w"
  by (simp add: touches_def)

lemma touches_step: "touches E w0 w \<Longrightarrow> touch E w w' \<Longrightarrow> touches E w0 w'"
  by (simp add: touches_def)

lemma touches_trans: "touches E w0 w \<Longrightarrow> touches E w w' \<Longrightarrow> touches E w0 w'"
  by (simp add: touches_def)

section \<open>The handlers refine the abstract machine\<close>

named_theorems refines

lemma refinesI: "(\<And>w. touches E w (snd (m w))) \<Longrightarrow> preserves (touches E w0) m"
  by (auto simp: preserves_def intro: touches_trans)

lemma refinesD: "(\<And>w0. preserves (touches E w0) m) \<Longrightarrow> touches E w (snd (m w))"
  by (metis preserves_def touches_refl)

lemma touches_single: "touch E w w' \<Longrightarrow> touches E w w'"
  by (rule touches_step [OF touches_refl])

lemma touches_quiet: "same_sessions w w' \<Longrightarrow> touches E w w'"
  by (intro touches_single touch_none)

lemma refines_quiet: "(\<And>w0. preserves (same_sessions w0) m) \<Longrightarrow> preserves (touches E w0) m"
  by (intro refinesI touches_quiet quiet_actionD)

lemmas refines_quiet_handlers [refines] =
  quiet_audit [THEN refines_quiet] quiet_recordFailedLogin [THEN refines_quiet]
  quiet_resetFailedLogin [THEN refines_quiet] quiet_updatePassword [THEN refines_quiet]
  quiet_setActive [THEN refines_quiet] quiet_compare [THEN refines_quiet]
  quiet_hash [THEN refines_quiet]

lemma refines_revoke_where [refines]:
  "\<forall>s. P s \<longrightarrow> s_revokedAt s = None \<Longrightarrow> preserves (touches E w0) (revoke_where P)"
  by (auto simp: revoke_where_def intro!: refinesI touches_single touch_revoke)

lemma touches_denylist: "touches E w (w\<lparr>w_cache := denylist_cache uid w\<rparr>)"
proof -
  have "touches E v (v\<lparr>w_cache := fold (\<lambda>k. cache_put (w_now v) k (CNum 1) ACCESS_TOKEN_EXPIRES_MS) ks (w_cache v)\<rparr>)"
    if "set ks \<subseteq> range jti_key" for ks and v :: world
    using that
  proof (induction ks arbitrary: v)
    case (Cons k ks)
    then obtain j where k: "k = jti_key j" by auto
    let ?v = "v\<lparr>w_cache := cache_put (w_now v) k (CNum 1) ACCESS_TOKEN_EXPIRES_MS (w_cache v)\<rparr>"
    have "touches E v ?v" unfolding k by (intro touches_single touch_deny)
    moreover have "touches E ?v (?v\<lparr>w_cache := fold (\<lambda>k. cache_put (w_now ?v) k (CNum 1)
        ACCESS_TOKEN_EXPIRES_MS) ks (w_cache ?v)\<rparr>)"
      by (rule Cons.IH) (use Cons.prems in auto)
    ultimately show ?case by (auto dest: touches_trans)
  qed simp
  then show ?thesis
    unfolding denylist_cache_def by this (auto simp: active_jti_keys_def)
qed

lemma refines_revokeAll [refines]: "preserves (touches E w0) (revokeAllUserSessions uid)"
proof (rule refinesI)
  fix w
  let ?v = "w\<lparr>w_cache := denylist_cache uid w\<rparr>"
  have "touches E ?v (snd (revoke_where (active_session uid) ?v))"
    by (intro refinesD refines_revoke_where) (simp add: active_session_def)
  with touches_denylist show "touches E w (snd (revokeAllUserSessions uid w))"
    by (auto simp: revokeAll_eq revoke_where_def intro: touches_trans)
qed

lemma refines_denylist_own [refines]: "preserves (touches E w0) (denylist_own_token j)"
  by (auto simp: denylist_own_token_def cacheSet_def intro!: refinesI intro: touches_single [OF touch_deny])

lemma refines_mark_rotated [refines]: "preserves (touches E w0) (mark_rotated sid n)"
  by (intro refinesI touches_single touch_rotate)

lemma same_sessions_fresh [simp]: "same_sessions w (w\<lparr>w_fresh := w_fresh w + n\<rparr>)"
  by (simp add: same_sessions_def)

lemma refines_issue [refines]:
  assumes "\<And>tp sid w0. preserves (touches E w0) (k tp sid)"
  shows "preserves (touches E w0)
    (andThen (buildTokenPair E u) (\<lambda>tp. andThen (save_new_session E u tp ip ua rf) (k tp)))"
proof (rule refinesI)
  fix w
  have "touches E w (snd (k tp sid (issued_world (issued_session E u ip ua rf w) w)))" for tp sid
    by (rule touches_trans [OF touches_single [OF touch_issue] refinesD [OF assms]])
  then show "touches E w (snd (andThen (buildTokenPair E u)
      (\<lambda>tp. andThen (save_new_session E u tp ip ua rf) (k tp)) w))"
    unfolding issue_eq by (auto intro!: touches_quiet)
qed

lemma refines_login [refines]: "preserves (touches E w0) (login E email pw ip ua)"
proof (rule refinesI)
  fix w
  have "preserves (touches E v) (createTokensAndSession E u ip ua)" for v u
    unfolding createTokensAndSession_def by (intro refines preserves_intros)
  then show "touches E w (snd (login E email pw ip ua w))"
    unfolding login_def
    by (auto split: option.splits intro!: refinesD refines preserves_intros)
qed

text \<open>The transaction of \<open>refresh\<close>: what it returns is committed, what it throws leaves no trace.\<close>

lemma rotate_session_eq:
  "rotate_session E s u ip ua w =
     (if varchar_ok 45 ip \<and> varchar_ok 512 ua
      then (Inr (Success (u_email u) (tp_accessToken (issued_pair E u w))
                   (tp_refreshToken (issued_pair E u w)) (context_mismatch_audit s ip ua)),
            snd (mark_rotated (s_id s) (e_uuid E (Suc (Suc (w_fresh w))))
                   (issued_world (issued_session E u ip ua (Some (s_id s)) w) w)))
      else (Inl (QueryFailed ''22001''), w\<lparr>w_fresh := w_fresh w + 3\<rparr>))"
  unfolding rotate_session_def issue_eq
  by (cases "varchar_ok 45 ip \<and> varchar_ok 512 ua")
     (simp_all only: if_True if_False simp_thms, simp add: andThen_def mark_rotated_def)

lemma refresh_tx_throws:
  "refresh_tx E h ip ua w = (Inl e, w') \<Longrightarrow> same_sessions w w'"
  by (auto simp: refresh_tx_def rotate_session_eq port.andThen_revoke split: option.splits if_splits)

lemma refines_refresh_tx: "preserves (touches E w0) (refresh_tx E h ip ua)"
proof (rule refinesI)
  fix w
  have "preserves (touches E w) (rotate_session E s u ip ua)" for s u w
    unfolding rotate_session_def by (intro refines preserves_intros)
  from refinesD [OF this] show "touches E w (snd (refresh_tx E h ip ua w))"
    unfolding refresh_tx_def
    by (auto split: option.splits intro!: refinesD refines preserves_intros)
qed

lemma refines_transaction:
  assumes "\<And>w0. preserves (touches E w0) body"
    and "\<And>w e w'. body w = (Inl e, w') \<Longrightarrow> same_sessions w w'"
  shows "preserves (touches E w0) (transaction body)"
proof (rule refinesI)
  fix w
  obtain r w' where b: "body w = (r, w')" by fastforce
  show "touches E w (snd (transaction body w))"
  proof (cases r)
    case (Inl e)
    with b assms(2) [of w e w'] show ?thesis
      by (simp add: transaction_def touches_quiet same_sessions_def)
  next
    case (Inr x)
    with b refinesD [OF assms(1), of w] show ?thesis by (simp add: transaction_def)
  qed
qed

lemma refines_refresh [refines]: "preserves (touches E w0) (refresh E tok ip ua)"
proof (rule refinesI)
  fix w
  have "preserves (touches E v) (refresh_finish E ip ua r)" for v r
    unfolding refresh_finish_def by (cases r) (auto intro!: refines preserves_intros split: option.splits)
  moreover have "preserves (touches E v) (transaction (refresh_tx E h ip ua))" for v h
    by (intro refines_transaction refines_refresh_tx refresh_tx_throws)
  ultimately show "touches E w (snd (refresh E tok ip ua w))"
    unfolding refresh_def by (auto split: option.splits intro!: refinesD preserves_intros)
qed

lemma refines_logout [refines]:
  "preserves (touches E w0) (logout E uid j tok)"
  "preserves (touches E w0) (logoutAll uid j)"
  unfolding logout_def logoutAll_def revokeSessionByRefreshHash_def
  by (auto simp: active_session_def intro!: refines preserves_intros)

lemma refines_changePassword [refines]: "preserves (touches E w0) (changePassword E uid current new)"
  unfolding changePassword_def
  by (rule refinesI) (auto split: option.splits intro!: refinesD refines preserves_intros)

lemma refines_setUserActive [refines]: "preserves (touches E w0) (setUserActive uid b)"
  unfolding setUserActive_def
  by (rule refinesI) (auto intro!: refinesD refines preserves_intros)

text \<open>The purge jobs: whatever the loop keeps of one DELETE, it keeps of all.\<close>

lemma deleteInBatches_keeps:
  assumes "deleteInBatches execute b t w = Some (r, w')" and "preserves I execute" and "I w"
  shows "I w'"
proof -
  have "preserves I execute \<longrightarrow> I w \<longrightarrow> I (snd (r, w'))"
  proof (rule deleteInBatches.raw_induct [where P = "\<lambda>execute b t w p.
          preserves I execute \<longrightarrow> I w \<longrightarrow> I (snd p)", OF _ assms(1)])
    fix loop and execute :: "('a, nat) act" and b t w p
    assume IH: "\<And>execute b t w p. loop execute b t w = Some p \<Longrightarrow>
        preserves I execute \<longrightarrow> I w \<longrightarrow> I (snd p)"
      and ret: "(case execute w of (Inl e, w') \<Rightarrow> Some (Inl e, w')
        | (Inr n, w') \<Rightarrow> if n < b then Some (Inr (t + n), w') else loop execute b (t + n) w') = Some p"
    show "preserves I execute \<longrightarrow> I w \<longrightarrow> I (snd p)"
    proof (intro impI)
      assume pre: "preserves I execute" "I w"
      obtain x w1 where ex: "execute w = (x, w1)" by fastforce
      with pre have "I w1" by (rule preservesD)
      with ret ex pre IH show "I (snd p)"
        by (cases x) (auto split: if_splits)
    qed
  qed
  with assms(2,3) show ?thesis by simp
qed

lemma refines_purge:
  "runSessionPurge cfg w = Some w' \<Longrightarrow> touches E w w'"
  "runAuditPurge cfg w = Some w' \<Longrightarrow> touches E w w'"
proof -
  have "preserves (touches E w) (delete_expired_sessions c b)" for c b
    by (rule refinesI) (simp add: delete_expired_sessions_def Let_def touches_single [OF touch_remove])
  then show "runSessionPurge cfg w = Some w' \<Longrightarrow> touches E w w'"
    by (auto simp: runSessionPurge_def intro: deleteInBatches_keeps split: if_splits)
  have "preserves (touches E w) (delete_old_audit_logs c b)" for c b
    by (rule refinesI) (simp add: delete_old_audit_logs_def Let_def touches_quiet same_sessions_def)
  then show "runAuditPurge cfg w = Some w' \<Longrightarrow> touches E w w'"
    by (auto simp: runAuditPurge_def intro: deleteInBatches_keeps split: if_splits)
qed

theorem auth_step_refines: "auth_step E w w' \<Longrightarrow> touches E w w'"
proof (induction rule: auth_step.induct)
  case (authenticate_step isPublic bearer w)
  show ?case by (intro touches_quiet quiet_actionD quiet)
next
  case (register_step dto w)
  show ?case by (intro touches_quiet quiet_actionD quiet)
next
  case (processor_step w)
  show ?case by (intro touches_quiet quiet_actionD quiet)
next
  case (request_step req w)
  show ?case by (intro touches_quiet quiet_actionD quiet)
next
  case (tick_step d w)
  then show ?case by (simp add: touches_quiet same_sessions_def)
next
  case (faults_step w f)
  show ?case by (simp add: touches_quiet same_sessions_def)
qed (auto intro: refinesD refines refines_purge)

lemma auth_run_refines: "auth_run E w w' \<Longrightarrow> touches E w w'"
  by (induction rule: auth_run.induct) (auto intro: touches_trans auth_step_refines)

section \<open>Invariants of the abstract machine\<close>

locale session_invariant =
  fixes E :: env and I :: "world \<Rightarrow> bool"
  assumes touch_keeps: "touch E w w' \<Longrightarrow> I w \<Longrightarrow> I w'"
begin

lemma touches_keeps: "touches E w w' \<Longrightarrow> I w \<Longrightarrow> I w'"
  unfolding touches_def by (induction rule: rtranclp_induct) (auto intro: touch_keeps)

lemma step_keeps: "auth_step E w w' \<Longrightarrow> I w \<Longrightarrow> I w'"
  by (rule touches_keeps [OF auth_step_refines])

lemma run_keeps: "auth_run E w w' \<Longrightarrow> I w \<Longrightarrow> I w'"
  by (rule touches_keeps [OF auth_run_refines])

lemma handler_keeps: "(\<And>w0. preserves (touches E w0) m) \<Longrightarrow> I w \<Longrightarrow> I (snd (m w))"
  by (rule touches_keeps [OF refinesD])

lemma reachable:
  assumes "auth_reachable E w" and "\<And>w0. initial_world w0 \<Longrightarrow> I w0"
  shows "I w"
  using assms by (auto simp: auth_reachable_def intro: run_keeps)

end

end
