(* ===== verification/Auth_Invariants.thy ===== *)
theory Auth_Invariants
  imports Auth_Machine
begin

text \<open>
  The invariants of the session table and of the denylist, each an instance of
  \<open>session_invariant\<close>: the table's shape, refresh tokens that are spent, and access tokens that
  are denied. The properties of the handlers over any run follow from them.
\<close>

section \<open>Sessions are minted by the service\<close>

text \<open>The third-party functions that make hashes unique, together.\<close>

definition env_ok :: "env \<Rightarrow> bool" where
  "env_ok E \<longleftrightarrow> jwt_ok E \<and> sha_ok E \<and> uuid_ok E"

text \<open>A refresh token the service signed with one of the first \<open>n\<close> uuids as its jti.\<close>

definition issued_token :: "env \<Rightarrow> nat \<Rightarrow> string \<Rightarrow> bool" where
  "issued_token E n tok \<longleftrightarrow>
     (\<exists>p l t m. tok = e_sign E p l t \<and> jp_jti p = Some (e_uuid E m) \<and> m < n)"

definition minted :: "env \<Rightarrow> nat \<Rightarrow> session \<Rightarrow> bool" where
  "minted E n s \<longleftrightarrow> (\<exists>tok. issued_token E n tok \<and> s_refreshTokenHash s = hashRefreshToken E tok) \<and>
     (\<exists>k < n. s_id s = e_uuid E k) \<and> (\<exists>a < n. s_accessJti s = Some (e_uuid E a)) \<and>
     (s_rotatedToSessionId s \<noteq> None \<longrightarrow> s_revokedAt s \<noteq> None)"

definition session_table_ok :: "env \<Rightarrow> world \<Rightarrow> bool" where
  "session_table_ok E w \<longleftrightarrow> env_ok E \<and> (\<forall>s \<in> set (sessions w). minted E (w_fresh w) s) \<and>
     distinct (map s_refreshTokenHash (sessions w)) \<and> distinct (map s_id (sessions w))"

lemma issued_token_mono: "issued_token E n tok \<Longrightarrow> n \<le> m \<Longrightarrow> issued_token E m tok"
  by (force simp: issued_token_def)

lemma minted_mono: "minted E n s \<Longrightarrow> n \<le> m \<Longrightarrow> minted E m s"
  unfolding minted_def by (meson issued_token_mono order_less_le_trans)

lemma minted_update [simp]:
  "minted E n s \<Longrightarrow> minted E n (s\<lparr>s_revokedAt := Some t\<rparr>)"
  "minted E n s \<Longrightarrow> minted E n (s\<lparr>s_revokedAt := Some t, s_rotatedToSessionId := x\<rparr>)"
  "minted E n s \<Longrightarrow> minted E n (s\<lparr>s_rotatedFromSessionId := y\<rparr>)"
  by (auto simp: minted_def)

lemma issued_token_fresh:
  assumes "env_ok E" "issued_token E n tok" "jp_jti p = Some (e_uuid E m)" "n \<le> m"
  shows "hashRefreshToken E tok \<noteq> hashRefreshToken E (e_sign E p l t)"
proof
  assume "hashRefreshToken E tok = hashRefreshToken E (e_sign E p l t)"
  with assms(1) have eq: "tok = e_sign E p l t"
    by (simp add: env_ok_def hashRefreshToken_def sha_inj)
  from assms(2) obtain p' l' t' m' where i: "tok = e_sign E p' l' t'" "jp_jti p' = Some (e_uuid E m')" "m' < n"
    by (auto simp: issued_token_def)
  with eq assms(1) have "p = p'" by (metis env_ok_def jwt_sign_inj)
  with i assms show False by (simp add: env_ok_def)
qed

lemma issued_session_simps [simp]:
  "s_refreshTokenHash (issued_session E u ip ua rf w) = hashRefreshToken E (tp_refreshToken (issued_pair E u w))"
  "s_id (issued_session E u ip ua rf w) = e_uuid E (Suc (Suc (w_fresh w)))"
  "s_revokedAt (issued_session E u ip ua rf w) = None"
  "s_rotatedToSessionId (issued_session E u ip ua rf w) = None"
  "s_accessJti (issued_session E u ip ua rf w) = Some (e_uuid E (w_fresh w))"
  "s_userId (issued_session E u ip ua rf w) = u_id u"
  "s_expiresAt (issued_session E u ip ua rf w) = w_now w + REFRESH_TOKEN_DAYS * ms_per_day"
  "s_createdAt (issued_session E u ip ua rf w) = w_now w"
  "s_ip (issued_session E u ip ua rf w) = ip" "s_userAgent (issued_session E u ip ua rf w) = ua"
  "s_rotatedFromSessionId (issued_session E u ip ua rf w) = rf"
  by (simp_all add: issued_session_def new_session_def issued_pair_def)

lemma issued_pair_token:
  "tp_refreshToken (issued_pair E u w) = e_sign E (token_payload u ''refresh'' (e_uuid E (Suc (w_fresh w))))
     REFRESH_TOKEN_EXPIRES (w_now w)"
  by (simp add: issued_pair_def)

lemma issued_world_simps [simp]:
  "sessions (issued_world row w) = sessions w @ [row]" "w_fresh (issued_world row w) = w_fresh w + 3"
  "w_now (issued_world row w) = w_now w" "w_cache (issued_world row w) = w_cache w"
  "users (issued_world row w) = users w" "w_faults (issued_world row w) = w_faults w"
  "auditLogs (issued_world row w) = auditLogs w"
  by (simp_all add: issued_world_def)

lemma issued_session_fresh_hash:
  assumes "env_ok E" "issued_token E (w_fresh w) tok"
  shows "hashRefreshToken E tok \<noteq> s_refreshTokenHash (issued_session E u ip ua rf w)"
  using issued_token_fresh [OF assms, of "token_payload u ''refresh'' (e_uuid E (Suc (w_fresh w)))"]
  by (simp add: issued_pair_token token_payload_def)

lemma issued_session_minted: "minted E (w_fresh w + 3) (issued_session E u ip ua rf w)"
proof -
  have "issued_token E (w_fresh w + 3) (tp_refreshToken (issued_pair E u w))"
    unfolding issued_pair_token issued_token_def
    by (rule exI [of _ "token_payload u ''refresh'' (e_uuid E (Suc (w_fresh w)))"])
       (auto simp: token_payload_def)
  moreover have "Suc (Suc (w_fresh w)) < w_fresh w + 3" "w_fresh w < w_fresh w + 3" by simp_all
  ultimately show ?thesis unfolding minted_def issued_session_simps by blast
qed

lemma sessions_mark_rotated [simp]:
  "sessions (snd (mark_rotated sid n w)) = update_where (\<lambda>s. s_id s = sid)
     (\<lambda>s. s\<lparr>s_revokedAt := Some (w_now w), s_rotatedToSessionId := Some n\<rparr>) (sessions w)"
  "w_fresh (snd (mark_rotated sid n w)) = w_fresh w" "w_now (snd (mark_rotated sid n w)) = w_now w"
  "w_cache (snd (mark_rotated sid n w)) = w_cache w" "users (snd (mark_rotated sid n w)) = users w"
  "w_faults (snd (mark_rotated sid n w)) = w_faults w" "auditLogs (snd (mark_rotated sid n w)) = auditLogs w"
  by (simp_all add: mark_rotated_def)

lemma remove_sessions_in:
  "s \<in> set (remove_sessions ids ss) \<Longrightarrow> \<exists>q \<in> set ss. s = q \<or> s = q\<lparr>s_rotatedFromSessionId := None\<rparr>"
  by (auto simp: remove_sessions_def set_update_where)

lemma map_remove_sessions:
  "(\<And>s. k (s\<lparr>s_rotatedFromSessionId := None\<rparr>) = k s) \<Longrightarrow> distinct (map k ss) \<Longrightarrow>
     distinct (map k (remove_sessions ids ss))"
  by (simp add: remove_sessions_def map_update_where distinct_map_delete_where)

interpretation session_table: session_invariant E "session_table_ok E" for E
proof
  fix w w' assume "touch E w w'" and "session_table_ok E w"
  then show "session_table_ok E w'"
  proof (cases rule: touch.cases)
    case touch_none
    with \<open>session_table_ok E w\<close> show ?thesis
      by (auto simp: session_table_ok_def same_sessions_def intro: minted_mono)
  next
    case (touch_issue u ip ua rf)
    let ?row = "issued_session E u ip ua rf w"
    from \<open>session_table_ok E w\<close> have env: "env_ok E" and rows: "\<forall>s \<in> set (sessions w). minted E (w_fresh w) s"
      by (simp_all add: session_table_ok_def)
    have "s_refreshTokenHash s \<noteq> s_refreshTokenHash ?row" if s: "s \<in> set (sessions w)" for s
    proof -
      from rows s have "minted E (w_fresh w) s" by blast
      then obtain tok where "issued_token E (w_fresh w) tok" "s_refreshTokenHash s = hashRefreshToken E tok"
        by (auto simp: minted_def)
      with issued_session_fresh_hash [OF env, of w tok u ip ua rf] show ?thesis by simp
    qed
    moreover have "s_id s \<noteq> s_id ?row" if "s \<in> set (sessions w)" for s
      using rows env that by (fastforce simp: minted_def env_ok_def)
    moreover have "minted E (w_fresh w + 3) s" if "s \<in> set (sessions w)" for s
      using rows that by (auto intro: minted_mono)
    ultimately show ?thesis
      using \<open>session_table_ok E w\<close> issued_session_minted [of E w u ip ua rf]
      unfolding touch_issue session_table_ok_def
      by (fastforce simp del: issued_session_simps)
  next
    case (touch_remove ids)
    with \<open>session_table_ok E w\<close> show ?thesis
      by (auto simp: session_table_ok_def map_remove_sessions dest!: remove_sessions_in)
  qed (auto simp: session_table_ok_def map_update_where set_update_where)
qed

lemma session_table_initial: "env_ok E \<Longrightarrow> initial_world w \<Longrightarrow> session_table_ok E w"
  by (simp add: session_table_ok_def initial_world_def)

lemma reachable_table_ok: "env_ok E \<Longrightarrow> auth_reachable E w \<Longrightarrow> session_table_ok E w"
  by (erule session_table.reachable) (rule session_table_initial)

text \<open>In a reachable table a token names at most one session, and it is one the service issued.\<close>

lemma unique_session:
  assumes "session_table_ok E w" "s \<in> set (sessions w)" "s' \<in> set (sessions w)"
    and "s_refreshTokenHash s = s_refreshTokenHash s'"
  shows "s = s'"
  using assms by (auto simp: session_table_ok_def distinct_map inj_on_def)

lemma table_token_issued:
  assumes "session_table_ok E w" "s \<in> set (sessions w)" "s_refreshTokenHash s = hashRefreshToken E tok"
  shows "issued_token E (w_fresh w) tok"
proof -
  from assms obtain tok' where "issued_token E (w_fresh w) tok'" "hashRefreshToken E tok = hashRefreshToken E tok'"
    by (auto simp: session_table_ok_def minted_def)
  with assms(1) show ?thesis by (simp add: session_table_ok_def env_ok_def hashRefreshToken_def sha_inj)
qed

section \<open>Spent refresh tokens\<close>

text \<open>
  A refresh token that was issued and whose session, if a purge has not removed it, is revoked.
\<close>

definition spent :: "env \<Rightarrow> string \<Rightarrow> world \<Rightarrow> bool" where
  "spent E tok w \<longleftrightarrow> env_ok E \<and> issued_token E (w_fresh w) tok \<and>
     (\<forall>s \<in> set (sessions w). s_refreshTokenHash s = hashRefreshToken E tok \<longrightarrow> s_revokedAt s \<noteq> None)"

interpretation spent_token: session_invariant E "spent E tok" for E tok
proof
  fix w w' assume "touch E w w'" and "spent E tok w"
  then show "spent E tok w'"
  proof (cases rule: touch.cases)
    case touch_none
    with \<open>spent E tok w\<close> show ?thesis
      by (auto simp: spent_def same_sessions_def intro: issued_token_mono)
  next
    case (touch_issue u ip ua rf)
    with \<open>spent E tok w\<close> issued_session_fresh_hash [of E w tok u ip ua rf] show ?thesis
      unfolding touch_issue by (auto simp: spent_def intro: issued_token_mono)
  next
    case (touch_remove ids)
    with \<open>spent E tok w\<close> show ?thesis
      by (auto simp: spent_def dest!: remove_sessions_in)
  qed (auto simp: spent_def set_update_where)
qed

text \<open>A spent token is refused, whatever the rest of the state.\<close>

lemma spent_refused:
  assumes "spent E tok w"
  shows "\<exists>e. fst (refresh E tok ip ua w) = Inl e"
proof -
  let ?tx = "refresh_tx E (hashRefreshToken E tok) ip ua w"
  have "(\<exists>e w'. ?tx = (Inl e, w')) \<or> (\<exists>sid uid n w'. ?tx = (Inr (Reuse sid uid n), w'))"
  proof (cases "find_session_by_hash (hashRefreshToken E tok) w")
    case (Some s)
    then have "s_revokedAt s \<noteq> None"
      using assms by (auto simp: spent_def find_session_by_hash_def dest!: find_row_SomeD)
    with Some show ?thesis by (simp add: refresh_tx_def port.andThen_revoke)
  qed (simp add: refresh_tx_def)
  then show ?thesis
    by (auto simp: refresh_def transaction_def andThen_def refresh_finish_def split: option.splits
        prod.splits sum.splits)
qed

lemma spent_forever:
  "spent E tok w \<Longrightarrow> auth_run E w w' \<Longrightarrow> \<exists>e. fst (refresh E tok ip ua w') = Inl e"
  by (rule spent_refused, rule spent_token.run_keeps)

section \<open>Whose a refresh token is, and until when\<close>

text \<open>No handler gives the session of an issued token to another user or moves its expiry.\<close>

definition issued_to :: "env \<Rightarrow> string \<Rightarrow> uuid \<Rightarrow> time \<Rightarrow> world \<Rightarrow> bool" where
  "issued_to E tok uid t w \<longleftrightarrow> env_ok E \<and> issued_token E (w_fresh w) tok \<and>
     (\<forall>s \<in> set (sessions w). s_refreshTokenHash s = hashRefreshToken E tok \<longrightarrow>
        s_userId s = uid \<and> s_expiresAt s = t)"

interpretation token_owner: session_invariant E "issued_to E tok uid t" for E tok uid t
proof
  fix w w' assume "touch E w w'" and "issued_to E tok uid t w"
  then show "issued_to E tok uid t w'"
  proof (cases rule: touch.cases)
    case touch_none
    with \<open>issued_to E tok uid t w\<close> show ?thesis
      by (auto simp: issued_to_def same_sessions_def intro: issued_token_mono)
  next
    case (touch_issue u ip ua rf)
    with \<open>issued_to E tok uid t w\<close> issued_session_fresh_hash [of E w tok u ip ua rf] show ?thesis
      unfolding touch_issue by (auto simp: issued_to_def intro: issued_token_mono)
  next
    case (touch_remove ids)
    with \<open>issued_to E tok uid t w\<close> show ?thesis
      by (auto simp: issued_to_def dest!: remove_sessions_in)
  qed (auto simp: issued_to_def set_update_where)
qed

text \<open>The clock never goes back.\<close>

interpretation clock: session_invariant E "\<lambda>w. t \<le> w_now w" for E t
proof
  fix w w' assume "touch E w w'" and "t \<le> w_now w"
  then show "t \<le> w_now w'"
    by (cases rule: touch.cases) (auto simp: same_sessions_def issued_world_def)
qed

section \<open>Denied access tokens\<close>

text \<open>The denylist answers for the jti until \<open>T\<close>, a time no later than a new entry would last.\<close>

definition denied_until :: "uuid \<Rightarrow> time \<Rightarrow> world \<Rightarrow> bool" where
  "denied_until j T w \<longleftrightarrow> T \<le> w_now w + ACCESS_TOKEN_EXPIRES_MS \<and>
     (\<forall>t \<le> T. cache_get t (jti_key j) (w_cache w) = Some (CNum 1))"

interpretation denied: session_invariant E "denied_until j T" for E j T
proof
  fix w w' assume "touch E w w'" and "denied_until j T w"
  then show "denied_until j T w'"
  proof (cases rule: touch.cases)
    case (touch_deny j')
    with \<open>denied_until j T w\<close> show ?thesis
      by (cases "j' = j") (auto simp: denied_until_def cache_reads)
  qed (auto simp: denied_until_def same_sessions_def)
qed

lemma denied_refused:
  assumes "denied_until j T w" and "w_now w \<le> T" and "jp_jti p = Some j" and "j \<noteq> []"
  shows "\<exists>e. fst (validate p w) = Inl e"
proof -
  have "\<exists>e. check_denylist (Some j) w = (Inl e, w)"
    using assms by (simp add: check_denylist_def andThen_def cacheGet_def denied_until_def)
  then obtain e where "check_denylist (Some j) w = (Inl e, w)" ..
  with assms(3) show ?thesis by (simp add: validate_def andThen_def)
qed

text \<open>
  A token with a denied jti does not authenticate: until \<open>T\<close> because of the denylist, and from
  then on because it has expired, if it was signed no later than 15 minutes before \<open>T\<close>.
\<close>

lemma denied_token_dead:
  assumes jwt: "jwt_ok E" and denied: "denied_until j T w"
    and tok: "tok = e_sign E p ACCESS_TOKEN_EXPIRES t0" "jp_jti p = Some j" "j \<noteq> []"
    and T: "t0 + ACCESS_TOKEN_EXPIRES_MS \<le> T"
  shows "\<exists>e. fst (canActivate E False (Some tok) w) = Inl e"
proof (cases "w_now w \<le> T")
  case True
  from denied_refused [OF denied this tok(2,3)] show ?thesis
  proof (cases "e_verify E tok (w_now w)")
    case (Some q)
    with jwt tok(1) have "q = p" by (auto simp: jwt_ok_def split: if_splits)
    with Some denied_refused [OF denied True tok(2,3)] show ?thesis
      by (auto simp: canActivate_private split: prod.splits sum.splits)
  qed (simp add: canActivate_private)
next
  case False
  with T have "t0 + 900 * 1000 \<le> w_now w" by (simp add: ACCESS_TOKEN_EXPIRES_MS_def)
  then have "\<not> w_now w div 1000 < t0 div 1000 + ACCESS_TOKEN_EXPIRES"
    using zdiv_mono1 [of "t0 + 900 * 1000" "w_now w" 1000] by (simp add: ACCESS_TOKEN_EXPIRES_def)
  with jwt tok(1) have "e_verify E tok (w_now w) = None" by (simp add: jwt_ok_def)
  then show ?thesis by (simp add: canActivate_private)
qed

lemma denied_forever:
  assumes "jwt_ok E" "denied_until j T w" "auth_run E w w'"
    and "tok = e_sign E p ACCESS_TOKEN_EXPIRES t0" "jp_jti p = Some j" "j \<noteq> []"
    and "t0 + ACCESS_TOKEN_EXPIRES_MS \<le> T"
  shows "\<exists>e. fst (canActivate E False (Some tok) w') = Inl e"
  by (rule denied_token_dead [OF assms(1) denied.run_keeps [OF assms(3,2)] assms(4-7)])

section \<open>Cached users\<close>

interpretation user_cache: session_invariant E user_cache_ok for E
proof
  fix w w' assume "touch E w w'" and "user_cache_ok w"
  then show "user_cache_ok w'"
  proof (cases rule: touch.cases)
    case (touch_deny j)
    with \<open>user_cache_ok w\<close> cached_users_put_del(1) show ?thesis by (fastforce simp: user_cache_ok_def)
  qed (auto simp: user_cache_ok_def same_sessions_def)
qed

lemma user_cache_initial: "initial_world w \<Longrightarrow> user_cache_ok w"
  by (simp add: user_cache_ok_def initial_world_def cached_users_def)

lemma reachable_user_cache_ok: "auth_reachable E w \<Longrightarrow> user_cache_ok w"
  by (erule user_cache.reachable) (rule user_cache_initial)

end
