(* ===== verification/Demo_Env.thy ===== *)
theory Demo_Env
  imports World
begin

text \<open>
  One concrete instance of the third-party functions, on which the witnesses evaluate the
  handlers: tokens are written out in full, the hash keeps its input, a uuid is a counter. It
  satisfies every named hypothesis about them.
\<close>

section \<open>Writing fields\<close>

fun write_field :: "string \<Rightarrow> string" where
  "write_field [] = ''.''"
| "write_field (c # s) = CHR ''-'' # c # write_field s"

fun read_field :: "string \<Rightarrow> (string \<times> string) option" where
  "read_field (m # s) = (if m = CHR ''.'' then Some ([], s)
     else (case s of [] \<Rightarrow> None
           | c # rest \<Rightarrow> map_option (\<lambda>(f, r). (c # f, r)) (read_field rest)))"
| "read_field [] = None"

lemma read_write_field [simp]: "read_field (write_field f @ s) = Some (f, s)"
  by (induction f) simp_all

function bits :: "int \<Rightarrow> string" where
  "bits i = (if i \<le> 0 then [] else (if i mod 2 = 1 then CHR ''1'' else CHR ''0'') # bits (i div 2))"
  by auto
termination by (relation "measure nat") auto

declare bits.simps [simp del]

fun unbits :: "string \<Rightarrow> int" where
  "unbits [] = 0"
| "unbits (c # s) = (if c = CHR ''1'' then 1 else 0) + 2 * unbits s"

lemma unbits_bits [simp]: "0 \<le> i \<Longrightarrow> unbits (bits i) = i"
proof (induction i rule: bits.induct)
  case (1 i)
  then show ?case by (subst bits.simps) (auto; presburger)
qed

definition write_int :: "int \<Rightarrow> string" where
  "write_int i = (if 0 \<le> i then CHR ''+'' # bits i else CHR ''m'' # bits (- i))"

fun read_int :: "string \<Rightarrow> int" where
  "read_int [] = 0"
| "read_int (c # s) = (if c = CHR ''+'' then unbits s else - unbits s)"

lemma read_write_int [simp]: "read_int (write_int i) = i"
  by (simp add: write_int_def)

fun write_opt :: "string option \<Rightarrow> string" where
  "write_opt None = []"
| "write_opt (Some s) = CHR ''s'' # s"

fun read_opt :: "string \<Rightarrow> string option" where
  "read_opt [] = None"
| "read_opt (c # s) = Some s"

lemma read_write_opt [simp]: "read_opt (write_opt x) = x"
  by (cases x) simp_all

section \<open>Tokens\<close>

definition demo_sign :: "payload \<Rightarrow> int \<Rightarrow> time \<Rightarrow> string" where
  "demo_sign p lifetime t = concat (map write_field
     [jp_sub p, jp_email p, write_opt (jp_roleId p), jp_tokenType p, write_opt (jp_jti p),
      write_int lifetime, write_int t])"

fun read_fields :: "nat \<Rightarrow> string \<Rightarrow> string list option" where
  "read_fields 0 s = Some []"
| "read_fields (Suc n) s = (case read_field s of None \<Rightarrow> None
     | Some (f, r) \<Rightarrow> map_option (Cons f) (read_fields n r))"

fun payload_of :: "string list \<Rightarrow> (payload \<times> int \<times> time) option" where
  "payload_of [sub, email, role, ty, jti, l, t] =
     Some (\<lparr>jp_sub = sub, jp_email = email, jp_roleId = read_opt role, jp_tokenType = ty,
            jp_jti = read_opt jti\<rparr>, read_int l, read_int t)"
| "payload_of _ = None"

definition demo_verify :: "string \<Rightarrow> time \<Rightarrow> payload option" where
  "demo_verify tok now = (case Option.bind (read_fields 7 tok) payload_of of
     None \<Rightarrow> None
   | Some (p, lifetime, t) \<Rightarrow>
       if demo_sign p lifetime t = tok \<and> now div 1000 < t div 1000 + lifetime then Some p else None)"

lemma demo_read: "Option.bind (read_fields 7 (demo_sign p l t)) payload_of = Some (p, l, t)"
proof -
  have "read_field (write_field f) = Some (f, [])" for f
    using read_write_field [of f "[]"] by simp
  then show ?thesis by (simp add: demo_sign_def eval_nat_numeral)
qed

section \<open>The instance\<close>

definition demo_uuid :: "nat \<Rightarrow> uuid" where
  "demo_uuid n = CHR ''u'' # bits (int n)"

definition demo_pgUuid :: "string \<Rightarrow> bool" where
  "demo_pgUuid s \<longleftrightarrow> take 1 s = ''u''"

definition demo_hash :: "string \<Rightarrow> nat \<Rightarrow> nat \<Rightarrow> string" where
  "demo_hash pw cost salt = CHR ''h'' # pw"

definition demo_compare :: "string \<Rightarrow> string \<Rightarrow> bool" where
  "demo_compare pw h \<longleftrightarrow> h = CHR ''h'' # pw"

definition demo_env :: env where
  "demo_env = \<lparr>e_sign = demo_sign, e_verify = demo_verify, e_sha256 = (\<lambda>s. s),
     e_bcryptCompare = demo_compare, e_bcryptHash = demo_hash, e_uuid = demo_uuid,
     e_pgUuid = demo_pgUuid, e_redisConfigured = True, e_rbacCacheTtl = 300000\<rparr>"

lemma demo_jwt_ok: "jwt_ok demo_env"
  by (auto simp: jwt_ok_def demo_env_def demo_verify_def demo_read split: option.splits if_splits)

lemma demo_sha_ok: "sha_ok demo_env"
  by (simp add: sha_ok_def demo_env_def inj_def)

lemma demo_bcrypt_ok: "bcrypt_ok demo_env"
  by (simp add: bcrypt_ok_def demo_env_def demo_compare_def demo_hash_def)

lemma demo_uuid_ok: "uuid_ok demo_env"
proof -
  have "m = n" if "bits (int m) = bits (int n)" for m n
    using arg_cong [OF that, of unbits] by simp
  then show ?thesis by (auto simp: uuid_ok_def demo_env_def demo_uuid_def demo_pgUuid_def inj_def)
qed

section \<open>A small world\<close>

text \<open>
  Two users of one role, no session, an empty cache, no queue: the state the witnesses start
  from, 1000 seconds after the epoch.
\<close>

definition demo_user :: "uuid \<Rightarrow> string \<Rightarrow> string \<Rightarrow> user" where
  "demo_user uid email pw =
     \<lparr>u_id = uid, u_email = email, u_password = Some (CHR ''h'' # pw), u_name = email,
      u_roleId = Some ''u-r'', u_isActive = True, u_failedLoginAttempts = 0, u_lockedUntil = None,
      u_createdAt = 0, u_updatedAt = 0, u_deletedAt = None\<rparr>"

lemma demo_user_simps [simp]:
  "u_id (demo_user i e pw) = i" "u_email (demo_user i e pw) = e"
  "u_password (demo_user i e pw) = Some (CHR ''h'' # pw)" "u_isActive (demo_user i e pw)"
  "u_failedLoginAttempts (demo_user i e pw) = 0" "u_lockedUntil (demo_user i e pw) = None"
  "u_deletedAt (demo_user i e pw) = None"
  by (simp_all add: demo_user_def)

definition demo_db :: database where
  "demo_db = \<lparr>db_features = [], db_permissions = [],
     db_roles = [\<lparr>r_id = ''u-r'', r_name = ''Viewer'', r_description = None, r_isActive = True,
       r_createdAt = 0, r_updatedAt = 0\<rparr>],
     db_rolePermissions = [],
     db_users = [demo_user ''u-a'' ''ana'' ''pa'', demo_user ''u-b'' ''bob'' ''pb''],
     db_sessions = [], db_auditLogs = []\<rparr>"

definition demo_world :: world where
  "demo_world = \<lparr>w_now = 1000000, w_faults = no_faults, w_fresh = 0, w_db = demo_db,
     w_cache = Map.empty, w_queue = None, w_ctx = None, w_redisEpoch = None,
     w_invalidationEpoch = 0, w_cachedRoleKeys = []\<rparr>"

end
