(* ===== verification/Auth_Properties.thy ===== *)
theory Auth_Properties
  imports Auth_Invariants Demo_Env
begin

text \<open>
  What the authentication handlers guarantee: rotation and reuse of refresh tokens, the end of
  sessions and of access tokens, lockout, and what an authenticated request may count on.
\<close>

section \<open>The outcomes of refresh\<close>

text \<open>The state a successful exchange of the session \<open>s\<close> commits.\<close>

definition rotated_world :: "env \<Rightarrow> session \<Rightarrow> user \<Rightarrow> string option \<Rightarrow> string option \<Rightarrow> world \<Rightarrow> world" where
  "rotated_world E s u ip ua w = snd (mark_rotated (s_id s) (e_uuid E (Suc (Suc (w_fresh w))))
     (issued_world (issued_session E u ip ua (Some (s_id s)) w) w))"

lemma refresh_tx_cases:
  obtains (missing) "find_session_by_hash h w = None"
      "refresh_tx E h ip ua w = (Inl (Unauthorized ''Invalid refresh token''), w)"
  | (rotated) s where "find_session_by_hash h w = Some s" "s_revokedAt s \<noteq> None"
      "truthy (s_rotatedToSessionId s)"
      "refresh_tx E h ip ua w = (Inl (Unauthorized ''Refresh token already rotated''), w)"
  | (reuse) s where "find_session_by_hash h w = Some s" "s_revokedAt s \<noteq> None"
      "\<not> truthy (s_rotatedToSessionId s)"
      "refresh_tx E h ip ua w = (Inr (Reuse (s_id s) (s_userId s)
         (length (active_sessions (s_userId s) (sessions w)))), snd (revokeAllUserSessions (s_userId s) w))"
  | (expired) s where "find_session_by_hash h w = Some s" "s_revokedAt s = None" "s_expiresAt s < w_now w"
      "refresh_tx E h ip ua w = (Inl (Unauthorized ''Refresh token expired''), w)"
  | (denied) s where "find_session_by_hash h w = Some s" "s_revokedAt s = None" "\<not> s_expiresAt s < w_now w"
      "\<not> user_may_refresh (w_now w) (find_user_withDeleted (s_userId s) w)"
      "refresh_tx E h ip ua w = (Inr (Denied (s_userId s) (s_id s)
         (length (active_sessions (s_userId s) (sessions w)))), snd (revokeAllUserSessions (s_userId s) w))"
  | (refused) s where "find_session_by_hash h w = Some s" "s_revokedAt s = None"
      "\<not> s_expiresAt s < w_now w" "user_may_refresh (w_now w) (find_user_withDeleted (s_userId s) w)"
      "\<not> (varchar_ok 45 ip \<and> varchar_ok 512 ua)"
      "refresh_tx E h ip ua w = (Inl (QueryFailed ''22001''), w\<lparr>w_fresh := w_fresh w + 3\<rparr>)"
  | (success) s u where "find_session_by_hash h w = Some s" "s_revokedAt s = None"
      "\<not> s_expiresAt s < w_now w" "find_user_withDeleted (s_userId s) w = Some u"
      "user_may_refresh (w_now w) (Some u)" "varchar_ok 45 ip" "varchar_ok 512 ua"
      "refresh_tx E h ip ua w = (Inr (Success (u_email u) (tp_accessToken (issued_pair E u w))
         (tp_refreshToken (issued_pair E u w)) (context_mismatch_audit s ip ua)), rotated_world E s u ip ua w)"
proof (cases "find_session_by_hash h w")
  case None
  then show ?thesis by (intro missing) (simp_all add: refresh_tx_def)
next
  case (Some s)
  note s = this
  show ?thesis
  proof (cases "s_revokedAt s = None")
    case False
    with s show ?thesis
      by (cases "truthy (s_rotatedToSessionId s)")
         (auto simp: refresh_tx_def port.andThen_revoke intro: rotated reuse)
  next
    case live: True
    show ?thesis
    proof (cases "s_expiresAt s < w_now w")
      case True
      with s live show ?thesis by (intro expired) (simp_all add: refresh_tx_def)
    next
      case unexpired: False
      show ?thesis
      proof (cases "user_may_refresh (w_now w) (find_user_withDeleted (s_userId s) w)")
        case False
        with s live unexpired show ?thesis
          by (intro denied) (simp_all add: refresh_tx_def port.andThen_revoke)
      next
        case True
        then obtain u where u: "find_user_withDeleted (s_userId s) w = Some u"
          by (auto simp: user_may_refresh_def split: option.splits)
        with s live unexpired True show ?thesis
          by (cases "varchar_ok 45 ip \<and> varchar_ok 512 ua")
             (auto simp: refresh_tx_def rotate_session_eq rotated_world_def intro: refused success)
      qed
    qed
  qed
qed

lemma refresh_accepts:
  "e_verify E tok (w_now w) = Some p \<Longrightarrow> jp_tokenType p = ''refresh'' \<Longrightarrow>
     refresh E tok ip ua w = andThen (transaction (refresh_tx E (hashRefreshToken E tok) ip ua))
       (refresh_finish E ip ua) w"
  by (simp add: refresh_def)

lemma refresh_rejects:
  "\<not> (\<exists>p. e_verify E tok (w_now w) = Some p \<and> jp_tokenType p = ''refresh'') \<Longrightarrow>
     \<exists>m. refresh E tok ip ua w = (Inl (Unauthorized m), w)"
  by (auto simp: refresh_def split: option.splits)

lemma finish_success_state:
  "\<exists>w1. refresh_finish E ip ua (Success em a r mm) w =
     (Inr \<lparr>ar_email = em, ar_access_token = a, ar_refresh_token = r\<rparr>, w1) \<and>
     sessions w1 = sessions w \<and> users w1 = users w \<and> w_cache w1 = w_cache w \<and> w_now w1 = w_now w \<and>
     w_fresh w \<le> w_fresh w1"
  by (cases mm) (simp_all add: refresh_finish_def audit.then_continues auditLog_fresh)

lemma refresh_returnsE:
  assumes "refresh E tok ip ua w = (Inr r, w')"
  obtains s u where "find_session_by_hash (hashRefreshToken E tok) w = Some s" "s_revokedAt s = None"
    "\<not> s_expiresAt s < w_now w" "find_user_withDeleted (s_userId s) w = Some u"
    "user_may_refresh (w_now w) (Some u)" "ar_email r = u_email u"
    "ar_access_token r = tp_accessToken (issued_pair E u w)"
    "ar_refresh_token r = tp_refreshToken (issued_pair E u w)"
    "sessions w' = sessions (rotated_world E s u ip ua w)" "w_fresh w + 3 \<le> w_fresh w'"
    "users w' = users w" "w_cache w' = w_cache w" "w_now w' = w_now w"
proof -
  from assms have "\<exists>p. e_verify E tok (w_now w) = Some p \<and> jp_tokenType p = ''refresh''"
    using refresh_rejects [of E tok w ip ua] by fastforce
  then obtain p where p: "e_verify E tok (w_now w) = Some p" "jp_tokenType p = ''refresh''" by blast
  note eq = assms [unfolded refresh_accepts [OF p]]
  show ?thesis
  proof (cases rule: refresh_tx_cases [of "hashRefreshToken E tok" w E ip ua])
    case (success s u)
    obtain w1 where "refresh_finish E ip ua (Success (u_email u) (tp_accessToken (issued_pair E u w))
        (tp_refreshToken (issued_pair E u w)) (context_mismatch_audit s ip ua)) (rotated_world E s u ip ua w) =
        (Inr \<lparr>ar_email = u_email u, ar_access_token = tp_accessToken (issued_pair E u w),
              ar_refresh_token = tp_refreshToken (issued_pair E u w)\<rparr>, w1)"
      and w1: "sessions w1 = sessions (rotated_world E s u ip ua w)" "users w1 = users (rotated_world E s u ip ua w)"
        "w_cache w1 = w_cache (rotated_world E s u ip ua w)" "w_now w1 = w_now (rotated_world E s u ip ua w)"
        "w_fresh (rotated_world E s u ip ua w) \<le> w_fresh w1"
      using finish_success_state by blast
    with eq success(8) have "r = \<lparr>ar_email = u_email u,
        ar_access_token = tp_accessToken (issued_pair E u w),
        ar_refresh_token = tp_refreshToken (issued_pair E u w)\<rparr>" "w' = w1"
      by (simp_all add: transaction_then)
    with success w1 that [of s u] show ?thesis by (simp add: rotated_world_def)
  next
    case (reuse s)
    with eq show ?thesis by (simp add: transaction_then refresh_finish_def audit.then_continues)
  next
    case (denied s)
    with eq show ?thesis by (simp add: transaction_then refresh_finish_def audit.then_continues)
  qed (use eq in \<open>simp_all add: transaction_then\<close>)
qed

section \<open>What ends a refresh token\<close>

lemma find_session_in:
  "find_session_by_hash h w = Some s \<Longrightarrow> s \<in> set (sessions w) \<and> s_refreshTokenHash s = h"
  by (auto simp: find_session_by_hash_def dest!: find_row_SomeD)

lemma rotated_spent:
  assumes ok: "session_table_ok E w" and s: "find_session_by_hash (hashRefreshToken E tok) w = Some s"
    and w': "sessions w' = sessions (rotated_world E s u ip ua w)" "w_fresh w \<le> w_fresh w'"
  shows "spent E tok w'"
proof -
  let ?row = "issued_session E u ip ua (Some (s_id s)) w"
  from ok s have env: "env_ok E" and i: "issued_token E (w_fresh w) tok"
    by (auto simp: session_table_ok_def dest!: find_session_in intro: table_token_issued [OF ok])
  have only: "q = s" if "q \<in> set (sessions w @ [?row])" "s_refreshTokenHash q = hashRefreshToken E tok" for q
    using that issued_session_fresh_hash [OF env i, of u ip ua "Some (s_id s)"] find_session_in [OF s]
      unique_session [OF ok, of q s] by (auto simp del: issued_session_simps)
  have "s_revokedAt q \<noteq> None" if q: "q \<in> set (sessions w')" "s_refreshTokenHash q = hashRefreshToken E tok" for q
  proof -
    from q(1) w'(1) have "q \<in> set (update_where (\<lambda>x. s_id x = s_id s) (\<lambda>x. x\<lparr>s_revokedAt := Some (w_now w),
        s_rotatedToSessionId := Some (e_uuid E (Suc (Suc (w_fresh w))))\<rparr>) (sessions w @ [?row]))"
      by (simp add: rotated_world_def)
    then show ?thesis
    proof (rule in_update_whereE)
      assume "q \<in> set (sessions w @ [?row])" "s_id q \<noteq> s_id s"
      with only [of q] q(2) show ?thesis by blast
    qed simp
  qed
  with env i w'(2) show ?thesis by (auto simp: spent_def intro: issued_token_mono)
qed

lemma revoked_spent:
  assumes ok: "session_table_ok E w" and s: "s \<in> set (sessions w)"
    and h: "s_refreshTokenHash s = hashRefreshToken E tok" and P: "P s \<or> s_revokedAt s \<noteq> None"
    and w': "sessions w' = update_where P (\<lambda>s. s\<lparr>s_revokedAt := Some t\<rparr>) (sessions w)" "w_fresh w \<le> w_fresh w'"
  shows "spent E tok w'"
proof -
  have "s_revokedAt q \<noteq> None" if "q \<in> set (sessions w')" "s_refreshTokenHash q = hashRefreshToken E tok" for q
    using that w'(1) unique_session [OF ok _ s, of q] h P by (auto simp: set_update_where)
  with table_token_issued [OF ok s h] ok w'(2) show ?thesis
    by (auto simp: spent_def session_table_ok_def intro: issued_token_mono)
qed

lemma revokeAll_spent:
  assumes "session_table_ok E w" "s \<in> set (sessions w)" "s_refreshTokenHash s = hashRefreshToken E tok"
    and "s_userId s = uid"
  shows "spent E tok (snd (revokeAllUserSessions uid w))"
  by (rule revoked_spent [OF assms(1-3), where P = "active_session uid"])
     (use assms(4) in \<open>auto simp: revokeAll_eq active_session_def\<close>)

section \<open>Rotation\<close>

text \<open>Two states the witnesses visit: Ana is logged in, and has refreshed once.\<close>

definition demo_login :: "(http_error + auth_result) \<times> world" where
  "demo_login = login demo_env ''ana'' ''pa'' (Some ''10.0.0.1'') None demo_world"

definition demo_token :: string where
  "demo_token = ar_refresh_token (projr (fst demo_login))"

definition demo_refresh :: "(http_error + auth_result) \<times> world" where
  "demo_refresh = refresh demo_env demo_token None None (snd demo_login)"

lemma demo_env_ok: "env_ok demo_env"
  by (simp add: env_ok_def demo_jwt_ok demo_sha_ok demo_uuid_ok)

lemma demo_reachable: "auth_reachable demo_env (snd demo_login)"
proof -
  have "initial_world demo_world" by (simp add: initial_world_def demo_world_def demo_db_def)
  moreover have "auth_run demo_env demo_world (snd demo_login)"
    unfolding demo_login_def by (intro auth_run_single login_step)
  ultimately show ?thesis unfolding auth_reachable_def by blast
qed

lemma demo_table_ok: "session_table_ok demo_env (snd demo_login)"
  by (rule reachable_table_ok [OF demo_env_ok demo_reachable])

lemma demo_refresh_returns: "demo_refresh = (Inr (projr (fst demo_refresh)), snd demo_refresh)"
  by (rule Inr_pair) code_simp

text \<open>
  C1. Refresh tokens are single use: once a refresh token has been exchanged, no later request
  with it succeeds, whatever requests, clock ticks, faults and purges come in between.
\<close>

theorem refresh_token_single_use:
  assumes "env_ok E" and "auth_reachable E w" and "refresh E tok ip ua w = (Inr r, w1)"
    and "auth_run E w1 w2"
  shows "\<exists>e. fst (refresh E tok ip2 ua2 w2) = Inl e"
proof -
  have ok: "session_table_ok E w" by (rule reachable_table_ok [OF assms(1,2)])
  from assms(3) have "spent E tok w1"
    by (rule refresh_returnsE) (use rotated_spent [OF ok] in auto)
  then show ?thesis using assms(4) by (rule spent_forever)
qed

theorem refresh_token_single_use_witness:
  "\<exists>e. fst (refresh demo_env demo_token None None (snd demo_refresh)) = Inl e"
  using refresh_token_single_use [OF demo_env_ok demo_reachable
      demo_refresh_returns [unfolded demo_refresh_def] run_refl]
  by (simp add: demo_refresh_def)

text \<open>
  C9. A successful refresh replaces one session by one. The presented session was not revoked and
  had not expired; it is revoked and points to its successor. The successor belongs to the same
  user, is active for seven days, and records where the request came from. Every other session
  and every user is as it was. What is returned is a pair signed for the successor and its user as
  they are now: an access token for 15 minutes with the session's \<open>accessJti\<close>, and a refresh
  token for seven days with its \<open>jti\<close>, whose hash the session keeps.
\<close>

theorem refresh_rotates:
  assumes "refresh E tok ip ua w = (Inr r, w')"
  shows "\<exists>s u new aj rj. find_session_by_hash (hashRefreshToken E tok) w = Some s \<and>
    s_revokedAt s = None \<and> w_now w \<le> s_expiresAt s \<and>
    find_user_withDeleted (s_userId s) w = Some u \<and> u_deletedAt u = None \<and> u_isActive u \<and>
    \<not> locked_at (w_now w) u \<and> users w' = users w \<and>
    sessions w' = update_where (\<lambda>q. s_id q = s_id s)
      (\<lambda>q. q\<lparr>s_revokedAt := Some (w_now w), s_rotatedToSessionId := Some (s_id new)\<rparr>) (sessions w @ [new]) \<and>
    s_userId new = s_userId s \<and> s_revokedAt new = None \<and> s_rotatedFromSessionId new = Some (s_id s) \<and>
    s_rotatedToSessionId new = None \<and> s_ip new = ip \<and> s_userAgent new = ua \<and>
    s_expiresAt new = w_now w + 7 * ms_per_day \<and>
    s_refreshTokenHash new = hashRefreshToken E (ar_refresh_token r) \<and>
    s_accessJti new = Some aj \<and> s_jti new = Some rj \<and> ar_email r = u_email u \<and>
    ar_access_token r = e_sign E \<lparr>jp_sub = s_userId s, jp_email = u_email u, jp_roleId = u_roleId u,
      jp_tokenType = ''access'', jp_jti = Some aj\<rparr> (15 * 60) (w_now w) \<and>
    ar_refresh_token r = e_sign E \<lparr>jp_sub = s_userId s, jp_email = u_email u, jp_roleId = u_roleId u,
      jp_tokenType = ''refresh'', jp_jti = Some rj\<rparr> (7 * 24 * 60 * 60) (w_now w)"
  using assms
proof (rule refresh_returnsE)
  fix s u
  assume s: "find_session_by_hash (hashRefreshToken E tok) w = Some s" "s_revokedAt s = None" "\<not> s_expiresAt s < w_now w"
    and u: "find_user_withDeleted (s_userId s) w = Some u" "user_may_refresh (w_now w) (Some u)"
    and r: "ar_email r = u_email u" "ar_access_token r = tp_accessToken (issued_pair E u w)"
      "ar_refresh_token r = tp_refreshToken (issued_pair E u w)"
    and w': "sessions w' = sessions (rotated_world E s u ip ua w)" "users w' = users w"
  let ?new = "issued_session E u ip ua (Some (s_id s)) w"
  have "u_id u = s_userId s"
    using u(1) by (auto simp: find_user_withDeleted_def dest!: find_row_SomeD)
  with s u r w' show ?thesis
    by (intro exI [of _ s] exI [of _ u] exI [of _ ?new] exI [of _ "e_uuid E (w_fresh w)"]
        exI [of _ "e_uuid E (Suc (w_fresh w))"])
       (simp add: rotated_world_def user_may_refresh_def issued_session_def new_session_def issued_pair_def
          token_payload_def ACCESS_TOKEN_EXPIRES_def REFRESH_TOKEN_EXPIRES_def REFRESH_TOKEN_DAYS_def)
qed

theorem refresh_rotates_witness:
  "\<exists>s u aj. find_session_by_hash (hashRefreshToken demo_env demo_token) (snd demo_login) = Some s \<and>
     s_revokedAt s = None \<and> find_user_withDeleted (s_userId s) (snd demo_login) = Some u \<and>
     ar_access_token (projr (fst demo_refresh)) = e_sign demo_env \<lparr>jp_sub = s_userId s,
       jp_email = ar_email (projr (fst demo_refresh)), jp_roleId = u_roleId u,
       jp_tokenType = ''access'', jp_jti = Some aj\<rparr> (15 * 60) (w_now (snd demo_login))"
  using refresh_rotates [OF demo_refresh_returns [unfolded demo_refresh_def]]
proof (elim exE conjE, goal_cases)
  case (1 s u new aj rj)
  then show ?case
    by (intro exI [of _ s] exI [of _ u] exI [of _ aj]) (simp add: demo_refresh_def)
qed

section \<open>Reuse, denial and failure\<close>

text \<open>What a mass revocation leaves, as the properties state it.\<close>

definition all_ended :: "uuid \<Rightarrow> world \<Rightarrow> world \<Rightarrow> bool" where
  "all_ended uid w w' \<longleftrightarrow> active_sessions uid (sessions w') = [] \<and>
     (\<forall>v. v \<noteq> uid \<longrightarrow> active_sessions v (sessions w') = active_sessions v (sessions w)) \<and>
     (\<forall>s j t. s \<in> set (active_sessions uid (sessions w)) \<and> s_accessJti s = Some j \<and> j \<noteq> [] \<and>
        \<not> cacheSetFails (w_faults w) (jti_key j) \<and> t \<le> w_now w + ACCESS_TOKEN_EXPIRES_MS \<longrightarrow>
        cache_get t (jti_key j) (w_cache w') = Some (CNum 1))"

lemma revokeAll_ends: "all_ended uid w (snd (revokeAllUserSessions uid w))"
  unfolding all_ended_def
  by (auto simp: port.revoke_active port.revoke_other active_sessions_iff)
     (auto simp: revokeAll_eq denylist_denies)

lemma all_ended_audit: "all_ended uid w (snd (auditLog E e w')) \<longleftrightarrow> all_ended uid w w'"
  by (simp add: all_ended_def)

lemma auditLog_after_revocation:
  "logged E e w (snd (auditLog E e (snd (revokeAllUserSessions uid w))))"
proof -
  let ?v = "snd (revokeAllUserSessions uid w)"
  have "rc_getUserId ?v = rc_getUserId w" "rc_getCorrelationId ?v = rc_getCorrelationId w"
    by (simp_all add: rc_getUserId_def rc_getCorrelationId_def revokeAll_eq)
  then have payload: "buildPayload e ?v = buildPayload e w" by (simp add: buildPayload_def split: option.split)
  have insert: "audit_insert_error E ?v row = audit_insert_error E w row" for row
    by (cases "al_actorUserId row") (simp_all add: audit_insert_error_def)
  have "w_queue ?v = w_queue w" "w_fresh ?v = w_fresh w" "auditLogs ?v = auditLogs w"
    by (simp_all add: revokeAll_eq)
  with auditLog_logged [of E e ?v] show ?thesis
    by (cases "w_queue w") (simp_all add: logged_def payload insert)
qed

text \<open>
  C8. A refresh token whose session was revoked, and not by a rotation, is a stolen or a
  replayed one: the request fails, and the failure commits the revocation of every session of
  the user, with how many they were, to the audit log, and denies their access tokens; other users
  keep their sessions.
\<close>

theorem refresh_reuse_ends_all_sessions:
  assumes "e_verify E tok (w_now w) = Some p" and "jp_tokenType p = ''refresh''"
    and "find_session_by_hash (hashRefreshToken E tok) w = Some s"
    and "s_revokedAt s \<noteq> None" and "\<not> truthy (s_rotatedToSessionId s)"
  shows "fst (refresh E tok ip ua w) =
      Inl (Unauthorized ''Refresh token reuse detected. All sessions have been revoked.'') \<and>
    all_ended (s_userId s) w (snd (refresh E tok ip ua w)) \<and>
    logged E \<lparr>ae_action = ''auth.refresh_token_reuse_detected'', ae_entityType = ''Session'',
        ae_entityId = Some (s_id s), ae_actorUserId = Null, ae_correlationId = None,
        ae_metadata = Some [(''reusedSessionId'', JStr (s_id s)), (''suspectedReuse'', JBool True),
          (''revokedSessionCount'', JNum (int (length (active_sessions (s_userId s) (sessions w)))))],
        ae_ip = ip, ae_userAgent = ua\<rparr> w (snd (refresh E tok ip ua w))"
proof -
  from assms(3-5) have "refresh_tx E (hashRefreshToken E tok) ip ua w = (Inr (Reuse (s_id s) (s_userId s)
      (length (active_sessions (s_userId s) (sessions w)))), snd (revokeAllUserSessions (s_userId s) w))"
    by (auto simp: refresh_tx_def port.andThen_revoke)
  then show ?thesis
    by (simp add: refresh_accepts [OF assms(1,2)] transaction_then refresh_finish_def
        audit.then_continues all_ended_audit revokeAll_ends reuse_entry_def auditLog_after_revocation)
qed

text \<open>Ana logs out with her token, then presents it again.\<close>

definition demo_out :: world where
  "demo_out = snd (logout demo_env ''u-a'' None (Some demo_token) (snd demo_login))"

definition demo_session :: session where
  "demo_session = hd (sessions demo_out)"

lemma demo_token_verifies:
  "e_verify demo_env demo_token (w_now demo_out) = Some (the (demo_verify demo_token 1000000))"
  "jp_tokenType (the (demo_verify demo_token 1000000)) = ''refresh''"
  by code_simp+

lemma demo_out_facts:
  "find_session_by_hash (hashRefreshToken demo_env demo_token) demo_out = Some demo_session"
  "s_revokedAt demo_session \<noteq> None" "\<not> truthy (s_rotatedToSessionId demo_session)"
  by code_simp+

lemma demo_audit_works:
  "w_queue demo_out = None" "audit_insert_error demo_env demo_out (audit_row (demo_uuid (w_fresh demo_out)) (w_now demo_out)
     (buildPayload (reuse_entry (s_id demo_session) 0 None None) demo_out)) = None"
  "active_sessions (s_userId demo_session) (sessions demo_out) = []"
  by code_simp+

theorem refresh_reuse_ends_all_sessions_witness:
  "all_ended (s_userId demo_session) demo_out (snd (refresh demo_env demo_token None None demo_out)) \<and>
   (\<exists>row. auditLogs (snd (refresh demo_env demo_token None None demo_out)) = auditLogs demo_out @ [row] \<and>
     al_action row = ''auth.refresh_token_reuse_detected'' \<and> al_entityId row = Some (s_id demo_session))"
  using refresh_reuse_ends_all_sessions [OF demo_token_verifies demo_out_facts, of None None]
  demo_audit_works
  by (simp add: logged_def Let_def reuse_entry_def audit_row_def buildPayload_def demo_env_def)

text \<open>
  A refresh token whose session was already rotated is only refused: nothing changes, and
  in particular the successor session stays active.
\<close>

theorem refresh_rotated_token_changes_nothing:
  assumes "e_verify E tok (w_now w) = Some p" and "jp_tokenType p = ''refresh''"
    and "find_session_by_hash (hashRefreshToken E tok) w = Some s"
    and "s_revokedAt s \<noteq> None" and "truthy (s_rotatedToSessionId s)"
  shows "refresh E tok ip ua w = (Inl (Unauthorized ''Refresh token already rotated''), w)"
proof -
  from assms(3-5) have "refresh_tx E (hashRefreshToken E tok) ip ua w =
      (Inl (Unauthorized ''Refresh token already rotated''), w)"
    by (auto simp: refresh_tx_def)
  then show ?thesis by (simp add: refresh_accepts [OF assms(1,2)] transaction_then)
qed

definition demo_rotated :: session where
  "demo_rotated = hd (sessions (snd demo_refresh))"

lemma demo_rotated_facts:
  "e_verify demo_env demo_token (w_now (snd demo_refresh)) = Some (the (demo_verify demo_token 1000000))"
  "find_session_by_hash (hashRefreshToken demo_env demo_token) (snd demo_refresh) = Some demo_rotated"
  "s_revokedAt demo_rotated \<noteq> None" "truthy (s_rotatedToSessionId demo_rotated)"
  "active_sessions ''u-a'' (sessions (snd demo_refresh)) \<noteq> []"
  by code_simp+

theorem refresh_rotated_token_changes_nothing_witness:
  "refresh demo_env demo_token None None (snd demo_refresh) =
     (Inl (Unauthorized ''Refresh token already rotated''), snd demo_refresh) \<and>
   active_sessions ''u-a'' (sessions (snd demo_refresh)) \<noteq> []"
  using refresh_rotated_token_changes_nothing [OF demo_rotated_facts(1) demo_token_verifies(2)
      demo_rotated_facts(2-4), of None None] demo_rotated_facts(5) by blast

text \<open>
  C16. A user who is missing, deleted, deactivated or locked gets no new tokens for a refresh token
  that is otherwise good, and the attempt ends all of their sessions and is recorded in the audit log.
\<close>

theorem refresh_denied_user_loses_sessions:
  assumes "e_verify E tok (w_now w) = Some p" and "jp_tokenType p = ''refresh''"
    and "find_session_by_hash (hashRefreshToken E tok) w = Some s"
    and "s_revokedAt s = None" and "w_now w \<le> s_expiresAt s"
    and "\<forall>u. find_row (\<lambda>u. u_id u = s_userId s) (users w) = Some u \<longrightarrow>
      u_deletedAt u \<noteq> None \<or> \<not> u_isActive u \<or> (\<exists>t. u_lockedUntil u = Some t \<and> w_now w < t)"
  shows "fst (refresh E tok ip ua w) = Inl (Unauthorized INVALID_CREDENTIALS_MESSAGE) \<and>
    all_ended (s_userId s) w (snd (refresh E tok ip ua w)) \<and>
    logged E \<lparr>ae_action = ''auth.refresh_denied_invalid_user'', ae_entityType = ''Session'',
        ae_entityId = Some (s_id s), ae_actorUserId = Null, ae_correlationId = None,
        ae_metadata = Some [(''sessionId'', JStr (s_id s)), (''userId'', JStr (s_userId s)),
          (''revokedSessionCount'', JNum (int (length (active_sessions (s_userId s) (sessions w)))))],
        ae_ip = ip, ae_userAgent = ua\<rparr> w (snd (refresh E tok ip ua w))"
proof -
  from assms(6) have "\<not> user_may_refresh (w_now w) (find_user_withDeleted (s_userId s) w)"
    by (auto simp: user_may_refresh_def find_user_withDeleted_def locked_at_def split: option.splits)
  with assms(3-5) have "refresh_tx E (hashRefreshToken E tok) ip ua w = (Inr (Denied (s_userId s) (s_id s)
      (length (active_sessions (s_userId s) (sessions w)))), snd (revokeAllUserSessions (s_userId s) w))"
    by (auto simp: refresh_tx_def port.andThen_revoke)
  then show ?thesis
    by (simp add: refresh_accepts [OF assms(1,2)] transaction_then refresh_finish_def
        audit.then_continues all_ended_audit revokeAll_ends denied_entry_def auditLog_after_revocation)
qed

text \<open>An operator locks Ana's row while she is logged in.\<close>

definition demo_locked :: world where
  "demo_locked = update_user ''u-a'' (\<lambda>u. u\<lparr>u_lockedUntil := Some 1000001\<rparr>) (snd demo_login)"

lemma demo_locked_facts:
  "e_verify demo_env demo_token (w_now demo_locked) = Some (the (demo_verify demo_token 1000000))"
  "find_session_by_hash (hashRefreshToken demo_env demo_token) demo_locked = Some (hd (sessions demo_locked))"
  "s_revokedAt (hd (sessions demo_locked)) = None"
  "w_now demo_locked \<le> s_expiresAt (hd (sessions demo_locked))"
  by code_simp+

lemma demo_locked_user:
  "map_option (\<lambda>u. (u_lockedUntil u, w_now demo_locked))
     (find_row (\<lambda>u. u_id u = s_userId (hd (sessions demo_locked))) (users demo_locked)) =
     Some (Some 1000001, 1000000)"
  by code_simp

theorem refresh_denied_user_loses_sessions_witness:
  "active_sessions (s_userId (hd (sessions demo_locked)))
     (sessions (snd (refresh demo_env demo_token None None demo_locked))) = []"
  using refresh_denied_user_loses_sessions [OF demo_locked_facts(1) demo_token_verifies(2)
      demo_locked_facts(2-4), of None None] demo_locked_user
  by (auto simp: all_ended_def)

text \<open>
  The other errors come before any statement that writes is committed: with any message but the two of
  a revocation, the tables and the cache are what they were.
\<close>

theorem refresh_failure_rolls_back:
  assumes "refresh E tok ip ua w = (Inl e, w')"
    and "e \<noteq> Unauthorized ''Refresh token reuse detected. All sessions have been revoked.''"
    and "e \<noteq> Unauthorized INVALID_CREDENTIALS_MESSAGE"
  shows "w_db w' = w_db w \<and> w_cache w' = w_cache w"
proof (cases "\<exists>p. e_verify E tok (w_now w) = Some p \<and> jp_tokenType p = ''refresh''")
  case False
  with assms(1) refresh_rejects [OF this, of ip ua] show ?thesis by auto
next
  case True
  then obtain p where p: "e_verify E tok (w_now w) = Some p" "jp_tokenType p = ''refresh''" by blast
  note eq = assms(1) [unfolded refresh_accepts [OF p] transaction_then]
  show ?thesis
  proof (cases rule: refresh_tx_cases [of "hashRefreshToken E tok" w E ip ua])
    case (success s u)
    obtain a r mm where "fst (refresh_tx E (hashRefreshToken E tok) ip ua w) = Inr (Success (u_email u) a r mm)"
      using success by simp
    with eq success finish_success_state [of E ip ua "u_email u" a r mm "rotated_world E s u ip ua w"]
    show ?thesis by auto
  qed (use eq assms(2,3) in \<open>auto simp: refresh_finish_def audit.then_continues\<close>)
qed

text \<open>An address that the column cannot hold.\<close>

theorem refresh_failure_rolls_back_witness:
  "w_db (snd (refresh demo_env demo_token (Some (replicate 46 CHR ''1'')) None (snd demo_login))) =
   w_db (snd demo_login)"
proof -
  have r: "fst (refresh demo_env demo_token (Some (replicate 46 CHR ''1'')) None (snd demo_login)) =
      Inl (QueryFailed ''22001'')" by code_simp
  show ?thesis
    using refresh_failure_rolls_back [of demo_env demo_token "Some (replicate 46 CHR ''1'')" None
        "snd demo_login" "QueryFailed ''22001''"] r
    by (metis http_error.simps prod.collapse)
qed

section \<open>Logout, password change, deactivation\<close>

text \<open>
  C15. Logging out with a refresh token ends it for good: the token of the user's session is
  refused on any later run, even if the session row is purged.
\<close>

theorem logout_ends_refresh_token:
  assumes "env_ok E" and "auth_reachable E w" and "s \<in> set (sessions w)"
    and "s_refreshTokenHash s = hashRefreshToken E tok" and "tok \<noteq> []"
    and "logout E (s_userId s) j (Some tok) w = (Inr (), w1)" and "auth_run E w1 w2"
  shows "\<exists>e. fst (refresh E tok ip ua w2) = Inl e"
proof -
  have ok: "session_table_ok E w" by (rule reachable_table_ok [OF assms(1,2)])
  have "w_fresh w1 = w_fresh w" "sessions w1 = update_where
      (\<lambda>q. active_session (s_userId s) q \<and> s_refreshTokenHash q = hashRefreshToken E tok)
      (\<lambda>q. q\<lparr>s_revokedAt := Some (w_now w)\<rparr>) (sessions w)"
    using assms(5,6)
    by (auto simp: logout_def denylist_own_token_def cacheSet_def andThen_def
        revokeSessionByRefreshHash_def revoke_where_def split: if_splits)
  with assms(3,4) have "spent E tok w1"
    by (intro revoked_spent [OF ok, of s tok]) (auto simp: active_session_def)
  then show ?thesis using assms(7) by (rule spent_forever)
qed

lemma demo_login_session:
  "hd (sessions (snd demo_login)) \<in> set (sessions (snd demo_login))"
  "s_refreshTokenHash (hd (sessions (snd demo_login))) = hashRefreshToken demo_env demo_token"
  "demo_token \<noteq> []" "s_userId (hd (sessions (snd demo_login))) = ''u-a''"
  "\<not> isl (fst (logout demo_env ''u-a'' None (Some demo_token) (snd demo_login)))"
  by code_simp+

theorem logout_ends_refresh_token_witness:
  "\<exists>e. fst (refresh demo_env demo_token None None demo_out) = Inl e"
proof -
  have "logout demo_env (s_userId (hd (sessions (snd demo_login)))) None (Some demo_token) (snd demo_login) =
      (Inr (), demo_out)"
    using Inr_unit [OF demo_login_session(5)] by (simp add: demo_login_session(4) demo_out_def)
  from logout_ends_refresh_token [OF demo_env_ok demo_reachable demo_login_session(1-3) this run_refl]
  show ?thesis .
qed

text \<open>
  C24. Logging out ends the access token of the request: an access token the service signed for
  15 minutes never authenticates again, on any later run. Until it expires the denylist
  refuses it, also when the cache cannot be read.
\<close>

theorem logout_ends_access_token:
  assumes "jwt_ok E" and "tok = e_sign E p ACCESS_TOKEN_EXPIRES t0" and "jp_jti p = Some j" and "j \<noteq> []"
    and "t0 \<le> w_now w" and "logout E uid (Some j) rt w = (Inr (), w1)" and "auth_run E w1 w2"
  shows "\<exists>e. fst (canActivate E False (Some tok) w2) = Inl e"
proof -
  have "denied_until j (w_now w + ACCESS_TOKEN_EXPIRES_MS) w1"
    using assms(4,6)
    by (auto simp: logout_def denylist_own_token_def cacheSet_def andThen_def denied_until_def
        revokeSessionByRefreshHash_def revoke_where_def cache_reads split: if_splits)
  from denied_forever [OF assms(1) this assms(7,2,3,4)] assms(5) show ?thesis by simp
qed

definition demo_access_payload :: payload where
  "demo_access_payload = the (demo_verify (ar_access_token (projr (fst demo_login))) 1000000)"

lemma demo_access:
  "ar_access_token (projr (fst demo_login)) = e_sign demo_env demo_access_payload ACCESS_TOKEN_EXPIRES 1000000"
  "jp_jti demo_access_payload = Some (demo_uuid 0)" "1000000 \<le> w_now (snd demo_login)"
  "\<not> isl (fst (canActivate demo_env False (Some (ar_access_token (projr (fst demo_login)))) (snd demo_login)))"
  "\<not> isl (fst (logout demo_env ''u-a'' (Some (demo_uuid 0)) None (snd demo_login)))"
  by code_simp+

theorem logout_ends_access_token_witness:
  "\<exists>e. fst (canActivate demo_env False (Some (ar_access_token (projr (fst demo_login))))
     (snd (logout demo_env ''u-a'' (Some (demo_uuid 0)) None (snd demo_login)))) = Inl e"
  using logout_ends_access_token [OF demo_jwt_ok demo_access(1,2) _ demo_access(3)
      Inr_unit [OF demo_access(5)] run_refl]
  by (simp add: demo_uuid_def)

text \<open>
  Cut off: no session of the user is active, no refresh token of theirs is exchanged on any later
  run, and the access tokens of their sessions never authenticate again, those excepted
  whose denylist entry the cache refused.
\<close>

definition refresh_dead :: "env \<Rightarrow> string \<Rightarrow> world \<Rightarrow> bool" where
  "refresh_dead E tok w \<longleftrightarrow>
     (\<forall>w2 ip ua. auth_run E w w2 \<longrightarrow> (\<exists>e. fst (refresh E tok ip ua w2) = Inl e))"

definition access_dead :: "env \<Rightarrow> string \<Rightarrow> world \<Rightarrow> bool" where
  "access_dead E tok w \<longleftrightarrow>
     (\<forall>w2. auth_run E w w2 \<longrightarrow> (\<exists>e. fst (canActivate E False (Some tok) w2) = Inl e))"

definition cut_off :: "env \<Rightarrow> uuid \<Rightarrow> world \<Rightarrow> world \<Rightarrow> bool" where
  "cut_off E uid w w' \<longleftrightarrow> active_sessions uid (sessions w') = [] \<and>
     (\<forall>s tok. s \<in> set (sessions w) \<and> s_userId s = uid \<and>
        s_refreshTokenHash s = hashRefreshToken E tok \<longrightarrow> refresh_dead E tok w') \<and>
     (\<forall>s j p t0. s \<in> set (active_sessions uid (sessions w)) \<and> s_accessJti s = Some j \<and>
        \<not> cacheSetFails (w_faults w) (jti_key j) \<and> jp_jti p = Some j \<and> t0 \<le> w_now w \<longrightarrow>
        access_dead E (e_sign E p ACCESS_TOKEN_EXPIRES t0) w')"

lemma mass_revocation_cuts_off:
  assumes ok: "session_table_ok E w"
  shows "cut_off E uid w (snd (revokeAllUserSessions uid w))"
  unfolding cut_off_def refresh_dead_def access_dead_def
proof (intro conjI allI impI, goal_cases)
  case 1
  show ?case by (rule port.revoke_active)
next
  case (2 s tok w2 ip ua)
  then show ?case by (intro spent_forever [OF revokeAll_spent]) (use ok in auto)
next
  case (3 s j p t0 w2)
  with ok obtain n where "j = e_uuid E n"
    by (force simp: session_table_ok_def minted_def active_sessions_iff)
  with ok have j: "j \<noteq> []" by (simp add: session_table_ok_def env_ok_def uuid_ok_def)
  with 3 have "denied_until j (w_now w + ACCESS_TOKEN_EXPIRES_MS) (snd (revokeAllUserSessions uid w))"
    by (auto simp: denied_until_def revokeAll_eq active_sessions_iff intro!: denylist_denies)
  from denied_forever [OF _ this _ refl _ j] 3 ok show ?case
    by (auto simp: session_table_ok_def env_ok_def)
qed

text \<open>Changing other tables and the user keys first makes no difference.\<close>

lemma cut_off_after_quiet:
  assumes "session_table_ok E w" and "same_sessions w w0" and "w_faults w0 = w_faults w"
  shows "cut_off E uid w (snd (revokeAllUserSessions uid w0))"
proof -
  have "session_table_ok E w0"
    by (rule session_table.touches_keeps [OF touches_quiet [OF assms(2)] assms(1)])
  from mass_revocation_cuts_off [OF this, of uid] assms(2,3) show ?thesis
    by (auto simp: cut_off_def same_sessions_def)
qed

lemma changePassword_returnsE:
  assumes "changePassword E uid old new w = (Inr v, w1)"
  obtains u w0 where "users_findByIdWithPassword uid w = Some u" "w1 = snd (revokeAllUserSessions uid w0)"
    "same_sessions w w0" "w_faults w0 = w_faults w"
    "users_findByIdWithPassword uid w1 = Some (u\<lparr>u_password := Some (e_bcryptHash E new 12 (w_fresh w)),
       u_updatedAt := w_now w\<rparr>)"
proof -
  from assms obtain u where u: "users_findByIdWithPassword uid w = Some u"
    by (auto simp: changePassword_def split: option.splits)
  let ?v = "w\<lparr>w_fresh := Suc (w_fresh w)\<rparr>"
  let ?h = "e_bcryptHash E new 12 (w_fresh w)"
  let ?w0 = "(update_user uid (\<lambda>u. u\<lparr>u_password := Some ?h\<rparr>) ?v)\<lparr>w_cache := cache_del (user_key uid) (w_cache w)\<rparr>"
  have w1: "w1 = snd (revokeAllUserSessions uid ?w0)"
    using assms u
    by (auto simp: changePassword_def compare_password_def hash_password_def users_updatePassword_def
        invalidateUserCache_def cacheDel_def andThen_def revokeAll_eq split: if_splits option.splits)
  moreover have "same_sessions w ?w0" by (simp add: same_sessions_def cache_reads)
  moreover have "users_findByIdWithPassword uid w1 = Some (u\<lparr>u_password := Some ?h, u_updatedAt := w_now w\<rparr>)"
  proof -
    have "users w1 = users (update_user uid (\<lambda>u. u\<lparr>u_password := Some ?h\<rparr>) ?v)" by (simp add: w1)
    then have "users_findByIdWithPassword uid w1 =
        users_findByIdWithPassword uid (update_user uid (\<lambda>u. u\<lparr>u_password := Some ?h\<rparr>) ?v)"
      by (simp add: users_findByIdWithPassword_def)
    moreover have "users_findByIdWithPassword uid ?v = Some u" using u by (simp add: users_findByIdWithPassword_def)
    ultimately show ?thesis
      using findByIdWithPassword_id [OF u] by (simp add: findByIdWithPassword_update_user)
  qed
  ultimately show ?thesis using u that by simp
qed

text \<open>
  C6. A password change cuts the user off: every session ends, their refresh tokens and the
  access tokens of the ended sessions stop working for good, and the stored hash is one that the
  new password matches.
\<close>

theorem changePassword_cuts_off:
  assumes "env_ok E" and "bcrypt_ok E" and "auth_reachable E w"
    and "changePassword E uid old new w = (Inr v, w1)"
  shows "cut_off E uid w w1 \<and> (\<exists>u h. users_findByIdWithPassword uid w1 = Some u \<and>
    u_password u = Some h \<and> e_bcryptCompare E new h)"
  using assms(4)
proof (rule changePassword_returnsE)
  fix u w0
  assume "w1 = snd (revokeAllUserSessions uid w0)" "same_sessions w w0" "w_faults w0 = w_faults w"
    and "users_findByIdWithPassword uid w1 = Some (u\<lparr>u_password := Some (e_bcryptHash E new 12 (w_fresh w)),
       u_updatedAt := w_now w\<rparr>)"
  with cut_off_after_quiet [OF reachable_table_ok [OF assms(1,3)]] assms(2) show ?thesis
    by (simp add: bcrypt_ok_def)
qed

lemma demo_changes: "\<not> isl (fst (changePassword demo_env ''u-a'' ''pa'' ''new'' (snd demo_login)))"
  by code_simp

theorem changePassword_cuts_off_witness:
  "cut_off demo_env ''u-a'' (snd demo_login) (snd (changePassword demo_env ''u-a'' ''pa'' ''new'' (snd demo_login)))"
  using changePassword_cuts_off [OF demo_env_ok demo_bcrypt_ok demo_reachable Inr_pair [OF demo_changes]]
  by blast

text \<open>
  C7. Deactivating a user cuts them off, and at once: the access tokens that are still within
  their lifetime are refused by the next request already, because the cached user is dropped with
  the row's update. (Of the memory tiers of other instances the model says nothing.)
\<close>

theorem deactivation_cuts_off:
  assumes "env_ok E" and "auth_reachable E w" and "setUserActive uid False w = (Inr v, w1)"
  shows "cut_off E uid w w1 \<and> (\<forall>p. jp_sub p = uid \<longrightarrow> (\<exists>e. fst (validate p w1) = Inl e))"
proof -
  from assms(3) have found: "users_findById uid w \<noteq> None"
    by (auto simp: setUserActive_def split: if_splits)
  with assms(3) have alive: "\<not> cacheDelFails (w_faults w) (user_key uid)"
    by (auto simp: setUserActive_def andThen_def setActive_cases split: if_splits)
  from setUserActive_eq [OF found alive] assms(3)
  have w1: "w1 = snd (revokeAllUserSessions uid (activated uid False w))" by simp
  have "same_sessions w (activated uid False w)" "w_faults (activated uid False w) = w_faults w"
    by (simp_all add: activated_def same_sessions_def cache_reads)
  then have "cut_off E uid w w1"
    unfolding w1 by (intro cut_off_after_quiet reachable_table_ok assms(1,2))
  moreover have "\<exists>e. fst (validate p w1) = Inl e" if sub: "jp_sub p = uid" for p
  proof (rule ccontr)
    assume "\<not> ?thesis"
    then obtain u j w2 where v: "validate p w1 = (Inr (u, j), w2)"
      by (metis fst_conv prod.exhaust_sel sum.exhaust)
    then obtain w3 where l: "load_user uid w1 = (Inr u, w3)" and active: "u_isActive u"
      using sub by (auto elim: validateE)
    have "users w1 = users (activated uid False w)" by (simp add: w1)
    then have row: "users_findById uid w1 = map_option (\<lambda>u. without_password (u\<lparr>u_isActive := False, u_updatedAt := w_now w\<rparr>))
        (users_findByIdWithPassword uid w)"
      using findByIdWithPassword_update_user [of "\<lambda>u. u\<lparr>u_isActive := False\<rparr>" uid uid w]
      by (cases "users_findByIdWithPassword uid w")
         (auto simp: findById_eq users_findByIdWithPassword_def [of _ w1] users_findByIdWithPassword_def [of _ "update_user _ _ _"]
           activated_def dest: findByIdWithPassword_id)
    have "cache_get (w_now w1) (user_key uid) (w_cache w1) = None"
      by (simp add: w1 revokeAll_eq denylist_keeps_user_keys) (simp add: activated_def cache_reads)
    with l row active show False
      by (auto simp: load_user_def andThen_def cacheGet_def cacheSet_def split: if_splits option.splits)
  qed
  ultimately show ?thesis by blast
qed

lemma demo_deactivates: "\<not> isl (fst (setUserActive ''u-a'' False (snd demo_login)))"
  by code_simp

theorem deactivation_cuts_off_witness:
  "cut_off demo_env ''u-a'' (snd demo_login) (snd (setUserActive ''u-a'' False (snd demo_login)))"
  using deactivation_cuts_off [OF demo_env_ok demo_reachable Inr_pair [OF demo_deactivates]] by blast

text \<open>
  C20. Logging out everywhere cuts the user off, and the access token of the request itself
  stops working for good too.
\<close>

theorem logoutAll_cuts_off:
  assumes "env_ok E" and "auth_reachable E w" and "logoutAll uid (Some j) w = (Inr (), w1)" and "j \<noteq> []"
  shows "cut_off E uid w w1 \<and> (\<forall>p t0. jp_jti p = Some j \<and> t0 \<le> w_now w \<longrightarrow>
    access_dead E (e_sign E p ACCESS_TOKEN_EXPIRES t0) w1)"
proof -
  let ?w0 = "w\<lparr>w_cache := cache_put (w_now w) (jti_key j) (CNum 1) ACCESS_TOKEN_EXPIRES_MS (w_cache w)\<rparr>"
  have w1: "w1 = snd (revokeAllUserSessions uid ?w0)"
    using assms(3,4)
    by (auto simp: logoutAll_def denylist_own_token_def cacheSet_def andThen_def revokeAll_eq split: if_splits)
  have ok: "session_table_ok E w" by (rule reachable_table_ok [OF assms(1,2)])
  then have "session_table_ok E ?w0" by (rule session_table.touch_keeps [OF touch_deny])
  from mass_revocation_cuts_off [OF this, of uid] have "cut_off E uid w w1"
    unfolding w1 by (auto simp: cut_off_def)
  moreover have "denied_until j (w_now w + ACCESS_TOKEN_EXPIRES_MS) ?w0"
    by (simp add: denied_until_def cache_reads)
  then have "denied_until j (w_now w + ACCESS_TOKEN_EXPIRES_MS) w1"
    unfolding w1 by (rule denied.handler_keeps [OF refines_revokeAll])
  then have "access_dead E (e_sign E p ACCESS_TOKEN_EXPIRES t0) w1" if "jp_jti p = Some j" "t0 \<le> w_now w" for p t0
    using denied_forever [of E j _ w1 _ _ p t0] assms(1,4) that by (auto simp: access_dead_def env_ok_def)
  ultimately show ?thesis by blast
qed

lemma demo_logoutAll: "\<not> isl (fst (logoutAll ''u-a'' (Some (demo_uuid 0)) (snd demo_login)))"
  by code_simp

theorem logoutAll_cuts_off_witness:
  "cut_off demo_env ''u-a'' (snd demo_login) (snd (logoutAll ''u-a'' (Some (demo_uuid 0)) (snd demo_login)))"
  using logoutAll_cuts_off [OF demo_env_ok demo_reachable Inr_unit [OF demo_logoutAll]]
  by (simp add: demo_uuid_def)

end
