(* ===== verification/Login_Properties.thy ===== *)
theory Login_Properties
  imports Auth_Properties
begin

text \<open>
  What login and authentication guarantee: the session a login issues, the lockout of an account,
  the errors a client can tell apart, and what an authenticated request may count on.
\<close>

section \<open>Login\<close>

text \<open>A successful login, step by step: the row it found, and the session it adds.\<close>

lemma login_returnsE:
  assumes "login E email pw ip ua w = (Inr r, w')"
  obtains u h where "users_findOneWithPassword email w = Some u" "u_isActive u" "\<not> locked_at (w_now w) u"
    "u_password u = Some h" "e_bcryptCompare E pw h"
    "r = \<lparr>ar_email = u_email u, ar_access_token = tp_accessToken (issued_pair E u w),
      ar_refresh_token = tp_refreshToken (issued_pair E u w)\<rparr>"
    "sessions w' = sessions w @ [issued_session E u ip ua None w]" "w_now w' = w_now w"
    "users w' = users (update_user (u_id u) (\<lambda>u. u\<lparr>u_failedLoginAttempts := 0, u_lockedUntil := None\<rparr>) w)"
proof -
  from assms obtain u where u: "users_findOneWithPassword email w = Some u" "u_isActive u" "\<not> locked_at (w_now w) u"
    by (auto simp: login_def split: option.splits if_splits)
  let ?w1 = "(update_user (u_id u) (\<lambda>u. u\<lparr>u_failedLoginAttempts := 0, u_lockedUntil := None\<rparr>) w)
    \<lparr>w_cache := cache_del (user_key (u_id u)) (w_cache w)\<rparr>"
  note eq = assms [unfolded login_def u(1) option.case, simplified u(2,3), simplified]
  from eq obtain h where h: "u_password u = Some h" "e_bcryptCompare E pw h"
    by (cases "u_password u")
       (auto simp: compare_password_def andThen_def split: if_splits prod.splits sum.splits)
  with eq have "createTokensAndSession E u ip ua ?w1 = (Inr r, w')"
    by (auto simp: compare_password_def users_resetFailedLogin_def invalidateUserCache_def
        cacheDel_def andThen_def split: if_splits)
  moreover have "issued_pair E u ?w1 = issued_pair E u w" "issued_session E u ip ua None ?w1 = issued_session E u ip ua None w"
    by (simp_all add: issued_pair_def issued_session_def)
  ultimately show ?thesis
    using that [OF u h]
    by (auto simp: createTokensAndSession_def issue_eq audit.then_continues split: if_splits)
qed

text \<open>
  C11. A login that succeeds is one with the right password of an active, unlocked account. It
  resets the failure counter, adds exactly one session, for seven days, and returns an access and a
  refresh token of that session, which verify to the user's id for 15 minutes and for
  seven days.
\<close>

theorem login_issues_session:
  assumes "jwt_ok E" and "login E email pw ip ua w = (Inr r, w')"
  shows "\<exists>u h s. users_findOneWithPassword email w = Some u \<and> u_isActive u \<and> \<not> locked_at (w_now w) u \<and>
    u_password u = Some h \<and> e_bcryptCompare E pw h \<and>
    map u_failedLoginAttempts (filter (\<lambda>q. u_id q = u_id u) (users w')) =
      map (\<lambda>_. 0) (filter (\<lambda>q. u_id q = u_id u) (users w)) \<and>
    sessions w' = sessions w @ [s] \<and> s_userId s = u_id u \<and> s_revokedAt s = None \<and>
    s_expiresAt s = w_now w + 7 * ms_per_day \<and> s_ip s = ip \<and> s_userAgent s = ua \<and>
    s_refreshTokenHash s = hashRefreshToken E (ar_refresh_token r) \<and>
    (\<forall>t. w_now w \<le> t \<longrightarrow>
      e_verify E (ar_access_token r) t = (if t div 1000 < w_now w div 1000 + 900
        then Some (token_payload u ''access'' (the (s_accessJti s))) else None) \<and>
      e_verify E (ar_refresh_token r) t = (if t div 1000 < w_now w div 1000 + 604800
        then Some (token_payload u ''refresh'' (the (s_jti s))) else None))"
  using assms(2)
proof (rule login_returnsE)
  fix u h
  assume u: "users_findOneWithPassword email w = Some u" "u_isActive u" "\<not> locked_at (w_now w) u"
    "u_password u = Some h" "e_bcryptCompare E pw h"
    and r: "r = \<lparr>ar_email = u_email u, ar_access_token = tp_accessToken (issued_pair E u w),
      ar_refresh_token = tp_refreshToken (issued_pair E u w)\<rparr>"
    and s: "sessions w' = sessions w @ [issued_session E u ip ua None w]"
    and us: "users w' = users (update_user (u_id u) (\<lambda>u. u\<lparr>u_failedLoginAttempts := 0, u_lockedUntil := None\<rparr>) w)"
  have "map u_failedLoginAttempts (filter (\<lambda>q. u_id q = u_id u) (users w')) =
      map (\<lambda>_. 0) (filter (\<lambda>q. u_id q = u_id u) (users w))"
    unfolding us update_user_def set_table_simps
    by (induction "users w") (simp_all add: row_simps update_where_def comp_def filter_map)
  moreover have "s_jti (issued_session E u ip ua None w) = Some (e_uuid E (Suc (w_fresh w)))"
    by (simp add: issued_session_def new_session_def issued_pair_def)
  ultimately show ?thesis
    using u r s assms(1)
    by (intro exI [of _ u] exI [of _ h] exI [of _ "issued_session E u ip ua None w"])
       (simp add: issued_pair_def jwt_ok_def ACCESS_TOKEN_EXPIRES_def REFRESH_TOKEN_EXPIRES_def
         REFRESH_TOKEN_DAYS_def)
qed

lemma demo_login_returns: "\<not> isl (fst demo_login)"
  by code_simp

theorem login_issues_session_witness:
  "\<exists>s. sessions (snd demo_login) = sessions demo_world @ [s]"
  using login_issues_session [OF demo_jwt_ok Inr_pair [OF demo_login_returns, unfolded demo_login_def]]
  by (auto simp: demo_login_def)

section \<open>Lockout\<close>

text \<open>Attempts to log in to one account, each some time after the one before.\<close>

fun attempts :: "env \<Rightarrow> string \<Rightarrow> (int \<times> string) list \<Rightarrow> world \<Rightarrow> world" where
  "attempts E email [] w = w"
| "attempts E email ((d, pw) # xs) w =
     attempts E email xs (snd (login E email pw None None (w\<lparr>w_now := w_now w + d\<rparr>)))"

lemma findOneWithPassword_update_user:
  assumes "\<And>u. u_email (f u) = u_email u" "\<And>u. u_deletedAt (f u) = u_deletedAt u"
  shows "users_findOneWithPassword email (update_user uid f w) =
    map_option (\<lambda>u. if u_id u = uid then (f u)\<lparr>u_updatedAt := w_now w\<rparr> else u)
      (users_findOneWithPassword email w)"
  unfolding users_findOneWithPassword_def update_user_def set_table_simps
  by (rule find_row_update_where) (simp add: visible_user_def assms)

lemma found_by_id:
  assumes "users_findOneWithPassword email w = Some u" and "distinct (map u_id (users w))"
  shows "users_findByIdWithPassword (u_id u) w = Some u"
proof -
  have u: "u \<in> set (users w)" "u_deletedAt u = None"
    using assms(1) by (auto simp: users_findOneWithPassword_def visible_user_def dest!: find_row_SomeD)
  have "q = u" if "q \<in> set (users w)" "u_id q = u_id u" for q
    using that u(1) assms(2) by (auto simp: distinct_map inj_on_def)
  with u show ?thesis
    unfolding users_findByIdWithPassword_def
    by (cases "find_row (visible_user (\<lambda>q. u_id q = u_id u)) (users w)")
       (auto simp: find_row_None_iff visible_user_def dest!: find_row_SomeD)
qed

lemma lockout_body_state:
  assumes "users_findByIdWithPassword uid w = Some u"
  shows "snd (recordFailedLogin_body uid w) =
    (let w1 = update_user uid (\<lambda>u. u\<lparr>u_failedLoginAttempts := Suc (u_failedLoginAttempts u)\<rparr>) w in
     if LOCKOUT_THRESHOLD \<le> Suc (u_failedLoginAttempts u) \<and>
        (case u_lockedUntil u of None \<Rightarrow> True | Some t \<Rightarrow> t \<le> w_now w)
     then update_user uid (\<lambda>u. u\<lparr>u_lockedUntil := Some (w_now w + LOCKOUT_DURATION_MS)\<rparr>) w1 else w1)"
  using assms findByIdWithPassword_id [OF assms]
  by (auto simp: recordFailedLogin_body_def Let_def findById_eq findByIdWithPassword_update_user)

lemma unique_row:
  "users_findByIdWithPassword uid w = Some u \<Longrightarrow> distinct (map u_id (users w)) \<Longrightarrow>
     q \<in> set (users w) \<Longrightarrow> u_id q = uid \<Longrightarrow> q = u"
  by (drule findByIdWithPassword_id) (auto simp: distinct_map inj_on_def)

lemma lockout_body_users:
  assumes "users_findByIdWithPassword uid w = Some u" and "distinct (map u_id (users w))"
  shows "users (snd (recordFailedLogin_body uid w)) =
    update_where (\<lambda>q. u_id q = uid) (lockout_step (w_now w)) (users w)"
proof -
  have "u_lockedUntil q = u_lockedUntil u \<and> u_failedLoginAttempts q = u_failedLoginAttempts u"
    if "q \<in> set (users w)" "u_id q = uid" for q
    using unique_row [OF assms that] by simp
  then show ?thesis
    unfolding lockout_body_state [OF assms(1)] Let_def update_user_def update_where_def
    by (auto simp: lockout_step_def Let_def split: option.splits)
qed

lemma lockout_step_simps [simp]:
  "u_id (lockout_step t u) = u_id u" "u_email (lockout_step t u) = u_email u"
  "u_deletedAt (lockout_step t u) = u_deletedAt u" "u_isActive (lockout_step t u) = u_isActive u"
  "u_password (lockout_step t u) = u_password u"
  "u_failedLoginAttempts (lockout_step t u) = Suc (u_failedLoginAttempts u)"
  by (simp_all add: lockout_step_def Let_def)

text \<open>One wrong password, whatever the cache and the audit log do.\<close>

lemma wrong_login:
  assumes u: "users_findOneWithPassword email w = Some u" "u_isActive u" "\<not> locked_at (w_now w) u"
    and pw: "u_password u = Some h" "\<not> e_bcryptCompare E pw h" and ids: "distinct (map u_id (users w))"
  shows "isl (fst (login E email pw ip ua w))"
    and "users_findOneWithPassword email (snd (login E email pw ip ua w)) = Some (lockout_step (w_now w) u)"
    and "distinct (map u_id (users (snd (login E email pw ip ua w))))"
    and "sessions (snd (login E email pw ip ua w)) = sessions w"
    and "w_now (snd (login E email pw ip ua w)) = w_now w"
proof -
  let ?uid = "u_id u" and ?l = "lockout_step (w_now w) u" and ?b = "recordFailedLogin_body (u_id u) w"
  note id = found_by_id [OF u(1) ids]
  let ?r = "users_recordFailedLogin ?uid w"
  have tx: "transaction (recordFailedLogin_body ?uid) w = (Inr (Suc (u_failedLoginAttempts u), u_lockedUntil ?l), snd ?b)"
    using recordFailedLogin_body_result [OF id] by (cases ?b) (simp add: transaction_def)
  have "fst ?r \<in> {Inl (CacheFailure (user_key ?uid)), Inr (Suc (u_failedLoginAttempts u), u_lockedUntil ?l)}"
    "w_db (snd ?r) = w_db (snd ?b)" "w_now (snd ?r) = w_now (snd ?b)"
    by (cases "cacheDelFails (w_faults (snd ?b)) (user_key ?uid)";
        simp add: users_recordFailedLogin_def andThen_def tx invalidateUserCache_def cacheDel_def)+
  then obtain w1 where r: "?r = (Inl (CacheFailure (user_key ?uid)), w1) \<or>
      ?r = (Inr (Suc (u_failedLoginAttempts u), u_lockedUntil ?l), w1)"
    and w1: "w_db w1 = w_db (snd ?b)" "w_now w1 = w_now (snd ?b)"
    by (cases ?r) auto
  have logged: "\<exists>w2. andThen (if c then auditLog E en else ret ()) (\<lambda>_. throw x) w1 = (Inl x, w2) \<and>
      users w2 = users w1 \<and> sessions w2 = sessions w1 \<and> w_now w2 = w_now w1" for c en x
    by (cases c) (simp_all add: audit.then_continues)
  obtain e w2 where l: "login E email pw ip ua w = (Inl e, w2)"
    and w2: "users w2 = users w1" "sessions w2 = sessions w1" "w_now w2 = w_now w1"
    using r u pw logged by (fastforce simp: login_def compare_password_def andThen_def [of "users_recordFailedLogin ?uid"])
  have us: "users w2 = update_where (\<lambda>q. u_id q = ?uid) (lockout_step (w_now w)) (users w)"
    using lockout_body_users [OF id ids] w1(1) w2(1) by simp
  show "isl (fst (login E email pw ip ua w))" by (simp add: l)
  have "find_row (visible_user (\<lambda>u. u_email u = email)) (users w2) =
      map_option (\<lambda>q. if u_id q = ?uid then lockout_step (w_now w) q else q)
        (find_row (visible_user (\<lambda>u. u_email u = email)) (users w))"
    unfolding us by (rule find_row_update_where) (simp add: visible_user_def)
  with u(1) show "users_findOneWithPassword email (snd (login E email pw ip ua w)) = Some ?l"
    by (simp add: l users_findOneWithPassword_def)
  have "map u_id (update_where (\<lambda>q. u_id q = ?uid) (lockout_step (w_now w)) (users w)) = map u_id (users w)"
    by (rule map_update_where) simp
  with ids show "distinct (map u_id (users (snd (login E email pw ip ua w))))" by (simp add: l us)
  show "sessions (snd (login E email pw ip ua w)) = sessions w"
    using w1 w2 by (simp add: l recordFailedLogin_body_frame)
  show "w_now (snd (login E email pw ip ua w)) = w_now w"
    using w1 w2 by (simp add: l recordFailedLogin_body_frame)
qed

lemma attempts_lock:
  assumes "users_findOneWithPassword email w = Some u" "u_isActive u" "\<not> locked_at (w_now w) u"
    and "u_password u = Some h" "distinct (map u_id (users w))"
    and "u_failedLoginAttempts u + length xs = LOCKOUT_THRESHOLD" "xs \<noteq> []"
    and "\<forall>(d, pw) \<in> set xs. 0 \<le> d \<and> \<not> e_bcryptCompare E pw h"
  shows "\<exists>u'. users_findOneWithPassword email (attempts E email xs w) = Some u' \<and>
    u_lockedUntil u' = Some (w_now (attempts E email xs w) + LOCKOUT_DURATION_MS)"
  using assms
proof (induction xs arbitrary: w u)
  case (Cons x xs)
  obtain d pw where x: "x = (d, pw)" by fastforce
  let ?v = "w\<lparr>w_now := w_now w + d\<rparr>"
  have d: "0 \<le> d" "\<not> e_bcryptCompare E pw h" using Cons.prems(8) x by auto
  have unlocked: "\<not> locked_at (w_now ?v) u"
    using Cons.prems(3) d by (auto simp: locked_at_def split: option.splits)
  have v: "users_findOneWithPassword email ?v = Some u" "distinct (map u_id (users ?v))"
    using Cons.prems by (simp_all add: users_findOneWithPassword_def)
  note step = wrong_login [OF v(1) Cons.prems(2) unlocked Cons.prems(4) d(2) v(2), of None None]
  show ?case
  proof (cases "xs = []")
    case True
    with Cons.prems(6) have "Suc (u_failedLoginAttempts u) = LOCKOUT_THRESHOLD" by simp
    with unlocked have "u_lockedUntil (lockout_step (w_now ?v) u) = Some (w_now ?v + LOCKOUT_DURATION_MS)"
      by (auto simp: lockout_step_def Let_def locked_at_def split: option.splits)
    with step show ?thesis by (simp add: x True)
  next
    case False
    then have "u_lockedUntil (lockout_step (w_now ?v) u) = u_lockedUntil u"
      using Cons.prems(6) by (cases xs) (simp_all add: lockout_step_def Let_def)
    with unlocked have "\<not> locked_at (w_now ?v) (lockout_step (w_now ?v) u)" by (simp add: locked_at_def)
    with Cons.IH [OF step(2) _ _ _ step(3)] Cons.prems step(5) False show ?thesis
      by (simp add: x)
  qed
qed simp

text \<open>
  C10. Five wrong passwords in a row (fewer if some came before), at any times, lock the
  account: for the fifteen minutes after the last one every login to it is refused, with the right
  password too, and changes nothing. A failing cache or audit log does not prevent the lock.
\<close>

theorem wrong_passwords_lock_account:
  assumes "users_findOneWithPassword email w = Some u" and "u_isActive u" and "\<not> locked_at (w_now w) u"
    and "u_password u = Some h" and "distinct (map u_id (users w))"
    and "u_failedLoginAttempts u + length xs = 5" and "xs \<noteq> []"
    and "\<forall>(d, pw) \<in> set xs. 0 \<le> d \<and> \<not> e_bcryptCompare E pw h"
    and "w1 = attempts E email xs w" and "t < w_now w1 + 15 * 60 * 1000"
  shows "login E email pw ip ua (w1\<lparr>w_now := t\<rparr>) =
    (Inl (Unauthorized INVALID_CREDENTIALS_MESSAGE), w1\<lparr>w_now := t\<rparr>)"
proof -
  obtain u' where "users_findOneWithPassword email w1 = Some u'"
    "u_lockedUntil u' = Some (w_now w1 + LOCKOUT_DURATION_MS)"
    using attempts_lock [OF assms(1-5) _ assms(7,8)] assms(6,9) by (auto simp: LOCKOUT_THRESHOLD_def)
  with assms(10) show ?thesis
    by (simp add: login_def users_findOneWithPassword_def locked_at_def LOCKOUT_DURATION_MS_def)
qed

theorem wrong_passwords_lock_account_witness:
  "fst (login demo_env ''ana'' ''pa'' None None
     (attempts demo_env ''ana'' (replicate 5 (1000, ''x'')) demo_world)) =
   Inl (Unauthorized INVALID_CREDENTIALS_MESSAGE)"
proof -
  let ?w1 = "attempts demo_env ''ana'' (replicate 5 (1000, ''x'')) demo_world"
  have "users_findOneWithPassword ''ana'' demo_world = Some (demo_user ''u-a'' ''ana'' ''pa'')"
    "distinct (map u_id (users demo_world))" "\<not> locked_at (w_now demo_world) (demo_user ''u-a'' ''ana'' ''pa'')"
    by (simp_all add: users_findOneWithPassword_def demo_world_def demo_db_def
        visible_user_def row_simps locked_at_def)
  then have "login demo_env ''ana'' ''pa'' None None (?w1\<lparr>w_now := w_now ?w1\<rparr>) =
      (Inl (Unauthorized INVALID_CREDENTIALS_MESSAGE), ?w1\<lparr>w_now := w_now ?w1\<rparr>)"
    by (intro wrong_passwords_lock_account [where u = "demo_user ''u-a'' ''ana'' ''pa''"
        and xs = "replicate 5 (1000, ''x'')" and h = "''hpa''"])
       (simp_all add: demo_env_def demo_compare_def)
  then show ?thesis by simp
qed

section \<open>What a client can tell\<close>

lemma recordFailedLogin_error:
  assumes "users_recordFailedLogin uid w = (Inl e, w')" and "\<not> cacheDelFails (w_faults w) (user_key uid)"
  shows "e = Unauthorized ''Invalid credentials''"
proof -
  obtain r w1 where b: "recordFailedLogin_body uid w = (r, w1)" by fastforce
  have "w_faults w1 = w_faults w" using recordFailedLogin_body_frame(6) [of uid w] b by simp
  moreover have "r = Inl e' \<Longrightarrow> e' = Unauthorized ''Invalid credentials''" for e'
    using b by (auto simp: recordFailedLogin_body_def Let_def split: option.splits if_splits)
  ultimately show ?thesis
    using assms b
    by (cases r) (auto simp: users_recordFailedLogin_def transaction_def invalidateUserCache_def cacheDel_def andThen_def)
qed

lemma createTokens_returns:
  "varchar_ok 45 ip \<Longrightarrow> varchar_ok 512 ua \<Longrightarrow> \<exists>r w'. createTokensAndSession E u ip ua w = (Inr r, w')"
  by (simp add: createTokensAndSession_def issue_eq audit.then_continues)

text \<open>
  C14. A failing login does not tell whether the account exists, is deactivated, is locked or has
  another password: the error is the same for all of them, as long as the infrastructure answers
  and the request's address and agent fit their columns.
\<close>

theorem login_errors_alike:
  assumes "login E email pw ip ua w = (Inl e, w')"
    and "\<forall>u \<in> set (users w). u_password u \<noteq> None"
    and "\<forall>k. \<not> cacheDelFails (w_faults w) k"
    and "varchar_ok 45 ip" and "varchar_ok 512 ua"
  shows "e = Unauthorized INVALID_CREDENTIALS_MESSAGE"
proof (cases "users_findOneWithPassword email w")
  case None
  with assms(1) show ?thesis by (simp add: login_def)
next
  case (Some u)
  then have "u \<in> set (users w)"
    by (auto simp: users_findOneWithPassword_def dest!: find_row_SomeD)
  with assms(2) obtain h where h: "u_password u = Some h" by auto
  show ?thesis
  proof (cases "u_isActive u \<and> \<not> locked_at (w_now w) u \<and> e_bcryptCompare E pw h")
    case True
    with assms(1,3) Some h have "\<exists>w1. createTokensAndSession E u ip ua w1 = (Inl e, w')"
      by (auto simp: login_def compare_password_def users_resetFailedLogin_def invalidateUserCache_def
          cacheDel_def andThen_def split: if_splits)
    with createTokens_returns [OF assms(4,5)] show ?thesis by (metis Pair_inject sum.distinct(1))
  next
    case False
    obtain r w1 where r: "users_recordFailedLogin (u_id u) w = (r, w1)" by fastforce
    have logged: "fst (andThen (if c then auditLog E en else ret ()) (\<lambda>_. throw x) w1) = Inl x" for c en x
      by (cases c) (simp_all add: audit.then_continues)
    from False assms(1,3) Some h r recordFailedLogin_error [of "u_id u" w] show ?thesis
      by (cases r) (auto simp: login_def compare_password_def andThen_def [of "users_recordFailedLogin _"]
          INVALID_CREDENTIALS_MESSAGE_def split: if_splits dest!: arg_cong [where f = fst] simp: logged)
  qed
qed

theorem login_errors_alike_witness:
  "fst (login demo_env ''eve'' ''x'' None None demo_world) = Inl (Unauthorized INVALID_CREDENTIALS_MESSAGE)"
proof -
  have "fst (login demo_env ''eve'' ''x'' None None demo_world) = Inl e \<Longrightarrow>
      e = Unauthorized INVALID_CREDENTIALS_MESSAGE" for e
    using login_errors_alike [of demo_env "''eve''" "''x''" None None demo_world e]
    by (cases "login demo_env ''eve'' ''x'' None None demo_world")
       (auto simp: demo_world_def demo_db_def no_faults_def)
  moreover have "isl (fst (login demo_env ''eve'' ''x'' None None demo_world))" by code_simp
  ultimately show ?thesis by (metis isl_def)
qed

section \<open>Authenticated requests\<close>

text \<open>
  C12. A request that passes the guard on a protected route carries an unexpired access token
  (not a refresh token), signed by the service, whose jti is not on the denylist; the user it is
  given (its row, or the cached copy of it) is the token's subject, active and not locked, without the password hash, and is the
  actor of the request's context. Nothing else changes that sessions or denylist depend on.
\<close>

theorem authenticated_request:
  assumes "jwt_ok E" and "auth_reachable E w" and "canActivate E False bearer w = (Inr x, w')"
  shows "\<exists>tok p u lifetime t0. bearer = Some tok \<and> x = Some (u, jp_jti p) \<and>
    tok = e_sign E p lifetime t0 \<and> w_now w div 1000 < t0 div 1000 + lifetime \<and>
    jp_tokenType p = ''access'' \<and> u_id u = jp_sub p \<and> u_isActive u \<and> \<not> locked_at (w_now w) u \<and>
    u_password u = None \<and>
    (\<forall>j. jp_jti p = Some j \<and> j \<noteq> [] \<longrightarrow> \<not> truthy_cached (cache_get (w_now w) (jti_key j) (w_cache w))) \<and>
    (w_ctx w \<noteq> None \<longrightarrow> rc_getUserId w' = Some (u_id u)) \<and> same_sessions w w'"
proof -
  have same: "same_sessions w w'"
    using quiet_actionD [OF quiet_canActivate, of w E False bearer] assms(3) by simp
  from assms(3) obtain tok where tok: "bearer = Some tok"
    by (cases bearer) (auto simp: canActivate_def andThen_def handleRequest_def)
  from assms(3) [unfolded tok canActivate_private] obtain p u j where
    p: "e_verify E tok (w_now w) = Some p" and v: "validate p w = (Inr (u, j), w')" and x: "x = Some (u, j)"
    by (auto split: option.splits prod.splits sum.splits)
  from p assms(1) obtain lifetime t0 where sig: "tok = e_sign E p lifetime t0"
      "w_now w div 1000 < t0 div 1000 + lifetime"
    unfolding jwt_ok_def by (metis option.distinct(1) option.inject)
  from v obtain w1 where c: "check_denylist (jp_jti p) w = (Inr (), w)" "load_user (jp_sub p) w = (Inr u, w1)"
    "jp_tokenType p = ''access''" "u_isActive u" "j = jp_jti p" "w' = rc_setUser (u_id u) w1"
    by (rule validateE)
  have "w_ctx w1 = w_ctx w"
    using c(2) by (auto simp: load_user_def andThen_def cacheGet_def cacheSet_def split: if_splits option.splits)
  with c check_denylist_ok [OF c(1)] load_user_sound [OF reachable_user_cache_ok [OF assms(2)] c(2)]
    validated_user [OF v] tok x sig same
  show ?thesis
    by (intro exI [of _ tok] exI [of _ p] exI [of _ u] exI [of _ lifetime] exI [of _ t0])
       (auto simp: rc_getUserId_setUser)
qed

theorem authenticated_request_witness:
  "\<exists>u j. fst (canActivate demo_env False (Some (ar_access_token (projr (fst demo_login)))) (snd demo_login)) =
     Inr (Some (u, j)) \<and> u_password u = None"
  using authenticated_request [OF demo_jwt_ok demo_reachable Inr_pair [OF demo_access(4)]]
    Inr_pair [OF demo_access(4)]
  by (metis fst_conv)

text \<open>A refresh is served whenever the token and its session are good and the user may refresh.\<close>

lemma refresh_succeeds:
  assumes "e_verify E tok (w_now w) = Some p" "jp_tokenType p = ''refresh''"
    and "find_session_by_hash (hashRefreshToken E tok) w = Some s" "s_revokedAt s = None" "w_now w \<le> s_expiresAt s"
    and "find_user_withDeleted (s_userId s) w = Some u" "user_may_refresh (w_now w) (Some u)"
    and "varchar_ok 45 ip" "varchar_ok 512 ua"
  shows "\<exists>r w1. refresh E tok ip ua w = (Inr r, w1) \<and> ar_email r = u_email u"
proof -
  have tx: "refresh_tx E (hashRefreshToken E tok) ip ua w = rotate_session E s u ip ua w"
    using assms(3-7) by (simp add: refresh_tx_def)
  have "\<exists>r. (\<exists>w1. refresh_finish E ip ua (Success (u_email u) a t mm) v = (Inr r, w1)) \<and>
      ar_email r = u_email u" for a t mm v
    using finish_success_state [of E ip ua "u_email u" a t mm v] by auto
  with assms(8,9) show ?thesis
    by (simp add: refresh_accepts [OF assms(1,2)] transaction_then tx rotate_session_eq)
qed

text \<open>
  C17. A login can be kept alive: whatever requests, faults and purges came after it, within
  seven days less a second the refresh token it returned is exchanged, as long as its session is in
  the table and nobody has revoked it, the user is there, active and not locked, and the request's
  address and agent fit.
\<close>

theorem login_then_refresh:
  assumes "env_ok E" and "auth_reachable E w" and "login E email pw ip ua w = (Inr r, w1)"
    and "users_findOneWithPassword email w = Some u"
    and "auth_run E w1 w2" and "w_now w2 < w_now w + 604799 * 1000"
    and "s \<in> set (sessions w2)" and "s_refreshTokenHash s = hashRefreshToken E (ar_refresh_token r)"
    and "s_revokedAt s = None"
    and "find_user_withDeleted (u_id u) w2 = Some u2"
    and "u_deletedAt u2 = None" and "u_isActive u2" and "\<not> locked_at (w_now w2) u2"
    and "varchar_ok 45 ip2" and "varchar_ok 512 ua2"
  shows "\<exists>r2 w3. refresh E (ar_refresh_token r) ip2 ua2 w2 = (Inr r2, w3) \<and> ar_email r2 = u_email u2"
  using assms(3)
proof (rule login_returnsE)
  fix v h
  let ?tok = "tp_refreshToken (issued_pair E v w)" and ?s = "issued_session E v ip ua None w"
  assume v: "users_findOneWithPassword email w = Some v"
    and r: "r = \<lparr>ar_email = u_email v, ar_access_token = tp_accessToken (issued_pair E v w),
      ar_refresh_token = tp_refreshToken (issued_pair E v w)\<rparr>"
    and s1: "sessions w1 = sessions w @ [?s]" and now: "w_now w1 = w_now w"
  from v assms(4) have uv: "v = u" by simp
  have ok: "session_table_ok E w" by (rule reachable_table_ok [OF assms(1,2)])
  then have ok1: "session_table_ok E w1" and ok2: "session_table_ok E w2"
    using session_table.handler_keeps [OF refines_login ok, of email pw ip ua] assms(3)
      session_table.run_keeps [OF assms(5)] by simp_all
  have "q = ?s" if "q \<in> set (sessions w1)" "s_refreshTokenHash q = hashRefreshToken E ?tok" for q
    using unique_session [OF ok1 that(1), of ?s] that(2) s1 by simp
  then have "\<forall>q \<in> set (sessions w1). s_refreshTokenHash q = hashRefreshToken E ?tok \<longrightarrow>
      s_userId q = u_id u \<and> s_expiresAt q = w_now w + 7 * ms_per_day"
    using uv by (metis issued_session_simps(6,7) REFRESH_TOKEN_DAYS_def)
  moreover have "issued_token E (w_fresh w1) ?tok"
    by (rule table_token_issued [OF ok1, of ?s]) (simp_all add: s1)
  ultimately have "issued_to E ?tok (u_id u) (w_now w + 7 * ms_per_day) w1"
    using assms(1) unfolding issued_to_def by blast
  then have "issued_to E ?tok (u_id u) (w_now w + 7 * ms_per_day) w2"
    by (rule token_owner.run_keeps [OF assms(5)])
  with assms(7,8) r have s: "s_userId s = u_id u" "s_expiresAt s = w_now w + 7 * ms_per_day"
    by (simp_all add: issued_to_def)
  have found: "find_session_by_hash (hashRefreshToken E ?tok) w2 = Some s"
    using ok2 assms(7,8) r unfolding find_session_by_hash_def session_table_ok_def
    by (intro find_row_unique [where k = s_refreshTokenHash]) auto
  have "w_now w \<le> w_now w2" using clock.run_keeps [OF assms(5), of "w_now w"] now by simp
  moreover have "w_now w2 div 1000 < w_now w div 1000 + 604800" using assms(6) by linarith
  ultimately have ver: "e_verify E ?tok (w_now w2) = Some (token_payload u ''refresh'' (e_uuid E (Suc (w_fresh w))))"
    using assms(1) uv by (simp add: env_ok_def jwt_ok_def issued_pair_token REFRESH_TOKEN_EXPIRES_def)
  have "w_now w2 \<le> s_expiresAt s" using assms(6) s(2) by simp
  moreover have "jp_tokenType (token_payload u ''refresh'' j) = ''refresh''" for j by (simp add: token_payload_def)
  ultimately show ?thesis
    using refresh_succeeds [OF ver _ found assms(9), of u2 ip2 ua2] assms(10-15) s(1) r
    by (simp add: user_may_refresh_def)
qed

lemma demo_world_facts: "distinct (map u_id (users demo_world))" "auth_reachable demo_env demo_world"
proof -
  show "distinct (map u_id (users demo_world))" by (simp add: demo_world_def demo_db_def)
  have "initial_world demo_world" by (simp add: initial_world_def demo_world_def demo_db_def)
  then show "auth_reachable demo_env demo_world" unfolding auth_reachable_def using run_refl by blast
qed

text \<open>A day after Ana's login, during which Bob failed to log in and Ana's request passed the guard.\<close>

definition demo_day_later :: world where
  "demo_day_later = (let w1 = snd (login demo_env ''bob'' ''x'' None None (snd demo_login));
     w2 = snd (canActivate demo_env False (Some (ar_access_token (projr (fst demo_login)))) w1)
   in w2\<lparr>w_now := w_now w2 + 86400000\<rparr>)"

lemma demo_day_later_run: "auth_run demo_env (snd demo_login) demo_day_later"
  unfolding demo_day_later_def Let_def
  by (intro run_step [OF run_step [OF run_step [OF run_refl login_step] authenticate_step] tick_step]) simp

lemma demo_day_later_facts:
  "w_now demo_day_later < w_now demo_world + 604799 * 1000"
  "s_refreshTokenHash (hd (sessions demo_day_later)) = hashRefreshToken demo_env demo_token"
  "sessions demo_day_later \<noteq> []" "s_revokedAt (hd (sessions demo_day_later)) = None"
  "map_option (\<lambda>u. (u_deletedAt u, u_isActive u, u_lockedUntil u)) (find_user_withDeleted ''u-a'' demo_day_later) =
     Some (None, True, None)"
  "map_option u_id (users_findOneWithPassword ''ana'' demo_world) = Some ''u-a''"
  by code_simp+

theorem login_then_refresh_witness:
  "\<exists>r2 w3. refresh demo_env demo_token None None demo_day_later = (Inr r2, w3)"
proof -
  obtain u where u: "users_findOneWithPassword ''ana'' demo_world = Some u" "u_id u = ''u-a''"
    using demo_day_later_facts(6) by auto
  obtain u2 where u2: "find_user_withDeleted (u_id u) demo_day_later = Some u2"
    "u_deletedAt u2 = None" "u_isActive u2" "\<not> locked_at (w_now demo_day_later) u2"
    using demo_day_later_facts(5) u(2) by (auto simp: locked_at_def)
  have "hd (sessions demo_day_later) \<in> set (sessions demo_day_later)" using demo_day_later_facts(3) by simp
  from login_then_refresh [OF demo_env_ok demo_world_facts(2) Inr_pair [OF demo_login_returns, unfolded demo_login_def]
      u(1) demo_day_later_run [unfolded demo_login_def] demo_day_later_facts(1) this
      demo_day_later_facts(2) [unfolded demo_token_def demo_login_def] demo_day_later_facts(4) u2, of None None]
  show ?thesis by (auto simp: demo_token_def demo_login_def)
qed

section \<open>Listing sessions\<close>

text \<open>
  The session list holds the caller's sessions that are neither revoked nor expired, each
  once, the newest first.
\<close>

theorem listSessions_contents:
  assumes "distinct (map s_id (sessions w))"
  shows "set (map sr_id (listSessions uid w)) =
      {s_id s | s. s \<in> set (sessions w) \<and> s_userId s = uid \<and> s_revokedAt s = None \<and> w_now w < s_expiresAt s} \<and>
    distinct (map sr_id (listSessions uid w)) \<and>
    sorted (map (\<lambda>r. - sr_createdAt r) (listSessions uid w))"
proof (intro conjI)
  let ?rows = "filter (\<lambda>s. active_session uid s \<and> w_now w < s_expiresAt s) (sessions w)"
  have ids: "map sr_id (listSessions uid w) = map s_id (sort_key (\<lambda>s. - s_createdAt s) ?rows)"
    by (simp add: listSessions_def session_to_response_def)
  show "set (map sr_id (listSessions uid w)) =
      {s_id s | s. s \<in> set (sessions w) \<and> s_userId s = uid \<and> s_revokedAt s = None \<and> w_now w < s_expiresAt s}"
    unfolding ids by (auto simp: active_session_def)
  have "distinct (map s_id ?rows)" using assms by (rule distinct_map_filter)
  then show "distinct (map sr_id (listSessions uid w))"
    unfolding ids by (simp add: distinct_map)
  have "map (\<lambda>r. - sr_createdAt r) (listSessions uid w) = map (\<lambda>s. - s_createdAt s) (sort_key (\<lambda>s. - s_createdAt s) ?rows)"
    by (simp add: listSessions_def session_to_response_def)
  then show "sorted (map (\<lambda>r. - sr_createdAt r) (listSessions uid w))" by simp
qed

theorem listSessions_contents_witness:
  "distinct (map sr_id (listSessions ''u-a'' (snd demo_login)))"
  using listSessions_contents [of "snd demo_login" "''u-a''"] demo_table_ok
  by (simp add: session_table_ok_def)

end
