(* ===== verification/Auth_Refinement.thy ===== *)
theory Auth_Refinement
  imports Login_Properties
begin

text \<open>
  The contract of the session component, and that the handlers implement it. A client of the
  service sees a vault of refresh tokens, each with its owner and its expiry; the rows of
  \<open>sessions\<close>, their hashes, rotation links and revocation times are how the code keeps it.
\<close>

section \<open>The vault\<close>

type_synonym vault = "string \<rightharpoonup> uuid \<times> time"

text \<open>The rows that a refresh token can still be exchanged for, and what they stand for.\<close>

definition live_row :: "string \<Rightarrow> session list \<Rightarrow> session option" where
  "live_row h ss = find_row (\<lambda>s. s_refreshTokenHash s = h \<and> s_revokedAt s = None) ss"

definition vault_of :: "session list \<Rightarrow> vault" where
  "vault_of ss = (\<lambda>h. map_option (\<lambda>s. (s_userId s, s_expiresAt s)) (live_row h ss))"

text \<open>
  The operations of the contract. \<open>Exchange\<close> is possible only for a token that is in the vault
  and not expired; no operation puts a token where there is one.
\<close>

datatype vault_op =
    Issue string uuid time
  | Exchange string string time time
  | End uuid string
  | EndUser uuid

fun vault_run :: "vault_op \<Rightarrow> vault \<Rightarrow> vault option" where
  "vault_run (Issue h u t) v = (if v h = None then Some (v(h \<mapsto> (u, t))) else None)"
| "vault_run (Exchange h h' now t) v = (case v h of
     None \<Rightarrow> None
   | Some (u, e) \<Rightarrow> if now \<le> e \<and> v h' = None then Some (v(h := None, h' \<mapsto> (u, t))) else None)"
| "vault_run (End u h) v = Some (if map_option fst (v h) = Some u then v(h := None) else v)"
| "vault_run (EndUser u) v = Some (\<lambda>h. if map_option fst (v h) = Some u then None else v h)"

section \<open>How the rows change the vault\<close>

lemma live_row_append:
  "live_row h (ss @ [row]) = (case live_row h ss of
     Some s \<Rightarrow> Some s
   | None \<Rightarrow> if s_refreshTokenHash row = h \<and> s_revokedAt row = None then Some row else None)"
  by (simp add: live_row_def find_row_append row_simps split: option.splits)

lemma live_row_SomeD:
  "live_row h ss = Some s \<Longrightarrow> s \<in> set ss \<and> s_refreshTokenHash s = h \<and> s_revokedAt s = None"
  unfolding live_row_def by (drule find_row_SomeD)

lemma live_row_absent: "h \<notin> s_refreshTokenHash ` set ss \<Longrightarrow> live_row h ss = None"
  by (auto simp: live_row_def find_row_None_iff)

lemma live_row_unique:
  assumes "distinct (map s_refreshTokenHash ss)" "s \<in> set ss" "s_refreshTokenHash s = h"
  shows "live_row h ss = (if s_revokedAt s = None then Some s else None)"
proof (cases "live_row h ss")
  case None
  with assms(2,3) show ?thesis by (auto simp: live_row_def find_row_None_iff)
next
  case (Some q)
  from live_row_SomeD [OF this] assms have "q = s \<and> s_revokedAt q = None"
    by (auto simp: distinct_map inj_on_def)
  with Some show ?thesis by auto
qed

lemma live_row_revoke:
  assumes "distinct (map s_refreshTokenHash ss)"
    and "\<And>s. s_refreshTokenHash (f s) = s_refreshTokenHash s" "\<And>s. s_revokedAt (f s) = Some t"
  shows "live_row h (update_where P f ss) =
    (case live_row h ss of None \<Rightarrow> None | Some s \<Rightarrow> if P s then None else Some s)"
  using assms(1)
proof (induction ss)
  case (Cons s ss)
  then show ?case
    using assms(2,3) live_row_absent [of h ss] by (auto simp: live_row_def row_simps)
qed (simp add: live_row_def)

lemma vault_revoke:
  assumes "distinct (map s_refreshTokenHash ss)"
  shows "vault_of (update_where P (\<lambda>s. s\<lparr>s_revokedAt := Some t\<rparr>) ss) h =
    (case live_row h ss of None \<Rightarrow> None | Some s \<Rightarrow> if P s then None else vault_of ss h)"
  using assms by (simp add: vault_of_def live_row_revoke split: option.split)

lemma vault_revoke_user:
  assumes "distinct (map s_refreshTokenHash ss)"
  shows "vault_run (EndUser uid) (vault_of ss) =
    Some (vault_of (update_where (active_session uid) (\<lambda>s. s\<lparr>s_revokedAt := Some t\<rparr>) ss))"
proof -
  have "(if map_option fst (vault_of ss h) = Some uid then None else vault_of ss h) =
      vault_of (update_where (active_session uid) (\<lambda>s. s\<lparr>s_revokedAt := Some t\<rparr>) ss) h" for h
    unfolding vault_revoke [OF assms]
    by (cases "live_row h ss") (auto simp: vault_of_def active_session_def dest!: live_row_SomeD)
  then show ?thesis by simp
qed

lemma vault_revoke_one:
  assumes "distinct (map s_refreshTokenHash ss)"
  shows "vault_run (End uid h) (vault_of ss) =
    Some (vault_of (update_where (\<lambda>s. active_session uid s \<and> s_refreshTokenHash s = h)
      (\<lambda>s. s\<lparr>s_revokedAt := Some t\<rparr>) ss))"
proof -
  have "(if map_option fst (vault_of ss h) = Some uid then (vault_of ss)(h := None) else vault_of ss) k =
      vault_of (update_where (\<lambda>s. active_session uid s \<and> s_refreshTokenHash s = h)
        (\<lambda>s. s\<lparr>s_revokedAt := Some t\<rparr>) ss) k" for k
    unfolding vault_revoke [OF assms]
    by (cases "live_row k ss"; cases "k = h")
       (auto simp: vault_of_def active_session_def dest!: live_row_SomeD)
  then show ?thesis by (simp add: fun_eq_iff)
qed

lemma vault_append:
  assumes "s_refreshTokenHash row \<notin> s_refreshTokenHash ` set ss" "s_revokedAt row = None"
  shows "vault_of (ss @ [row]) = (vault_of ss)(s_refreshTokenHash row \<mapsto> (s_userId row, s_expiresAt row))"
    and "vault_of ss (s_refreshTokenHash row) = None"
  using assms live_row_absent [OF assms(1)]
  by (auto simp: vault_of_def live_row_append fun_eq_iff split: option.splits dest: live_row_SomeD)

lemma vault_rotate:
  assumes "distinct (map s_refreshTokenHash ss)" "distinct (map s_id ss)" "s \<in> set ss"
    and "s_revokedAt s = None" "now \<le> s_expiresAt s"
    and row: "s_refreshTokenHash row \<notin> s_refreshTokenHash ` set ss" "s_id row \<notin> s_id ` set ss"
      "s_revokedAt row = None" "s_userId row = s_userId s"
  shows "vault_run (Exchange (s_refreshTokenHash s) (s_refreshTokenHash row) now (s_expiresAt row)) (vault_of ss) =
    Some (vault_of (update_where (\<lambda>q. s_id q = s_id s)
      (\<lambda>q. q\<lparr>s_revokedAt := Some t, s_rotatedToSessionId := Some i\<rparr>) (ss @ [row])))"
proof -
  let ?h = "s_refreshTokenHash s" and ?h' = "s_refreshTokenHash row"
  have s: "live_row ?h ss = Some s"
    using live_row_unique [OF assms(1,3) refl] assms(4) by simp
  have new: "live_row ?h' ss = None" using row(1) by (rule live_row_absent)
  have dist: "distinct (map s_refreshTokenHash (ss @ [row]))" using assms(1) row(1) by auto
  have ne: "?h' \<noteq> ?h" "s_id row \<noteq> s_id s" using assms(3) row by auto
  have other: "s_id q \<noteq> s_id s" if "live_row k ss = Some q" "k \<noteq> ?h" for k q
    using live_row_SomeD [OF that(1)] that(2) assms(2,3) by (auto simp: distinct_map inj_on_def)
  have "((vault_of ss)(?h := None, ?h' \<mapsto> (s_userId s, s_expiresAt row))) k =
      vault_of (update_where (\<lambda>q. s_id q = s_id s)
        (\<lambda>q. q\<lparr>s_revokedAt := Some t, s_rotatedToSessionId := Some i\<rparr>) (ss @ [row])) k" for k
  proof (cases "k = ?h \<or> k = ?h'")
    case True
    with s new ne row(3,4) show ?thesis
      by (auto simp: vault_of_def live_row_revoke [OF dist] live_row_append)
  next
    case False
    with other show ?thesis
      by (cases "live_row k ss") (auto simp: vault_of_def live_row_revoke [OF dist] live_row_append)
  qed
  moreover have "vault_of ss ?h = Some (s_userId s, s_expiresAt s)" "vault_of ss ?h' = None"
    by (simp_all add: vault_of_def s new)
  ultimately show ?thesis using assms(5) by (simp add: fun_eq_iff)
qed

lemma vault_remove:
  assumes "distinct (map s_refreshTokenHash ss)" and "\<And>s. s \<in> set ss \<Longrightarrow> s_id s \<in> set ids \<Longrightarrow> s_expiresAt s < c"
  shows "vault_of (remove_sessions ids ss) h = vault_of ss h \<or>
    vault_of (remove_sessions ids ss) h = None \<and> (\<exists>u e. vault_of ss h = Some (u, e) \<and> e < c)"
  using assms
proof (induction ss)
  case (Cons s ss)
  have rest: "remove_sessions ids (s # ss) = (if s_id s \<in> set ids then remove_sessions ids ss
      else (case s_rotatedFromSessionId s of None \<Rightarrow> s
            | Some i \<Rightarrow> if i \<in> set ids then s\<lparr>s_rotatedFromSessionId := None\<rparr> else s) # remove_sessions ids ss)"
    by (simp add: remove_sessions_def row_simps split: option.split)
  have gone: "live_row h (remove_sessions ids ss) = None" if "h \<notin> s_refreshTokenHash ` set ss"
    using that by (intro live_row_absent) (force dest!: remove_sessions_in)
  show ?case
  proof (cases "s_refreshTokenHash s = h \<and> s_revokedAt s = None")
    case True
    with Cons.prems gone show ?thesis
      unfolding rest by (auto simp: vault_of_def live_row_def row_simps split: option.split)
  next
    case False
    then have "vault_of (s # ss) h = vault_of ss h" "vault_of (remove_sessions ids (s # ss)) h = vault_of (remove_sessions ids ss) h"
      unfolding rest by (auto simp: vault_of_def live_row_def row_simps split: option.split)
    with Cons show ?thesis by simp
  qed
qed (simp add: remove_sessions_def)

section \<open>Each handler is an operation of the contract\<close>

text \<open>
  What the proofs use of a reachable table: hashes and ids are unique, and those of a row about
  to be issued are new.
\<close>

lemma issued_row_fresh:
  assumes "session_table_ok E w"
  shows "hashRefreshToken E (tp_refreshToken (issued_pair E u w)) \<notin> s_refreshTokenHash ` set (sessions w)"
    and "e_uuid E (Suc (Suc (w_fresh w))) \<notin> s_id ` set (sessions w)"
proof -
  have "session_table_ok E (issued_world (issued_session E u None None None w) w)"
    by (rule session_table.touch_keeps [OF touch_issue assms])
  then show "hashRefreshToken E (tp_refreshToken (issued_pair E u w)) \<notin> s_refreshTokenHash ` set (sessions w)"
    and "e_uuid E (Suc (Suc (w_fresh w))) \<notin> s_id ` set (sessions w)"
    by (simp_all add: session_table_ok_def)
qed

lemma table_keys:
  "session_table_ok E w \<Longrightarrow> distinct (map s_refreshTokenHash (sessions w))"
  "session_table_ok E w \<Longrightarrow> distinct (map s_id (sessions w))"
  by (simp_all add: session_table_ok_def)

lemma login_refines:
  assumes "session_table_ok E w" "login E email pw ip ua w = (Inr r, w1)"
  shows "\<exists>u. users_findOneWithPassword email w = Some u \<and>
    vault_run (Issue (hashRefreshToken E (ar_refresh_token r)) (u_id u) (w_now w + 7 * ms_per_day))
      (vault_of (sessions w)) = Some (vault_of (sessions w1))"
  using assms(2)
proof (rule login_returnsE)
  fix u h
  assume u: "users_findOneWithPassword email w = Some u"
    and r: "r = \<lparr>ar_email = u_email u, ar_access_token = tp_accessToken (issued_pair E u w),
      ar_refresh_token = tp_refreshToken (issued_pair E u w)\<rparr>"
    and s: "sessions w1 = sessions w @ [issued_session E u ip ua None w]"
  show ?thesis
    using u vault_append [of "issued_session E u ip ua None w" "sessions w"] issued_row_fresh(1) [OF assms(1), of u]
    by (simp add: r s REFRESH_TOKEN_DAYS_def)
qed

lemma refresh_refines:
  assumes "session_table_ok E w" "refresh E tok ip ua w = (Inr r, w1)"
  shows "vault_run (Exchange (hashRefreshToken E tok) (hashRefreshToken E (ar_refresh_token r)) (w_now w)
      (w_now w + 7 * ms_per_day)) (vault_of (sessions w)) = Some (vault_of (sessions w1))"
  using assms(2)
proof (rule refresh_returnsE)
  fix s u
  assume s: "find_session_by_hash (hashRefreshToken E tok) w = Some s" "s_revokedAt s = None" "\<not> s_expiresAt s < w_now w"
    and u: "find_user_withDeleted (s_userId s) w = Some u"
    and r: "ar_refresh_token r = tp_refreshToken (issued_pair E u w)"
    and w1: "sessions w1 = sessions (rotated_world E s u ip ua w)"
  have uid: "u_id u = s_userId s"
    using u by (auto simp: find_user_withDeleted_def dest!: find_row_SomeD)
  show ?thesis
    using vault_rotate [OF table_keys [OF assms(1)], of s "w_now w" "issued_session E u ip ua (Some (s_id s)) w"]
      find_session_in [OF s(1)] s(2,3) issued_row_fresh [OF assms(1)] uid
    by (simp add: r w1 rotated_world_def REFRESH_TOKEN_DAYS_def)
qed

declare vault_run.simps [simp del]

text \<open>Actions that leave the rows alone, and handlers that do so when they throw.\<close>

definition rows_kept :: "(world, 'a) act \<Rightarrow> bool" where
  "rows_kept m \<longleftrightarrow> (\<forall>w. sessions (snd (m w)) = sessions w)"

definition fails_clean :: "(world, 'a) act \<Rightarrow> bool" where
  "fails_clean m \<longleftrightarrow> (\<forall>w e w1. m w = (Inl e, w1) \<longrightarrow> sessions w1 = sessions w)"

lemma rows_kept_quiet: "(\<And>w0. preserves (same_sessions w0) m) \<Longrightarrow> rows_kept m"
  unfolding rows_kept_def by (metis quiet_actionD same_sessions_def)

lemma rows_kept_denylist: "rows_kept (denylist_own_token j)"
  by (simp add: rows_kept_def denylist_own_token_def cacheSet_def)

named_theorems clean

lemma clean_rows_kept: "rows_kept m \<Longrightarrow> fails_clean m"
  by (auto simp: rows_kept_def fails_clean_def) (metis snd_conv)

lemma clean_andThen [clean]:
  "rows_kept m \<Longrightarrow> (\<And>x. fails_clean (k x)) \<Longrightarrow> fails_clean (andThen m k)"
  unfolding fails_clean_def andThen_def rows_kept_def
  by (auto split: prod.splits sum.splits) (metis snd_conv)+

lemma clean_if [clean]: "fails_clean m \<Longrightarrow> fails_clean n \<Longrightarrow> fails_clean (if b then m else n)"
  by simp

lemma clean_throw [clean]: "fails_clean (throw e)" "fails_clean (ret x)"
  by (auto simp: fails_clean_def throw_def ret_def)

lemma clean_revokeAll [clean]: "fails_clean (andThen (revokeAllUserSessions uid) (\<lambda>_. ret x))"
  by (simp add: fails_clean_def port.andThen_revoke ret_def)

lemma clean_revokeByHash [clean]: "fails_clean (andThen (revokeSessionByRefreshHash uid h) (\<lambda>_. ret x))"
  by (simp add: fails_clean_def revokeSessionByRefreshHash_def revoke_where_def andThen_def ret_def)

lemma clean_issue [clean]: "fails_clean (createTokensAndSession E u ip ua)"
  by (auto simp: fails_clean_def createTokensAndSession_def issue_eq audit.then_continues ret_def)

lemmas rows_kept_calls [clean] = rows_kept_denylist
  rows_kept_quiet [OF quiet_compare] rows_kept_quiet [OF quiet_recordFailedLogin]
  rows_kept_quiet [OF quiet_resetFailedLogin] rows_kept_quiet [OF quiet_hash]
  rows_kept_quiet [OF quiet_updatePassword] rows_kept_quiet [OF quiet_setActive]

lemma clean_lock_audit [clean]:
  "fails_clean (case p of (n, t) \<Rightarrow>
     andThen (if t \<noteq> None then auditLog E (account_locked_entry u n ip ua) else ret ()) (\<lambda>_. throw e))"
  by (cases p) (auto simp: fails_clean_def audit.then_continues throw_def ret_def andThen_def [of "\<lambda>w. (Inr (), w)"])

lemma clean_login: "fails_clean (login E email pw ip ua)"
proof -
  have "fails_clean (andThen (compare_password E pw h) (\<lambda>ok.
      if \<not> ok then andThen (users_recordFailedLogin (u_id u)) (\<lambda>(n, t).
          andThen (if t \<noteq> None then auditLog E (account_locked_entry u n ip ua) else ret ()) (\<lambda>_.
          throw (Unauthorized INVALID_CREDENTIALS_MESSAGE)))
      else andThen (users_resetFailedLogin (u_id u)) (\<lambda>_. createTokensAndSession E u ip ua)))" for u h
    by (intro clean)
  then show ?thesis
    unfolding fails_clean_def [of "login E email pw ip ua"] login_def
    by (auto split: option.splits if_splits simp: fails_clean_def)
qed

lemma clean_changePassword: "fails_clean (changePassword E uid old new)"
proof -
  have "fails_clean (andThen (compare_password E old h) (\<lambda>ok.
      if \<not> ok then throw (Unauthorized ''Current password is incorrect'')
      else andThen (hash_password E new 12) (\<lambda>hashed. andThen (users_updatePassword uid hashed) (\<lambda>_.
        andThen (revokeAllUserSessions uid) (\<lambda>_. ret uid)))))" for h
    by (intro clean)
  then show ?thesis
    unfolding fails_clean_def [of "changePassword E uid old new"] changePassword_def
    by (auto split: option.splits simp: fails_clean_def)
qed

lemma clean_setUserActive: "fails_clean (setUserActive uid b)"
proof -
  have "fails_clean (andThen (users_setActive uid b) (\<lambda>n.
      if n = 0 then throw (NotFound ''User not found'')
      else if \<not> b then andThen (revokeAllUserSessions uid) (\<lambda>_. ret (uid, b)) else ret (uid, b)))"
    by (intro clean)
  then show ?thesis
    unfolding fails_clean_def [of "setUserActive uid b"] setUserActive_def
    by (auto split: if_splits simp: fails_clean_def)
qed

lemma clean_logout: "fails_clean (logout E uid j tok)" "fails_clean (logoutAll uid j)"
  unfolding logout_def logoutAll_def by (intro clean)+

lemma cleanD:
  "fails_clean m \<Longrightarrow> m w = (Inl e, w1) \<Longrightarrow> vault_of (sessions w1) = vault_of (sessions w)"
  unfolding fails_clean_def by fastforce

text \<open>
  The refusals that end the tokens of a user: the presented token is a valid refresh token of the
  session \<open>s\<close>, which was revoked and not rotated (a reuse), or is still good, but of a user who may
  not refresh. Any other refusal leaves the vault alone.
\<close>

definition refusal_ends_user :: "env \<Rightarrow> string \<Rightarrow> world \<Rightarrow> session \<Rightarrow> bool" where
  "refusal_ends_user E tok w s \<longleftrightarrow>
     find_session_by_hash (hashRefreshToken E tok) w = Some s \<and>
     (\<exists>p. e_verify E tok (w_now w) = Some p \<and> jp_tokenType p = ''refresh'') \<and>
     (if s_revokedAt s \<noteq> None then \<not> truthy (s_rotatedToSessionId s)
      else w_now w \<le> s_expiresAt s \<and> \<not> user_may_refresh (w_now w) (find_user_withDeleted (s_userId s) w))"

lemma refresh_refused_refines:
  assumes "session_table_ok E w" "refresh E tok ip ua w = (Inl e, w1)"
  shows "if \<exists>s. refusal_ends_user E tok w s
    then \<exists>s. refusal_ends_user E tok w s \<and>
      vault_run (EndUser (s_userId s)) (vault_of (sessions w)) = Some (vault_of (sessions w1))
    else vault_of (sessions w1) = vault_of (sessions w)"
proof (cases "\<exists>p. e_verify E tok (w_now w) = Some p \<and> jp_tokenType p = ''refresh''")
  case False
  with assms(2) refresh_rejects [OF this, of ip ua] show ?thesis by (auto simp: refusal_ends_user_def)
next
  case True
  then obtain p where p: "e_verify E tok (w_now w) = Some p" "jp_tokenType p = ''refresh''" by blast
  note eq = assms(2) [unfolded refresh_accepts [OF p] transaction_then]
  note ended = vault_revoke_user [OF table_keys(1) [OF assms(1)]]
  have ends: ?thesis if "refusal_ends_user E tok w s" "sessions w1 = sessions (snd (revokeAllUserSessions (s_userId s) w))" for s
    using that ended [of "s_userId s"] by (auto simp: revokeAll_eq)
  have keeps: ?thesis if "\<And>s. \<not> refusal_ends_user E tok w s" "sessions w1 = sessions w"
    using that by simp
  show ?thesis
  proof (cases rule: refresh_tx_cases [of "hashRefreshToken E tok" w E ip ua])
    case (reuse s)
    with p have "refusal_ends_user E tok w s" by (simp add: refusal_ends_user_def)
    with reuse eq show ?thesis
      by (intro ends [of s]) (auto simp: refresh_finish_def audit.then_continues)
  next
    case (denied s)
    with p have "refusal_ends_user E tok w s" by (simp add: refusal_ends_user_def)
    with denied eq show ?thesis
      by (intro ends [of s]) (auto simp: refresh_finish_def audit.then_continues)
  next
    case (success s u)
    obtain a r mm where "fst (refresh_tx E (hashRefreshToken E tok) ip ua w) = Inr (Success (u_email u) a r mm)"
      using success by simp
    with eq success finish_success_state [of E ip ua "u_email u" a r mm "rotated_world E s u ip ua w"]
    show ?thesis by auto
  qed (use eq in \<open>auto intro!: keeps simp: refusal_ends_user_def\<close>)
qed

lemma revokeAll_refines:
  assumes "session_table_ok E w" "sessions v = sessions w"
  shows "vault_run (EndUser uid) (vault_of (sessions w)) =
    Some (vault_of (sessions (snd (revokeAllUserSessions uid v))))"
  using vault_revoke_user [OF table_keys(1) [OF assms(1)]] by (simp add: revokeAll_eq assms(2))

lemma logout_refines:
  assumes "session_table_ok E w" "logout E uid j tok w = (Inr x, w1)"
  shows "if truthy tok
    then vault_run (End uid (hashRefreshToken E (the tok))) (vault_of (sessions w)) = Some (vault_of (sessions w1))
    else vault_of (sessions w1) = vault_of (sessions w)"
proof -
  obtain r v where d: "denylist_own_token j w = (r, v)" by fastforce
  then have v: "sessions v = sessions w" using rows_kept_denylist [of j] by (metis rows_kept_def snd_conv)
  with assms(2) d vault_revoke_one [OF table_keys(1) [OF assms(1)]] show ?thesis
    by (cases r) (auto simp: logout_def andThen_def revokeSessionByRefreshHash_def revoke_where_def ret_def)
qed

lemma logoutAll_refines:
  assumes "session_table_ok E w" "logoutAll uid j w = (Inr x, w1)"
  shows "vault_run (EndUser uid) (vault_of (sessions w)) = Some (vault_of (sessions w1))"
proof -
  obtain r v where d: "denylist_own_token j w = (r, v)" by fastforce
  then have v: "sessions v = sessions w" using rows_kept_denylist [of j] by (metis rows_kept_def snd_conv)
  with assms(2) d show ?thesis
    unfolding revokeAll_refines [OF assms(1) v]
    by (cases r) (auto simp: logoutAll_def andThen_Inl andThen_Inr port.andThen_revoke ret_def)
qed

lemma changePassword_refines:
  assumes "session_table_ok E w" "changePassword E uid old new w = (Inr x, w1)"
  shows "vault_run (EndUser uid) (vault_of (sessions w)) = Some (vault_of (sessions w1))"
  using assms(2)
proof (rule changePassword_returnsE)
  fix w0 assume "w1 = snd (revokeAllUserSessions uid w0)" "same_sessions w w0"
  with revokeAll_refines [OF assms(1), of w0 uid] show ?thesis by (simp add: same_sessions_def)
qed

lemma setUserActive_refines:
  assumes "session_table_ok E w" "setUserActive uid b w = (Inr x, w1)"
  shows "if b then vault_of (sessions w1) = vault_of (sessions w)
    else vault_run (EndUser uid) (vault_of (sessions w)) = Some (vault_of (sessions w1))"
proof -
  have found: "users_findById uid w \<noteq> None" "\<not> cacheDelFails (w_faults w) (user_key uid)"
    using assms(2) by (auto simp: setUserActive_def andThen_def setActive_cases split: if_splits)
  have "sessions (activated uid b w) = sessions w" by (simp add: activated_def)
  with assms(2) revokeAll_refines [OF assms(1) this] show ?thesis
    by (auto simp: setUserActive_eq [OF found])
qed

text \<open>The purge takes only tokens that expired before its cutoff; the vault never misses them.\<close>

definition purged_before :: "time \<Rightarrow> vault \<Rightarrow> vault \<Rightarrow> bool" where
  "purged_before c v v1 \<longleftrightarrow> (\<forall>h. v1 h = v h \<or> v1 h = None \<and> (\<exists>u e. v h = Some (u, e) \<and> e < c))"

lemma purged_before_trans: "purged_before c v v1 \<Longrightarrow> purged_before c v1 v2 \<Longrightarrow> purged_before c v v2"
  unfolding purged_before_def by metis

lemma delete_expired_refines:
  assumes "session_table_ok E w"
  shows "purged_before c (vault_of (sessions w)) (vault_of (sessions (snd (delete_expired_sessions c b w))))"
proof -
  let ?ids = "batch_keys s_id (expired_before c) b (sessions w)"
  have "s_expiresAt s < c" if s: "s \<in> set (sessions w)" "s_id s \<in> set ?ids" for s
  proof -
    from s(2) obtain q where "q \<in> set (sessions w)" "expired_before c q" "s_id q = s_id s"
      by (auto simp: batch_keys_def dest!: in_set_takeD)
    moreover from this s(1) have "q = s" using table_keys(2) [OF assms] by (auto simp: distinct_map inj_on_def)
    ultimately show ?thesis by (simp add: expired_before_def)
  qed
  then show ?thesis
    using vault_remove [OF table_keys(1) [OF assms], of ?ids c]
    by (auto simp: purged_before_def delete_expired_sessions_def Let_def)
qed

lemma purge_refines:
  assumes "session_table_ok E w"
  shows "case runSessionPurge cfg w of
      None \<Rightarrow> pc_batchSize cfg = 0
    | Some w1 \<Rightarrow> purged_before (daysAgo (pc_sessionGraceDays cfg) w) (vault_of (sessions w)) (vault_of (sessions w1))"
proof (cases "runSessionPurge cfg w")
  case None
  have "\<exists>r w1. deleteInBatches (delete_expired_sessions c (Suc b)) (Suc b) 0 w = Some (r, w1)" for c b
    using session_purge.loop_ends [of w c b 0] table_keys(2) [OF assms] by (auto simp: session_ids_distinct_def)
  note ends = this
  have "pc_batchSize cfg = 0"
  proof (cases "pc_batchSize cfg")
    case (Suc b)
    obtain r w1 where "deleteInBatches (delete_expired_sessions (daysAgo (pc_sessionGraceDays cfg) w) (Suc b)) (Suc b) 0 w
        = Some (r, w1)"
      using ends by blast
    with None Suc show ?thesis by (simp add: runSessionPurge_def split: if_splits)
  qed
  with None show ?thesis by simp
next
  case (Some w1)
  let ?c = "daysAgo (pc_sessionGraceDays cfg) w"
  let ?I = "\<lambda>v. session_table_ok E v \<and> purged_before ?c (vault_of (sessions w)) (vault_of (sessions v))"
  have "preserves ?I (delete_expired_sessions ?c b)" for b
    unfolding preserves_def
  proof (intro allI impI conjI; elim conjE)
    fix v assume v: "session_table_ok E v" "purged_before ?c (vault_of (sessions w)) (vault_of (sessions v))"
    have "touches E v (snd (delete_expired_sessions ?c b v))"
      by (simp add: delete_expired_sessions_def Let_def touches_single [OF touch_remove])
    with v(1) show "session_table_ok E (snd (delete_expired_sessions ?c b v))"
      by (rule session_table.touches_keeps [rotated])
    show "purged_before ?c (vault_of (sessions w)) (vault_of (sessions (snd (delete_expired_sessions ?c b v))))"
      using v(2) delete_expired_refines [OF v(1)] by (rule purged_before_trans)
  qed
  moreover have "?I w" using assms by (simp add: purged_before_def)
  ultimately show ?thesis
    using Some deleteInBatches_keeps [where I = ?I and w = w and w' = w1]
    by (auto simp: runSessionPurge_def split: if_splits)
qed

section \<open>The service implements the contract\<close>

lemma case_outcome:
  assumes "\<And>x w1. p = (Inr x, w1) \<Longrightarrow> P x w1" and "\<And>e w1. p = (Inl e, w1) \<Longrightarrow> Q e w1"
  shows "case p of (Inr x, w1) \<Rightarrow> P x w1 | (Inl e, w1) \<Rightarrow> Q e w1"
  using assms by (auto split: prod.split sum.split)

lemmas handler_succeeds = login_refines refresh_refines logout_refines logoutAll_refines
  changePassword_refines setUserActive_refines

lemmas handler_fails = cleanD [OF clean_login] cleanD [OF clean_logout(1)] cleanD [OF clean_logout(2)]
  cleanD [OF clean_changePassword] cleanD [OF clean_setUserActive]

lemma vault_kept:
  "rows_kept m \<Longrightarrow> vault_of (sessions (snd (m w))) = vault_of (sessions w)"
  by (simp add: rows_kept_def)

lemmas quiet_handlers = vault_kept [OF rows_kept_quiet [OF quiet_canActivate]]
  vault_kept [OF rows_kept_quiet [OF quiet_register]] vault_kept [OF rows_kept_quiet [OF quiet_processNext]]

text \<open>
  C4. The handlers implement the vault of refresh tokens: a login that succeeds issues one new
  token for the account with that e-mail, for seven days; a refresh that succeeds exchanges the
  presented token, which must be in the vault and not expired, for a new one of the same user; a
  logout ends the caller's own token; a logout from everywhere, a password change and a
  deactivation end all tokens of the user; a handler that fails leaves the vault as it was, save a
  refresh refused for reuse or because its user may not refresh, which ends all tokens of the user the
  token was issued to; the purge drops only tokens that expired before the grace; authentication,
  registration and the audit worker change nothing.
\<close>

theorem handlers_refine_vault:
  assumes "env_ok E" and "auth_reachable E w"
  shows "let H = hashRefreshToken E; V = (\<lambda>w. vault_of (sessions w)); week = w_now w + 7 * ms_per_day in
    (case login E email pw ip ua w of
       (Inr r, w1) \<Rightarrow> \<exists>u. users_findOneWithPassword email w = Some u \<and>
         vault_run (Issue (H (ar_refresh_token r)) (u_id u) week) (V w) = Some (V w1)
     | (Inl _, w1) \<Rightarrow> V w1 = V w) \<and>
    (case refresh E tok ip ua w of
       (Inr r, w1) \<Rightarrow> vault_run (Exchange (H tok) (H (ar_refresh_token r)) (w_now w) week) (V w) = Some (V w1)
     | (Inl _, w1) \<Rightarrow> (if \<exists>s. refusal_ends_user E tok w s
         then \<exists>s. refusal_ends_user E tok w s \<and> vault_run (EndUser (s_userId s)) (V w) = Some (V w1)
         else V w1 = V w)) \<and>
    (case logout E uid j t w of
       (Inr _, w1) \<Rightarrow> (if truthy t then vault_run (End uid (H (the t))) (V w) = Some (V w1) else V w1 = V w)
     | (Inl _, w1) \<Rightarrow> V w1 = V w) \<and>
    (case logoutAll uid j w of
       (Inr _, w1) \<Rightarrow> vault_run (EndUser uid) (V w) = Some (V w1) | (Inl _, w1) \<Rightarrow> V w1 = V w) \<and>
    (case changePassword E uid old new w of
       (Inr _, w1) \<Rightarrow> vault_run (EndUser uid) (V w) = Some (V w1) | (Inl _, w1) \<Rightarrow> V w1 = V w) \<and>
    (case setUserActive uid b w of
       (Inr _, w1) \<Rightarrow> (if b then V w1 = V w else vault_run (EndUser uid) (V w) = Some (V w1))
     | (Inl _, w1) \<Rightarrow> V w1 = V w) \<and>
    (case runSessionPurge cfg w of
       None \<Rightarrow> pc_batchSize cfg = 0
     | Some w1 \<Rightarrow> purged_before (daysAgo (pc_sessionGraceDays cfg) w) (V w) (V w1)) \<and>
    V (snd (canActivate E pub bearer w)) = V w \<and> V (snd (register E dto w)) = V w \<and>
    V (snd (processNext E w)) = V w"
  unfolding Let_def
proof (intro conjI)
  note ok = reachable_table_ok [OF assms]
  show "case runSessionPurge cfg w of None \<Rightarrow> pc_batchSize cfg = 0
      | Some w1 \<Rightarrow> purged_before (daysAgo (pc_sessionGraceDays cfg) w) (vault_of (sessions w)) (vault_of (sessions w1))"
    by (rule purge_refines [OF ok])
qed (rule quiet_handlers | (rule case_outcome,
     erule handler_succeeds [OF reachable_table_ok [OF assms]],
     erule handler_fails refresh_refused_refines [OF reachable_table_ok [OF assms]]))+

theorem handlers_refine_vault_witness:
  "\<exists>r w1. refresh demo_env demo_token None None (snd demo_login) = (Inr r, w1) \<and>
     vault_of (sessions w1) = [hashRefreshToken demo_env (ar_refresh_token r) \<mapsto> (''u-a'', 1000000 + 7 * 86400000)]"
proof -
  let ?w = "snd demo_login" and ?r = "projr (fst demo_refresh)" and ?w1 = "snd demo_refresh"
  have ref: "refresh demo_env demo_token None None ?w = (Inr ?r, ?w1)"
    using demo_refresh_returns by (simp add: demo_refresh_def)
  have "vault_run (Exchange (hashRefreshToken demo_env demo_token) (hashRefreshToken demo_env (ar_refresh_token ?r))
      (w_now ?w) (w_now ?w + 7 * ms_per_day)) (vault_of (sessions ?w)) = Some (vault_of (sessions ?w1))"
    using handlers_refine_vault [OF demo_env_ok demo_reachable, where tok = demo_token and ip = None and ua = None]
    by (simp add: Let_def ref)
  moreover obtain z where z: "sessions ?w = [z]" "s_refreshTokenHash z = hashRefreshToken demo_env demo_token"
    "s_revokedAt z = None" "s_userId z = ''u-a''"
  proof -
    have "map (\<lambda>s. (s_refreshTokenHash s, s_revokedAt s, s_userId s)) (sessions ?w) =
        [(hashRefreshToken demo_env demo_token, None, ''u-a'')]" by code_simp
    then show ?thesis using that by auto
  qed
  then have "vault_of (sessions ?w) = [hashRefreshToken demo_env demo_token \<mapsto> (''u-a'', s_expiresAt z)]"
    by (auto simp: vault_of_def live_row_def find_row_Cons fun_eq_iff)
  moreover have "w_now ?w = 1000000" by code_simp
  ultimately have "vault_of (sessions ?w1) =
      [hashRefreshToken demo_env (ar_refresh_token ?r) \<mapsto> (''u-a'', 1000000 + 7 * 86400000)]"
    by (simp add: vault_run.simps split: if_splits)
  with ref show ?thesis by blast
qed

end
