(* ===== verification/Session_Concurrent.thy ===== *)
theory Session_Concurrent
  imports Auth_Refinement
begin

text \<open>
  Refresh requests and mass revocations that overlap. The transaction of \<open>refresh\<close> is split at
  its statements, and \<open>revokeAllUserSessions\<close> at the start and the end of its UPDATE, under the
  isolation PostgreSQL gives them (READ COMMITTED): a statement sees what was committed when it
  started; a row that another transaction has locked or written is waited for, and looked at again
  when that transaction has ended; what a transaction writes is seen by others when it commits.
\<close>

section \<open>Transactions\<close>

text \<open>
  Where a request stands. A refresh (with the hash of its token): before it has the row, with the row
  locked and the time it read, about to revoke all sessions, with the user it read, with the new row
  inserted, with the old row marked, revoking (its UPDATE has seen these ids), and its end. A mass revocation: its UPDATE has
  seen these ids; it is done.
\<close>

datatype tx =
    Presents string
  | Locked string session time
  | Condemned string session
  | Accepted string session user
  | Inserted string session session
  | Marked string session session
  | Revoking string session "uuid list"
  | Exchanged string session
  | Refused string
  | Updating uuid "uuid list"
  | Updated uuid "uuid list"

text \<open>The committed state, the requests, and when each began its transaction (its \<open>NOW()\<close>).\<close>

record tx_conf =
  tc_world :: world
  tc_tx :: "nat \<rightharpoonup> tx"
  tc_began :: "nat \<Rightarrow> time"

fun tx_row :: "tx \<Rightarrow> session option" where
  "tx_row (Locked h s t) = Some s"
| "tx_row (Condemned h s) = Some s"
| "tx_row (Accepted h s u) = Some s"
| "tx_row (Inserted h s new) = Some s"
| "tx_row (Marked h s new) = Some s"
| "tx_row (Revoking h s ids) = Some s"
| "tx_row _ = None"

text \<open>The row a request has locked.\<close>

definition held :: "tx_conf \<Rightarrow> nat \<Rightarrow> session option" where
  "held c i = Option.bind (tc_tx c i) tx_row"

fun tx_open :: "tx \<Rightarrow> bool" where
  "tx_open (Exchanged h s) = False"
| "tx_open (Refused h) = False"
| "tx_open (Updated uid ids) = False"
| "tx_open _ = True"

text \<open>\<open>free i c ids\<close>: no request other than \<open>i\<close> holds the lock of one of these rows.\<close>

definition free :: "nat \<Rightarrow> tx_conf \<Rightarrow> uuid set \<Rightarrow> bool" where
  "free i c ids \<longleftrightarrow> (\<forall>j k s. j \<noteq> i \<longrightarrow> tc_tx c j = Some k \<longrightarrow> tx_row k = Some s \<longrightarrow> s_id s \<notin> ids)"

definition tx_goes :: "nat \<Rightarrow> tx \<Rightarrow> tx_conf \<Rightarrow> tx_conf" where
  "tx_goes i k c = c\<lparr>tc_tx := (tc_tx c)(i \<mapsto> k)\<rparr>"

definition tx_begins :: "nat \<Rightarrow> tx_conf \<Rightarrow> tx_conf" where
  "tx_begins i c = c\<lparr>tc_began := (tc_began c)(i := w_now (tc_world c))\<rparr>"

section \<open>The statements\<close>

text \<open>The ids an UPDATE of all sessions of a user sees when it starts.\<close>

definition active_ids :: "uuid \<Rightarrow> world \<Rightarrow> uuid list" where
  "active_ids uid w = map s_id (active_sessions uid (sessions w))"

text \<open>\<open>findOne\<close> with \<open>pessimistic_write\<close>, when the lock is granted, and \<open>new Date()\<close>.\<close>

definition tx_lock :: "nat \<Rightarrow> string \<Rightarrow> tx_conf \<Rightarrow> tx_conf" where
  "tx_lock i h c = (case find_session_by_hash h (tc_world c) of
     None \<Rightarrow> tx_goes i (Refused h) c
   | Some s \<Rightarrow> tx_goes i (Locked h s (w_now (tc_world c))) c)"

text \<open>\<open>revokeAllUserSessions\<close> up to its UPDATE: the denylist is written, the statement starts.\<close>

definition revoke_starts :: "nat \<Rightarrow> uuid \<Rightarrow> (uuid list \<Rightarrow> tx) \<Rightarrow> tx_conf \<Rightarrow> tx_conf" where
  "revoke_starts i uid k c = (let w = tc_world c in
     tx_goes i (k (active_ids uid w)) (c\<lparr>tc_world := w\<lparr>w_cache := denylist_cache uid w\<rparr>\<rparr>))"

text \<open>What the code decides of the row it has locked, reading the user if the row is live.\<close>

definition tx_judge :: "nat \<Rightarrow> string \<Rightarrow> session \<Rightarrow> time \<Rightarrow> tx_conf \<Rightarrow> tx_conf" where
  "tx_judge i h s now c =
     (if s_revokedAt s \<noteq> None then
        if truthy (s_rotatedToSessionId s) then tx_goes i (Refused h) c
        else tx_goes i (Condemned h s) c
      else if s_expiresAt s < now then tx_goes i (Refused h) c
      else let user = find_user_withDeleted (s_userId s) (tc_world c) in
        if \<not> user_may_refresh now user then tx_goes i (Condemned h s) c
        else tx_goes i (Accepted h s (the user)) c)"

text \<open>The INSERT; the new row is not committed. An address too long for its column aborts.\<close>

definition tx_insert :: "env \<Rightarrow> nat \<Rightarrow> string \<Rightarrow> session \<Rightarrow> user \<Rightarrow> string option \<Rightarrow> string option \<Rightarrow> tx_conf \<Rightarrow> tx_conf" where
  "tx_insert E i h s u ip userAgent c = (let w = tc_world c in
     tx_goes i (if varchar_ok 45 ip \<and> varchar_ok 512 userAgent
                then Inserted h s (issued_session E u ip userAgent (Some (s_id s)) w) else Refused h)
       (c\<lparr>tc_world := w\<lparr>w_fresh := w_fresh w + 3\<rparr>\<rparr>))"

text \<open>The UPDATE of the old row, whose lock the transaction has, and the commit of both.\<close>

definition tx_mark :: "nat \<Rightarrow> string \<Rightarrow> session \<Rightarrow> session \<Rightarrow> tx_conf \<Rightarrow> tx_conf" where
  "tx_mark i h s new c = tx_goes i (Marked h s new) c"

definition tx_commit :: "nat \<Rightarrow> string \<Rightarrow> session \<Rightarrow> session \<Rightarrow> tx_conf \<Rightarrow> tx_conf" where
  "tx_commit i h s new c = tx_goes i (Exchanged h s) (c\<lparr>tc_world := set_sessions
     (update_where (\<lambda>q. s_id q = s_id s)
        (\<lambda>q. q\<lparr>s_revokedAt := Some (tc_began c i), s_rotatedToSessionId := Some (s_id new)\<rparr>) (sessions (tc_world c) @ [new]))
     (tc_world c)\<rparr>)"

text \<open>The end of the UPDATE: of the rows it has seen, those that are still active are revoked.\<close>

definition revoke_ends :: "nat \<Rightarrow> uuid \<Rightarrow> uuid list \<Rightarrow> tx \<Rightarrow> tx_conf \<Rightarrow> tx_conf" where
  "revoke_ends i uid ids k c = tx_goes i k (c\<lparr>tc_world := set_sessions
     (update_where (\<lambda>q. s_id q \<in> set ids \<and> active_session uid q)
        (\<lambda>q. q\<lparr>s_revokedAt := Some (tc_began c i)\<rparr>) (sessions (tc_world c))) (tc_world c)\<rparr>)"

section \<open>Interleavings\<close>

text \<open>
  The steps of the requests, and of everything else: logins, handlers that leave the sessions
  alone, and purges of rows that nobody has locked. A transaction may fail at any statement.
\<close>

inductive tx_step :: "env \<Rightarrow> tx_conf \<Rightarrow> tx_conf \<Rightarrow> bool" for E where
  present: "tc_tx c i = None \<Longrightarrow> tx_step E c (tx_goes i (Presents h) (tx_begins i c))"
| lock: "tc_tx c i = Some (Presents h) \<Longrightarrow>
    (\<And>s. find_session_by_hash h (tc_world c) = Some s \<Longrightarrow> free i c {s_id s}) \<Longrightarrow> tx_step E c (tx_lock i h c)"
| judge: "tc_tx c i = Some (Locked h s t) \<Longrightarrow> tx_step E c (tx_judge i h s t c)"
| revoke_starts_inside: "tc_tx c i = Some (Condemned h s) \<Longrightarrow>
    tx_step E c (revoke_starts i (s_userId s) (Revoking h s) c)"
| insert: "tc_tx c i = Some (Accepted h s u) \<Longrightarrow> tx_step E c (tx_insert E i h s u ip userAgent c)"
| mark: "tc_tx c i = Some (Inserted h s new) \<Longrightarrow> tx_step E c (tx_mark i h s new c)"
| commit: "tc_tx c i = Some (Marked h s new) \<Longrightarrow> tx_step E c (tx_commit i h s new c)"
| revoked_all: "tc_tx c i = Some (Revoking h s ids) \<Longrightarrow> free i c (set ids) \<Longrightarrow>
    tx_step E c (revoke_ends i (s_userId s) ids (Refused h) c)"
| aborts: "tc_tx c i = Some k \<Longrightarrow> tx_open k \<Longrightarrow> tx_step E c (tx_goes i (Refused h) c)"
| update_starts: "tc_tx c i = None \<Longrightarrow> tx_step E c (revoke_starts i uid (Updating uid) (tx_begins i c))"
| update_ends: "tc_tx c i = Some (Updating uid ids) \<Longrightarrow> free i c (set ids) \<Longrightarrow>
    tx_step E c (revoke_ends i uid ids (Updated uid ids) c)"
| other_request: "same_sessions (tc_world c) w \<Longrightarrow> tx_step E c (c\<lparr>tc_world := w\<rparr>)"
| login_commits: "tx_step E c (c\<lparr>tc_world := issued_world (issued_session E u ip userAgent None (tc_world c)) (tc_world c)\<rparr>)"
| logout_commits: "(\<And>j s. held c j = Some s \<Longrightarrow> s_refreshTokenHash s \<noteq> h) \<Longrightarrow>
    tx_step E c (c\<lparr>tc_world := snd (revokeSessionByRefreshHash uid h (tc_world c))\<rparr>)"
| purge_commits: "(\<And>j k s. tc_tx c j = Some k \<Longrightarrow> tx_row k = Some s \<Longrightarrow>
      s \<in> set (remove_sessions ids (sessions (tc_world c)))) \<Longrightarrow>
    tx_step E c (c\<lparr>tc_world := set_sessions (remove_sessions ids (sessions (tc_world c))) (tc_world c)\<rparr>)"

inductive tx_run :: "env \<Rightarrow> tx_conf \<Rightarrow> tx_conf \<Rightarrow> bool" for E where
  tx_refl: "tx_run E c c"
| tx_more: "tx_run E c c' \<Longrightarrow> tx_step E c' c'' \<Longrightarrow> tx_run E c c''"

text \<open>Where nobody has a request open.\<close>

definition tx_start :: "world \<Rightarrow> tx_conf" where
  "tx_start w = \<lparr>tc_world = w, tc_tx = Map.empty, tc_began = (\<lambda>_. w_now w)\<rparr>"

section \<open>Invariants\<close>

text \<open>The row a request has inserted and not committed.\<close>

fun tx_new :: "tx \<Rightarrow> session option" where
  "tx_new (Inserted h s new) = Some new"
| "tx_new (Marked h s new) = Some new"
| "tx_new _ = None"

definition made :: "tx_conf \<Rightarrow> nat \<Rightarrow> session option" where
  "made c i = Option.bind (tc_tx c i) tx_new"

lemma tx_goes_simps [simp]:
  "tc_world (tx_goes i k c) = tc_world c" "tc_tx (tx_goes i k c) = (tc_tx c)(i \<mapsto> k)"
  by (simp_all add: tx_goes_def)

lemma held_goes [simp]: "held (tx_goes i k c) j = (if j = i then tx_row k else held c j)"
  by (simp add: held_def)

lemma made_goes [simp]: "made (tx_goes i k c) j = (if j = i then tx_new k else made c j)"
  by (simp add: made_def)

lemma held_world [simp]: "held (c\<lparr>tc_world := w\<rparr>) = held c" "made (c\<lparr>tc_world := w\<rparr>) = made c"
  by (simp_all add: held_def made_def fun_eq_iff)

lemma begins_simps [simp]:
  "tc_world (tx_begins i c) = tc_world c" "tc_tx (tx_begins i c) = tc_tx c"
  "held (tx_begins i c) = held c" "made (tx_begins i c) = made c"
  by (simp_all add: tx_begins_def held_def made_def fun_eq_iff)

lemma free_held: "free i c ids \<longleftrightarrow> (\<forall>j s. j \<noteq> i \<longrightarrow> held c j = Some s \<longrightarrow> s_id s \<notin> ids)"
  by (auto simp: free_def held_def bind_eq_Some_conv)

text \<open>What a request knows of its row: it is the one of its token, and live once accepted.\<close>

fun knows :: "tx \<Rightarrow> bool" where
  "knows (Locked h s t) = (s_refreshTokenHash s = h)"
| "knows (Condemned h s) = (s_refreshTokenHash s = h)"
| "knows (Revoking h s ids) = (s_refreshTokenHash s = h)"
| "knows (Accepted h s u) = (s_refreshTokenHash s = h \<and> s_revokedAt s = None)"
| "knows (Inserted h s new) = (s_refreshTokenHash s = h \<and> s_revokedAt s = None)"
| "knows (Marked h s new) = (s_refreshTokenHash s = h \<and> s_revokedAt s = None)"
| "knows _ = True"

definition all_know :: "tx_conf \<Rightarrow> bool" where
  "all_know c \<longleftrightarrow> (\<forall>i k. tc_tx c i = Some k \<longrightarrow> knows k)"

lemma all_know_goes: "all_know c \<Longrightarrow> knows k \<Longrightarrow> all_know (tx_goes i k c)"
  by (simp add: all_know_def)

lemma all_know_world [simp]: "all_know (c\<lparr>tc_world := w\<rparr>) = all_know c"
  by (simp add: all_know_def)

lemma all_know_begins [simp]: "all_know (tx_begins i c) = all_know c"
  by (simp add: all_know_def)

text \<open>What a logout commits.\<close>

lemma snd_revokeByHash: "snd (revokeSessionByRefreshHash uid h w) = set_sessions
    (update_where (\<lambda>s. active_session uid s \<and> s_refreshTokenHash s = h)
       (\<lambda>s. s\<lparr>s_revokedAt := Some (w_now w)\<rparr>) (sessions w)) w"
  by (simp add: revokeSessionByRefreshHash_def revoke_where_def)

lemmas tx_steps = tx_lock_def tx_judge_def tx_insert_def tx_mark_def tx_commit_def revoke_starts_def revoke_ends_def Let_def

lemma step_all_know: "tx_step E c c' \<Longrightarrow> all_know c \<Longrightarrow> all_know c'"
proof (induction rule: tx_step.induct)
  case (lock c i h)
  then show ?case by (auto simp: tx_steps intro!: all_know_goes split: option.split dest: find_session_in)
next
  case (judge c i h s t)
  then have "knows (Locked h s t)" unfolding all_know_def by blast
  with judge show ?case by (auto simp: tx_steps intro!: all_know_goes)
next
  case (revoke_starts_inside c i h s)
  then have "knows (Condemned h s)" unfolding all_know_def by blast
  with revoke_starts_inside show ?case by (auto simp: tx_steps intro!: all_know_goes)
next
  case (insert c i h s u ip userAgent)
  then have "knows (Accepted h s u)" unfolding all_know_def by blast
  with insert show ?case by (auto simp: tx_steps intro!: all_know_goes)
next
  case (mark c i h s new)
  then have "knows (Inserted h s new)" unfolding all_know_def by blast
  with mark show ?case by (auto simp: tx_steps intro!: all_know_goes)
qed (auto simp: tx_steps intro!: all_know_goes)

text \<open>A row is locked by one request at a time, and its committed version does not change meanwhile.\<close>

definition locks_ok :: "tx_conf \<Rightarrow> bool" where
  "locks_ok c \<longleftrightarrow> (\<forall>i s. held c i = Some s \<longrightarrow> s \<in> set (sessions (tc_world c))) \<and>
     (\<forall>i j s q. held c i = Some s \<longrightarrow> held c j = Some q \<longrightarrow> i \<noteq> j \<longrightarrow> s_id s \<noteq> s_id q)"

lemma locks_goes:
  assumes "locks_ok c" and "tx_row k = None \<or> tx_row k = held c i"
    and "\<And>j s. j \<noteq> i \<or> tx_row k \<noteq> None \<Longrightarrow> held c j = Some s \<Longrightarrow> s \<in> set (sessions w)"
  shows "locks_ok (tx_goes i k (c\<lparr>tc_world := w\<rparr>))"
proof -
  have "held c j = Some s" "j \<noteq> i \<or> tx_row k \<noteq> None"
    if "held (tx_goes i k (c\<lparr>tc_world := w\<rparr>)) j = Some s" for j s
    using that assms(2) by (cases "j = i"; fastforce)+
  note old = this
  show ?thesis
    unfolding locks_ok_def
  proof (intro conjI allI impI)
    fix j s assume "held (tx_goes i k (c\<lparr>tc_world := w\<rparr>)) j = Some s"
    with assms(3) [OF old(2) old(1)] show "s \<in> set (sessions (tc_world (tx_goes i k (c\<lparr>tc_world := w\<rparr>))))" by simp
  next
    fix j l s q
    assume "held (tx_goes i k (c\<lparr>tc_world := w\<rparr>)) j = Some s" "held (tx_goes i k (c\<lparr>tc_world := w\<rparr>)) l = Some q" "j \<noteq> l"
    with old(1) assms(1) show "s_id s \<noteq> s_id q" unfolding locks_ok_def by blast
  qed
qed

lemma locks_world:
  assumes "locks_ok c" and "\<And>j s. held c j = Some s \<Longrightarrow> s \<in> set (sessions w)"
  shows "locks_ok (c\<lparr>tc_world := w\<rparr>)"
  using assms unfolding locks_ok_def by simp

lemma locks_stay: "locks_ok c \<Longrightarrow> tx_row k = None \<or> tx_row k = held c i \<Longrightarrow> locks_ok (tx_goes i k c)"
  unfolding locks_ok_def by (auto split: if_splits)

lemma locks_begins [simp]: "locks_ok (tx_begins i c) = locks_ok c"
  by (simp add: locks_ok_def)

lemma locks_held: "locks_ok c \<Longrightarrow> held c j = Some s \<Longrightarrow> s \<in> set (sessions (tc_world c))"
  unfolding locks_ok_def by blast

lemma step_locks_ok: "tx_step E c c' \<Longrightarrow> locks_ok c \<Longrightarrow> locks_ok c'"
proof (induction rule: tx_step.induct)
  case (lock c i h)
  show ?case
  proof (cases "find_session_by_hash h (tc_world c)")
    case None
    with lock show ?thesis by (simp add: tx_lock_def locks_stay)
  next
    case (Some s)
    with lock.hyps have "free i c {s_id s}" by blast
    with Some lock.prems find_session_in [OF Some] show ?thesis
      unfolding locks_ok_def free_held by (auto simp: tx_lock_def split: if_splits)
  qed
next
  case (commit c i h s new)
  then have i: "held c i = Some s" by (simp add: held_def)
  have "q \<in> set (update_where (\<lambda>q. s_id q = s_id s)
      (\<lambda>q. q\<lparr>s_revokedAt := Some (tc_began c i), s_rotatedToSessionId := Some (s_id new)\<rparr>) (sessions (tc_world c) @ [new]))"
    if "j \<noteq> i" "held c j = Some q" for j q
    using that i commit.prems unfolding locks_ok_def by (auto simp: set_update_where)
  then show ?case unfolding tx_commit_def by (intro locks_goes commit.prems) auto
next
  case (revoked_all c i h s ids)
  have "q \<in> set (sessions (tc_world (revoke_ends i (s_userId s) ids (Refused h) c)))"
    if "j \<noteq> i" "held c j = Some q" for j q
    using that revoked_all.hyps(2) locks_held [OF revoked_all.prems that(2)]
    by (auto simp: revoke_ends_def free_held set_update_where)
  then show ?case unfolding revoke_ends_def by (intro locks_goes revoked_all.prems) auto
next
  case (update_ends c i uid ids)
  then have i: "held c i = None" by (simp add: held_def)
  have "q \<in> set (sessions (tc_world (revoke_ends i uid ids (Updated uid ids) c)))"
    if "held c j = Some q" for j q
    using that i update_ends.hyps(2) locks_held [OF update_ends.prems that]
    by (cases "j = i") (auto simp: revoke_ends_def free_held set_update_where)
  then show ?case unfolding revoke_ends_def by (intro locks_goes update_ends.prems) auto
next
  case (other_request c w)
  then show ?case by (intro locks_world) (auto simp: same_sessions_def dest: locks_held)
next
  case (login_commits c u ip userAgent)
  then show ?case by (intro locks_world) (auto dest: locks_held)
next
  case (purge_commits c ids)
  then show ?case by (intro locks_world) (auto simp: held_def bind_eq_Some_conv)
next
  case (logout_commits c h uid)
  have "q \<in> set (sessions (snd (revokeSessionByRefreshHash uid h (tc_world c))))" if "held c j = Some q" for j q
    using logout_commits.hyps [OF that] locks_held [OF logout_commits.prems that]
    by (auto simp: snd_revokeByHash set_update_where)
  with logout_commits.prems show ?case by (rule locks_world)
next
  case (judge c i h s t)
  then have "held c i = Some s" by (simp add: held_def)
  with judge show ?case by (auto simp: tx_judge_def Let_def intro!: locks_stay)
qed (auto simp: tx_steps held_def intro!: locks_stay locks_world dest: locks_held)

text \<open>The committed table and the rows to be committed: minted by the service, unique hashes and ids.\<close>

definition rows_ok :: "env \<Rightarrow> tx_conf \<Rightarrow> bool" where
  "rows_ok E c \<longleftrightarrow> session_table_ok E (tc_world c) \<and>
     (\<forall>i n. made c i = Some n \<longrightarrow> minted E (w_fresh (tc_world c)) n \<and> s_revokedAt n = None \<and>
        s_refreshTokenHash n \<notin> s_refreshTokenHash ` set (sessions (tc_world c)) \<and>
        s_id n \<notin> s_id ` set (sessions (tc_world c))) \<and>
     (\<forall>i j m n. made c i = Some m \<longrightarrow> made c j = Some n \<longrightarrow> i \<noteq> j \<longrightarrow>
        s_refreshTokenHash m \<noteq> s_refreshTokenHash n \<and> s_id m \<noteq> s_id n)"

lemma minted_not_issued:
  assumes "env_ok E" "minted E (w_fresh w) q"
  shows "s_refreshTokenHash q \<noteq> hashRefreshToken E (tp_refreshToken (issued_pair E u w))"
    and "s_id q \<noteq> e_uuid E (Suc (Suc (w_fresh w)))"
proof -
  from assms(2) obtain tok where "issued_token E (w_fresh w) tok" "s_refreshTokenHash q = hashRefreshToken E tok"
    by (auto simp: minted_def)
  with issued_session_fresh_hash [OF assms(1), of w tok u None None None]
  show "s_refreshTokenHash q \<noteq> hashRefreshToken E (tp_refreshToken (issued_pair E u w))" by simp
  show "s_id q \<noteq> e_uuid E (Suc (Suc (w_fresh w)))"
    using assms by (auto simp: minted_def env_ok_def)
qed

lemma rows_okD:
  "rows_ok E c \<Longrightarrow> session_table_ok E (tc_world c)"
  "rows_ok E c \<Longrightarrow> made c i = Some n \<Longrightarrow> minted E (w_fresh (tc_world c)) n"
  "rows_ok E c \<Longrightarrow> made c i = Some n \<Longrightarrow> s_revokedAt n = None"
  "rows_ok E c \<Longrightarrow> made c i = Some n \<Longrightarrow> s_refreshTokenHash n \<notin> s_refreshTokenHash ` set (sessions (tc_world c))"
  "rows_ok E c \<Longrightarrow> made c i = Some n \<Longrightarrow> s_id n \<notin> s_id ` set (sessions (tc_world c))"
  "rows_ok E c \<Longrightarrow> made c i = Some m \<Longrightarrow> made c j = Some n \<Longrightarrow> i \<noteq> j \<Longrightarrow>
     s_refreshTokenHash m \<noteq> s_refreshTokenHash n \<and> s_id m \<noteq> s_id n"
  unfolding rows_ok_def by blast+

lemma rows_begins [simp]: "rows_ok E (tx_begins i c) = rows_ok E c"
  by (simp add: rows_ok_def)

lemma rows_env: "rows_ok E c \<Longrightarrow> env_ok E"
  by (simp add: rows_ok_def session_table_ok_def)

text \<open>A change of the world that adds no key keeps the rows sound; so does a step that makes no row.\<close>

lemma rows_world:
  assumes "rows_ok E c" "session_table_ok E w" "w_fresh (tc_world c) \<le> w_fresh w"
    and "s_refreshTokenHash ` set (sessions w) \<subseteq> s_refreshTokenHash ` set (sessions (tc_world c))"
    and "s_id ` set (sessions w) \<subseteq> s_id ` set (sessions (tc_world c))"
  shows "rows_ok E (c\<lparr>tc_world := w\<rparr>)"
  unfolding rows_ok_def
proof (intro conjI allI impI)
  fix i n assume n: "made (c\<lparr>tc_world := w\<rparr>) i = Some n"
  then have n: "made c i = Some n" by simp
  show "minted E (w_fresh (tc_world (c\<lparr>tc_world := w\<rparr>))) n"
    using minted_mono [OF rows_okD(2) [OF assms(1) n] assms(3)] by simp
  show "s_revokedAt n = None" by (rule rows_okD(3) [OF assms(1) n])
  show "s_refreshTokenHash n \<notin> s_refreshTokenHash ` set (sessions (tc_world (c\<lparr>tc_world := w\<rparr>)))"
    using rows_okD(4) [OF assms(1) n] assms(4) by auto
  show "s_id n \<notin> s_id ` set (sessions (tc_world (c\<lparr>tc_world := w\<rparr>)))"
    using rows_okD(5) [OF assms(1) n] assms(5) by auto
next
  fix i j m n assume "made (c\<lparr>tc_world := w\<rparr>) i = Some m" "made (c\<lparr>tc_world := w\<rparr>) j = Some n" "i \<noteq> j"
  then show "s_refreshTokenHash m \<noteq> s_refreshTokenHash n" "s_id m \<noteq> s_id n"
    using rows_okD(6) [OF assms(1)] by simp_all
qed (use assms(2) in simp)

lemma rows_stay:
  assumes "rows_ok E c" and "tx_new k = None \<or> tx_new k = made c i"
  shows "rows_ok E (tx_goes i k c)"
proof -
  have "made c j = Some n" if "made (tx_goes i k c) j = Some n" for j n
    using that assms(2) by (cases "j = i"; fastforce)
  with assms(1) show ?thesis unfolding rows_ok_def tx_goes_simps by blast
qed

lemma table_revoke: "session_table_ok E w \<Longrightarrow> (\<And>s. minted E (w_fresh w) s \<Longrightarrow> minted E (w_fresh w) (f s)) \<Longrightarrow>
    (\<And>s. s_refreshTokenHash (f s) = s_refreshTokenHash s) \<Longrightarrow> (\<And>s. s_id (f s) = s_id s) \<Longrightarrow>
    session_table_ok E (set_sessions (update_where P f (sessions w)) w)"
  by (auto simp: session_table_ok_def map_update_where set_update_where)

lemma image_update_where: "(\<And>s. k (f s) = k s) \<Longrightarrow> k ` set (update_where P f ss) = k ` set ss"
  unfolding set_map [symmetric] by (simp add: map_update_where)

lemma goes_world: "(tx_goes i k c)\<lparr>tc_world := w\<rparr> = tx_goes i k (c\<lparr>tc_world := w\<rparr>)"
  by (cases c) (simp add: tx_goes_def)

lemma set_sessions_twice: "set_sessions a (set_sessions b w) = set_sessions a w"
  by (simp add: set_sessions_def)

text \<open>Committing a row that was made.\<close>

lemma rows_commit:
  assumes "rows_ok E c" "made c i = Some new"
  shows "rows_ok E (tx_commit i h s new c)"
proof -
  let ?w = "tc_world c" and ?f = "\<lambda>q. q\<lparr>s_revokedAt := Some (tc_began c i), s_rotatedToSessionId := Some (s_id new)\<rparr>"
  let ?w1 = "set_sessions (sessions ?w @ [new]) ?w"
  have "session_table_ok E ?w1"
    using rows_okD(1) [OF assms(1)] rows_okD(2,4,5) [OF assms] by (auto simp: session_table_ok_def)
  then have table: "session_table_ok E (set_sessions (update_where (\<lambda>q. s_id q = s_id s) ?f (sessions ?w1)) ?w1)"
    by (rule table_revoke) simp_all
  have "rows_ok E ((tx_goes i (Exchanged h s) c)\<lparr>tc_world := ?w1\<rparr>)"
  proof -
    show ?thesis
      unfolding rows_ok_def
    proof (intro conjI allI impI)
      fix j n assume "made ((tx_goes i (Exchanged h s) c)\<lparr>tc_world := ?w1\<rparr>) j = Some n"
      then have n: "made c j = Some n" "j \<noteq> i" by (simp_all split: if_splits)
      note facts = rows_okD(2-5) [OF assms(1) n(1)] rows_okD(6) [OF assms(1) n(1) assms(2) n(2)]
      show "minted E (w_fresh (tc_world ((tx_goes i (Exchanged h s) c)\<lparr>tc_world := ?w1\<rparr>))) n"
        "s_revokedAt n = None" using facts by simp_all
      show "s_refreshTokenHash n \<notin> s_refreshTokenHash ` set (sessions (tc_world ((tx_goes i (Exchanged h s) c)\<lparr>tc_world := ?w1\<rparr>)))"
        "s_id n \<notin> s_id ` set (sessions (tc_world ((tx_goes i (Exchanged h s) c)\<lparr>tc_world := ?w1\<rparr>)))"
        using facts by simp_all
    next
      fix j l m n
      assume "made ((tx_goes i (Exchanged h s) c)\<lparr>tc_world := ?w1\<rparr>) j = Some m"
        "made ((tx_goes i (Exchanged h s) c)\<lparr>tc_world := ?w1\<rparr>) l = Some n" "j \<noteq> l"
      then have "made c j = Some m" "made c l = Some n" "j \<noteq> l" by (simp_all split: if_splits)
      then show "s_refreshTokenHash m \<noteq> s_refreshTokenHash n" "s_id m \<noteq> s_id n"
        using rows_okD(6) [OF assms(1)] by blast+
    qed (use \<open>session_table_ok E ?w1\<close> in simp)
  qed
  from rows_world [OF this, of "set_sessions (update_where (\<lambda>q. s_id q = s_id s) ?f (sessions ?w1)) ?w1"] table
  show ?thesis by (simp add: tx_commit_def goes_world image_update_where set_sessions_twice)
qed

lemma step_rows_ok: "tx_step E c c' \<Longrightarrow> rows_ok E c \<Longrightarrow> rows_ok E c'"
proof (induction rule: tx_step.induct)
  case (insert c i h s u ip userAgent)
  let ?w = "tc_world c" and ?c = "c\<lparr>tc_world := tc_world c\<lparr>w_fresh := w_fresh (tc_world c) + 3\<rparr>\<rparr>"
  have ok: "rows_ok E ?c"
    using insert.prems rows_okD(1) [OF insert.prems]
    by (intro rows_world) (auto simp: session_table_ok_def intro: minted_mono)
  show ?case
  proof (cases "varchar_ok 45 ip \<and> varchar_ok 512 userAgent")
    case False
    then show ?thesis using rows_stay [OF ok, of "Refused h" i] by (auto simp: tx_insert_def Let_def)
  next
    case True
    let ?new = "issued_session E u ip userAgent (Some (s_id s)) ?w"
    note env = rows_env [OF insert.prems]
    have fresh: "s_refreshTokenHash q \<noteq> s_refreshTokenHash ?new" "s_id q \<noteq> s_id ?new"
      if "minted E (w_fresh ?w) q" for q
      using minted_not_issued [OF env that] by simp_all
    have old: "minted E (w_fresh ?w) q" if "q \<in> set (sessions ?w) \<or> made c j = Some q \<and> j \<noteq> i" for q j
      using that rows_okD(1,2) [OF insert.prems] by (auto simp: session_table_ok_def)
    have "rows_ok E (tx_goes i (Inserted h s ?new) ?c)"
      unfolding rows_ok_def
    proof (intro conjI allI impI)
      show "session_table_ok E (tc_world (tx_goes i (Inserted h s ?new) ?c))" using rows_okD(1) [OF ok] by simp
    next
      fix j n assume "made (tx_goes i (Inserted h s ?new) ?c) j = Some n"
      then have n: "j = i \<and> n = ?new \<or> j \<noteq> i \<and> made c j = Some n" by (auto split: if_splits)
      then show "minted E (w_fresh (tc_world (tx_goes i (Inserted h s ?new) ?c))) n"
        using issued_session_minted minted_mono [OF old [of n j]] by auto
      show "s_revokedAt n = None" using n rows_okD(3) [OF insert.prems] by auto
      show "s_refreshTokenHash n \<notin> s_refreshTokenHash ` set (sessions (tc_world (tx_goes i (Inserted h s ?new) ?c)))"
        using n rows_okD(4) [OF insert.prems, of j n] fresh(1) [OF old] by fastforce
      show "s_id n \<notin> s_id ` set (sessions (tc_world (tx_goes i (Inserted h s ?new) ?c)))"
        using n rows_okD(5) [OF insert.prems, of j n] fresh(2) [OF old] by fastforce
    next
      fix j l m n
      assume "made (tx_goes i (Inserted h s ?new) ?c) j = Some m"
        "made (tx_goes i (Inserted h s ?new) ?c) l = Some n" and jl: "j \<noteq> l"
      then have "j = i \<and> m = ?new \<and> l \<noteq> i \<and> made c l = Some n \<or> l = i \<and> n = ?new \<and> j \<noteq> i \<and> made c j = Some m \<or>
          made c j = Some m \<and> made c l = Some n" by (auto split: if_splits)
      then show "s_refreshTokenHash m \<noteq> s_refreshTokenHash n" "s_id m \<noteq> s_id n"
        using jl fresh [OF old] rows_okD(6) [OF insert.prems] by metis+
    qed
    with True show ?thesis by (simp add: tx_insert_def Let_def)
  qed
next
  case (commit c i h s new)
  then show ?case by (intro rows_commit) (simp_all add: made_def)
next
  case (revoked_all c i h s ids)
  then show ?case
    unfolding revoke_ends_def
    by (intro rows_stay rows_world table_revoke) (auto simp: rows_okD(1) image_update_where)
next
  case (update_ends c i uid ids)
  then show ?case
    unfolding revoke_ends_def
    by (intro rows_stay rows_world table_revoke) (auto simp: rows_okD(1) image_update_where)
next
  case (other_request c w)
  then have "session_table_ok E w"
    using session_table.touch_keeps [OF touch_none] rows_okD(1) by blast
  with other_request show ?case by (intro rows_world) (auto simp: same_sessions_def)
next
  case (login_commits c u ip userAgent)
  let ?w = "tc_world c" and ?new = "issued_session E u ip userAgent None (tc_world c)"
  note env = rows_env [OF login_commits]
  have table: "session_table_ok E (issued_world ?new ?w)"
    by (rule session_table.touch_keeps [OF touch_issue rows_okD(1) [OF login_commits]])
  show ?case
    unfolding rows_ok_def
  proof (intro conjI allI impI)
    fix j n assume "made (c\<lparr>tc_world := issued_world ?new ?w\<rparr>) j = Some n"
    then have n: "made c j = Some n" by simp
    note facts = rows_okD(2-5) [OF login_commits n]
    show "minted E (w_fresh (tc_world (c\<lparr>tc_world := issued_world ?new ?w\<rparr>))) n" "s_revokedAt n = None"
      using facts minted_mono by auto
    show "s_refreshTokenHash n \<notin> s_refreshTokenHash ` set (sessions (tc_world (c\<lparr>tc_world := issued_world ?new ?w\<rparr>)))"
      "s_id n \<notin> s_id ` set (sessions (tc_world (c\<lparr>tc_world := issued_world ?new ?w\<rparr>)))"
      using facts minted_not_issued [OF env facts(1)] by simp_all
  next
    fix j l m n
    assume "made (c\<lparr>tc_world := issued_world ?new ?w\<rparr>) j = Some m"
      "made (c\<lparr>tc_world := issued_world ?new ?w\<rparr>) l = Some n" "j \<noteq> l"
    then show "s_refreshTokenHash m \<noteq> s_refreshTokenHash n" "s_id m \<noteq> s_id n"
      using rows_okD(6) [OF login_commits] by simp_all
  qed (use table in simp)
next
  case (purge_commits c ids)
  have "session_table_ok E (set_sessions (remove_sessions ids (sessions (tc_world c))) (tc_world c))"
    by (rule session_table.touch_keeps [OF touch_remove rows_okD(1) [OF purge_commits.prems]])
  with purge_commits.prems show ?case
    by (intro rows_world) (fastforce dest!: remove_sessions_in)+
next
  case (logout_commits c h uid)
  then show ?case
    unfolding snd_revokeByHash
    by (intro rows_world table_revoke) (auto simp: rows_okD(1) image_update_where)
next
  case (mark c i h s new)
  then show ?case by (auto simp: tx_mark_def made_def intro!: rows_stay)
qed (auto simp: tx_lock_def tx_judge_def revoke_starts_def Let_def session_table_ok_def rows_ok_def
    intro!: rows_stay rows_world split: option.split)

section \<open>What is over stays over\<close>

text \<open>Every committed row of a set has a property, and no row of the set is to come.\<close>

definition stays :: "(session \<Rightarrow> bool) \<Rightarrow> (session \<Rightarrow> bool) \<Rightarrow> tx_conf \<Rightarrow> bool" where
  "stays P K c \<longleftrightarrow> (\<forall>q \<in> set (sessions (tc_world c)). K q \<longrightarrow> P q) \<and>
     (\<forall>i n. made c i = Some n \<longrightarrow> \<not> K n)"

text \<open>A property that revoking, rotating and unlinking a row keep.\<close>

definition lasting :: "(session \<Rightarrow> bool) \<Rightarrow> bool" where
  "lasting P \<longleftrightarrow> (\<forall>q t x. P q \<longrightarrow> P (q\<lparr>s_revokedAt := Some t\<rparr>) \<and>
     P (q\<lparr>s_revokedAt := Some t, s_rotatedToSessionId := x\<rparr>) \<and> P (q\<lparr>s_rotatedFromSessionId := x\<rparr>))"

text \<open>The kinds of sets: by the hash of an issued token, or by ids that were issued.\<close>

definition issued_key :: "env \<Rightarrow> nat \<Rightarrow> (session \<Rightarrow> bool) \<Rightarrow> bool" where
  "issued_key E n K \<longleftrightarrow>
     (\<exists>tok. issued_token E n tok \<and> K = (\<lambda>q. s_refreshTokenHash q = hashRefreshToken E tok)) \<or>
     (\<exists>ids. (\<forall>x \<in> set ids. \<exists>k < n. x = e_uuid E k) \<and> K = (\<lambda>q. s_id q \<in> set ids))"

lemma issued_key_mono: "issued_key E n K \<Longrightarrow> n \<le> m \<Longrightarrow> issued_key E m K"
  unfolding issued_key_def by (meson issued_token_mono order_less_le_trans)

lemma issued_key_keys:
  "issued_key E n K \<Longrightarrow> s_refreshTokenHash p = s_refreshTokenHash q \<Longrightarrow> s_id p = s_id q \<Longrightarrow> K p = K q"
  by (auto simp: issued_key_def)

lemma issued_key_new:
  assumes "env_ok E" "issued_key E (w_fresh w) K"
  shows "\<not> K (issued_session E u ip ua rf w)"
  using assms(2) unfolding issued_key_def
proof (elim disjE exE conjE)
  fix tok assume "issued_token E (w_fresh w) tok" "K = (\<lambda>q. s_refreshTokenHash q = hashRefreshToken E tok)"
  with issued_session_fresh_hash [OF assms(1)] show ?thesis by metis
next
  fix ids assume "\<forall>x \<in> set ids. \<exists>k < w_fresh w. x = e_uuid E k" "K = (\<lambda>q. s_id q \<in> set ids)"
  with assms(1) show ?thesis by (auto simp: env_ok_def)
qed

lemma step_fresh: "tx_step E c c' \<Longrightarrow> w_fresh (tc_world c) \<le> w_fresh (tc_world c')"
  by (induction rule: tx_step.induct) (auto simp: tx_steps same_sessions_def snd_revokeByHash split: option.split)

lemma stays_world:
  assumes "stays P K c"
    and "\<And>q. q \<in> set (sessions w) \<Longrightarrow> K q \<Longrightarrow> P q"
  shows "stays P K (c\<lparr>tc_world := w\<rparr>)"
  using assms unfolding stays_def by simp

lemma stays_begins [simp]: "stays P K (tx_begins i c) = stays P K c"
  by (simp add: stays_def)

lemma stays_goes: "stays P K c \<Longrightarrow> (\<And>n. tx_new k = Some n \<Longrightarrow> \<not> K n) \<Longrightarrow> stays P K (tx_goes i k c)"
  unfolding stays_def by (auto split: if_splits)

lemma step_stays:
  assumes "tx_step E c c'" "rows_ok E c" "issued_key E (w_fresh (tc_world c)) K" "lasting P" "stays P K c"
  shows "stays P K c'"
  using assms
proof (induction rule: tx_step.induct)
  case (insert c i h s u ip userAgent)
  have "\<not> K (issued_session E u ip userAgent (Some (s_id s)) (tc_world c))"
    using issued_key_new [OF rows_env [OF insert.prems(1)] insert.prems(2)] by blast
  with insert.prems show ?case
    unfolding tx_insert_def Let_def by (intro stays_goes stays_world) (auto simp: stays_def split: if_splits)
next
  case (mark c i h s new)
  then have "made c i = Some new" by (simp add: made_def)
  with mark.prems show ?case unfolding tx_mark_def by (intro stays_goes) (auto simp: stays_def)
next
  case (commit c i h s new)
  then have "made c i = Some new" by (simp add: made_def)
  with commit.prems(4) have "\<not> K new" by (simp add: stays_def)
  have "K (q\<lparr>s_revokedAt := x, s_rotatedToSessionId := y\<rparr>) = K q" for q x y
    by (rule issued_key_keys [OF commit.prems(2)]) simp_all
  with \<open>\<not> K new\<close> show ?case
    using commit.prems(3,4) unfolding tx_commit_def
    by (intro stays_goes stays_world) (auto simp: stays_def lasting_def set_update_where)
next
  case (revoked_all c i h s ids)
  have "K (q\<lparr>s_revokedAt := x\<rparr>) = K q" for q x by (rule issued_key_keys [OF revoked_all.prems(2)]) simp_all
  with revoked_all.prems(3,4) show ?case
    unfolding revoke_ends_def by (intro stays_goes stays_world) (auto simp: stays_def lasting_def set_update_where)
next
  case (update_ends c i uid ids)
  have "K (q\<lparr>s_revokedAt := x\<rparr>) = K q" for q x by (rule issued_key_keys [OF update_ends.prems(2)]) simp_all
  with update_ends.prems(3,4) show ?case
    unfolding revoke_ends_def by (intro stays_goes stays_world) (auto simp: stays_def lasting_def set_update_where)
next
  case (login_commits c u ip userAgent)
  have "\<not> K (issued_session E u ip userAgent None (tc_world c))"
    using issued_key_new [OF rows_env [OF login_commits(1)] login_commits(2)] by blast
  with login_commits(4) show ?case by (intro stays_world) (auto simp: stays_def)
next
  case (purge_commits c ids)
  have "K (q\<lparr>s_rotatedFromSessionId := x\<rparr>) = K q" for q x by (rule issued_key_keys [OF purge_commits.prems(2)]) simp_all
  with purge_commits.prems(3,4) show ?case
    by (intro stays_world) (fastforce simp: stays_def lasting_def dest!: remove_sessions_in)+
next
  case (other_request c w)
  then show ?case by (intro stays_world) (auto simp: stays_def same_sessions_def)
next
  case (logout_commits c h uid)
  have "K (q\<lparr>s_revokedAt := x\<rparr>) = K q" for q x by (rule issued_key_keys [OF logout_commits.prems(2)]) simp_all
  with logout_commits.prems(3,4) show ?case
    unfolding snd_revokeByHash by (intro stays_world) (auto simp: stays_def lasting_def set_update_where)
next
  case (aborts c i k h)
  then show ?case by (intro stays_goes) auto
next
  case (present c i h)
  then show ?case by (intro stays_goes) auto
next
  case (lock c i h)
  then show ?case by (auto simp: tx_lock_def intro!: stays_goes split: option.split)
next
  case (judge c i h s t)
  then show ?case by (auto simp: tx_judge_def Let_def intro!: stays_goes)
next
  case (revoke_starts_inside c i h s)
  then show ?case unfolding revoke_starts_def Let_def by (intro stays_goes stays_world) (auto simp: stays_def)
next
  case (update_starts c i uid)
  then show ?case unfolding revoke_starts_def Let_def by (intro stays_goes stays_world) (auto simp: stays_def)
qed

section \<open>What a step can have done\<close>

lemma new_exchanged:
  assumes "tx_step E c c'" "tc_tx c' i = Some (Exchanged h s)"
  shows "tc_tx c i = Some (Exchanged h s) \<or>
    (\<exists>new. tc_tx c i = Some (Marked h s new) \<and> c' = tx_commit i h s new c)"
  using assms
  by (induction rule: tx_step.induct) (auto simp: tx_steps split: if_splits option.splits)

lemma new_updating:
  assumes "tx_step E c c'" "tc_tx c' i = Some (Updating uid ids)"
  shows "tc_tx c i = Some (Updating uid ids) \<or> ids = active_ids uid (tc_world c) \<and>
    sessions (tc_world c') = sessions (tc_world c) \<and> (\<forall>j n. made c' j = Some n \<longrightarrow> made c j = Some n)"
  using assms
  by (induction rule: tx_step.induct) (auto simp: tx_steps split: if_splits option.splits)

lemma new_updated:
  assumes "tx_step E c c'" "tc_tx c' i = Some (Updated uid ids)"
  shows "tc_tx c i = Some (Updated uid ids) \<or>
    tc_tx c i = Some (Updating uid ids) \<and> c' = revoke_ends i uid ids (Updated uid ids) c"
  using assms
  by (induction rule: tx_step.induct) (auto simp: tx_steps split: if_splits option.splits)

end
