(* ===== verification/Session_Alone.thy ===== *)
theory Session_Alone
  imports Session_Concurrent
begin

text \<open>
  The statements of \<open>refresh\<close> one after the other, with nothing in between, amount to the atomic
  handler of \<open>Auth_Service\<close>.
\<close>

section \<open>A refresh that nothing overlaps\<close>

text \<open>The next statement of a request, and the five that bring any request to its end.\<close>

definition tx_next :: "env \<Rightarrow> nat \<Rightarrow> string option \<Rightarrow> string option \<Rightarrow> tx_conf \<Rightarrow> tx_conf" where
  "tx_next E i ip userAgent c = (case tc_tx c i of
     Some (Presents h) \<Rightarrow> tx_lock i h c
   | Some (Locked h s t) \<Rightarrow> tx_judge i h s t c
   | Some (Condemned h s) \<Rightarrow> revoke_starts i (s_userId s) (Revoking h s) c
   | Some (Accepted h s u) \<Rightarrow> tx_insert E i h s u ip userAgent c
   | Some (Inserted h s new) \<Rightarrow> tx_mark i h s new c
   | Some (Marked h s new) \<Rightarrow> tx_commit i h s new c
   | Some (Revoking h s ids) \<Rightarrow> revoke_ends i (s_userId s) ids (Refused h) c
   | _ \<Rightarrow> c)"

definition tx_alone :: "env \<Rightarrow> string \<Rightarrow> string option \<Rightarrow> string option \<Rightarrow> world \<Rightarrow> tx_conf" where
  "tx_alone E h ip userAgent w =
     (tx_next E 0 ip userAgent ^^ 5) (tx_goes 0 (Presents h) (tx_begins 0 (tx_start w)))"

definition only_request :: "tx_conf \<Rightarrow> bool" where
  "only_request c \<longleftrightarrow> (\<forall>j. j \<noteq> 0 \<longrightarrow> tc_tx c j = None)"

lemma next_runs:
  assumes "only_request c" "tx_run E c0 c"
  shows "only_request (tx_next E 0 ip ua c) \<and> tx_run E c0 (tx_next E 0 ip ua c)"
proof
  show "only_request (tx_next E 0 ip ua c)"
    using assms(1) by (auto simp: only_request_def tx_next_def tx_steps split: option.split tx.split)
  have free: "free 0 c ids" for ids using assms(1) by (auto simp: only_request_def free_def)
  have "tx_next E 0 ip ua c = c \<or> tx_step E c (tx_next E 0 ip ua c)"
    by (auto simp: tx_next_def intro: tx_step.intros free split: option.split tx.split)
  with assms(2) show "tx_run E c0 (tx_next E 0 ip ua c)" by (metis tx_more)
qed

lemma alone_runs: "tx_run E (tx_start w) (tx_alone E h ip ua w)"
proof -
  let ?c = "tx_goes 0 (Presents h) (tx_begins 0 (tx_start w))"
  have "tx_run E (tx_start w) ?c" by (rule tx_more [OF tx_refl present]) (simp add: tx_start_def)
  moreover have "only_request ?c" by (simp add: only_request_def tx_start_def)
  ultimately have "only_request ((tx_next E 0 ip ua ^^ n) ?c) \<and> tx_run E (tx_start w) ((tx_next E 0 ip ua ^^ n) ?c)" for n
    by (induction n) (auto dest: next_runs)
  then show ?thesis unfolding tx_alone_def by blast
qed


lemma revoke_seen: "update_where (\<lambda>q. s_id q \<in> set (map s_id (active_sessions uid ss)) \<and> active_session uid q) f ss =
    update_where (active_session uid) f ss"
  unfolding update_where_def by (rule map_cong) (auto simp: active_sessions_def)

lemma five_times: "(f ^^ 5) x = f (f (f (f (f x))))"
  by (simp add: eval_nat_numeral)

lemmas alone_eval = tx_alone_def five_times tx_next_def tx_steps tx_start_def tx_begins_def tx_goes_def

text \<open>The three ways of the statements: a refusal, a revocation of all sessions, a rotation.\<close>

lemma goes_goes [simp]: "tx_goes i k (tx_goes i l c) = tx_goes i k c"
  by (simp add: tx_goes_def)

lemma alone_refuses:
  assumes "find_session_by_hash h w = None \<or> (\<exists>s. find_session_by_hash h w = Some s \<and>
      (s_revokedAt s \<noteq> None \<and> truthy (s_rotatedToSessionId s) \<or> s_revokedAt s = None \<and> s_expiresAt s < w_now w))"
  shows "tc_world (tx_alone E h ip ua w) = w" "tc_tx (tx_alone E h ip ua w) 0 = Some (Refused h)"
  using assms by (auto simp: alone_eval)

lemma alone_revokes:
  assumes "find_session_by_hash h w = Some s"
    and "s_revokedAt s \<noteq> None \<and> \<not> truthy (s_rotatedToSessionId s) \<or> s_revokedAt s = None \<and>
      \<not> s_expiresAt s < w_now w \<and> \<not> user_may_refresh (w_now w) (find_user_withDeleted (s_userId s) w)"
  shows "tc_world (tx_alone E h ip ua w) = snd (revokeAllUserSessions (s_userId s) w)"
    "tc_tx (tx_alone E h ip ua w) 0 = Some (Refused h)"
  using assms(2)
  by (elim disjE conjE; simp add: assms(1) alone_eval revokeAll_eq active_ids_def revoke_seen del: set_map)+

lemma alone_rotates:
  assumes "find_session_by_hash h w = Some s" "s_revokedAt s = None" "\<not> s_expiresAt s < w_now w"
    and "user_may_refresh (w_now w) (find_user_withDeleted (s_userId s) w)"
    and "u = the (find_user_withDeleted (s_userId s) w)"
  shows "tc_world (tx_alone E h ip ua w) = (if varchar_ok 45 ip \<and> varchar_ok 512 ua
      then rotated_world E s u ip ua w else w\<lparr>w_fresh := w_fresh w + 3\<rparr>)"
    "tc_tx (tx_alone E h ip ua w) 0 = Some (if varchar_ok 45 ip \<and> varchar_ok 512 ua then Exchanged h s else Refused h)"
proof -
  let ?s = "tx_begins 0 (tx_start w)" and ?n = "issued_session E u ip ua (Some (s_id s)) w"
  let ?t = "?s\<lparr>tc_world := w\<lparr>w_fresh := w_fresh w + 3\<rparr>\<rparr>"
  have w: "tc_world ?s = w" "tc_began ?s 0 = w_now w" by (simp_all add: tx_begins_def tx_start_def)
  have 1: "tx_next E 0 ip ua (tx_goes 0 (Presents h) ?s) = tx_goes 0 (Locked h s (w_now w)) ?s"
    using assms(1) w by (simp add: tx_next_def tx_lock_def)
  have 2: "tx_next E 0 ip ua (tx_goes 0 (Locked h s (w_now w)) ?s) = tx_goes 0 (Accepted h s u) ?s"
    using assms w by (simp add: tx_next_def tx_judge_def Let_def)
  let ?k = "if varchar_ok 45 ip \<and> varchar_ok 512 ua then Inserted h s ?n else Refused h"
  have 3: "tx_next E 0 ip ua (tx_goes 0 (Accepted h s u) ?s) = tx_goes 0 ?k ?t"
    using w by (simp add: tx_next_def tx_insert_def Let_def goes_world)
  have 4: "tx_next E 0 ip ua (tx_goes 0 (Inserted h s ?n) ?t) = tx_goes 0 (Marked h s ?n) ?t"
    by (simp add: tx_next_def tx_mark_def)
  have 5: "tx_next E 0 ip ua (tx_goes 0 (Marked h s ?n) ?t) = tx_commit 0 h s ?n (tx_goes 0 (Marked h s ?n) ?t)"
    by (simp add: tx_next_def)
  have x: "tx_next E 0 ip ua (tx_goes 0 (Refused h) ?t) = tx_goes 0 (Refused h) ?t" by (simp add: tx_next_def)
  have world: "tc_world (tx_commit 0 h s ?n (tx_goes 0 (Marked h s ?n) ?t)) = rotated_world E s u ip ua w"
    using w(2) by (simp add: tx_commit_def tx_goes_def rotated_world_def mark_rotated_def issued_world_def set_sessions_twice)
  show "tc_world (tx_alone E h ip ua w) = (if varchar_ok 45 ip \<and> varchar_ok 512 ua
      then rotated_world E s u ip ua w else w\<lparr>w_fresh := w_fresh w + 3\<rparr>)"
    unfolding tx_alone_def five_times 1 2 3
    by (cases "varchar_ok 45 ip \<and> varchar_ok 512 ua") (simp_all only: if_True if_False 4 5 x world simp_thms, simp)
  show "tc_tx (tx_alone E h ip ua w) 0 = Some (if varchar_ok 45 ip \<and> varchar_ok 512 ua then Exchanged h s else Refused h)"
    unfolding tx_alone_def five_times 1 2 3
    by (cases "varchar_ok 45 ip \<and> varchar_ok 512 ua")
       (simp_all only: if_True if_False 4 5 x simp_thms, simp_all add: tx_commit_def)
qed

text \<open>
  The statements agree with the handler: a refresh whose statements nothing overlaps is an
  interleaving that leaves behind the world that the transaction of \<open>refresh\<close> leaves behind, and
  exchanges the token exactly if that transaction succeeds.
\<close>

theorem refresh_alone_agrees:
  "tx_run E (tx_start w) (tx_alone E h ip ua w) \<and>
   tc_world (tx_alone E h ip ua w) = snd (transaction (refresh_tx E h ip ua) w) \<and>
   ((\<exists>s. tc_tx (tx_alone E h ip ua w) 0 = Some (Exchanged h s)) \<longleftrightarrow>
    (\<exists>email access token audit. fst (transaction (refresh_tx E h ip ua) w) = Inr (Success email access token audit)))"
proof -
  let ?c = "tx_alone E h ip ua w"
  have agree: ?thesis if "refresh_tx E h ip ua w = (r, w')" "tc_world ?c = w'" "tc_tx ?c 0 = Some k"
    "isl r \<Longrightarrow> w_db w' = w_db w" "(\<exists>s. k = Exchanged h s) \<longleftrightarrow> (\<exists>a b c d. r = Inr (Success a b c d))" for r w' k
    using that alone_runs by (cases r) (auto simp: transaction_def)
  show ?thesis
  proof (rule refresh_tx_cases [of h w E ip ua])
    fix s
    assume c: "find_session_by_hash h w = Some s" "s_revokedAt s = None" "\<not> (varchar_ok 45 ip \<and> varchar_ok 512 ua)"
      "refresh_tx E h ip ua w = (Inl (QueryFailed ''22001''), w\<lparr>w_fresh := w_fresh w + 3\<rparr>)"
    then have "\<not> s_expiresAt s < w_now w" "user_may_refresh (w_now w) (find_user_withDeleted (s_userId s) w)"
      by (auto simp: refresh_tx_def port.andThen_revoke split: if_splits)
    from alone_rotates [OF c(1,2) this refl, of E ip ua]
    have "tc_world ?c = w\<lparr>w_fresh := w_fresh w + 3\<rparr>" "tc_tx ?c 0 = Some (Refused h)" using c(3) by presburger+
    then show ?thesis by (rule agree [OF c(4)]) simp_all
  next
    fix s u
    assume c: "find_session_by_hash h w = Some s" "s_revokedAt s = None" "\<not> s_expiresAt s < w_now w"
      "find_user_withDeleted (s_userId s) w = Some u" "user_may_refresh (w_now w) (Some u)"
      "varchar_ok 45 ip" "varchar_ok 512 ua"
      "refresh_tx E h ip ua w = (Inr (Success (u_email u) (tp_accessToken (issued_pair E u w))
        (tp_refreshToken (issued_pair E u w)) (context_mismatch_audit s ip ua)), rotated_world E s u ip ua w)"
    have "user_may_refresh (w_now w) (find_user_withDeleted (s_userId s) w)" "u = the (find_user_withDeleted (s_userId s) w)"
      using c(4,5) by simp_all
    from alone_rotates [OF c(1-3) this, of E ip ua]
    have "tc_world ?c = rotated_world E s u ip ua w" "tc_tx ?c 0 = Some (Exchanged h s)" using c(6,7) by simp_all
    then show ?thesis by (rule agree [OF c(8)]) simp_all
  next
    fix s
    assume c: "find_session_by_hash h w = Some s" "s_revokedAt s \<noteq> None" "\<not> truthy (s_rotatedToSessionId s)"
      "refresh_tx E h ip ua w = (Inr (Reuse (s_id s) (s_userId s)
         (length (active_sessions (s_userId s) (sessions w)))), snd (revokeAllUserSessions (s_userId s) w))"
    from alone_revokes [OF c(1), of E ip ua] c(2,3)
    have "tc_world ?c = snd (revokeAllUserSessions (s_userId s) w)" "tc_tx ?c 0 = Some (Refused h)" by blast+
    then show ?thesis by (rule agree [OF c(4)]) simp_all
  next
    fix s
    assume c: "find_session_by_hash h w = Some s" "s_revokedAt s = None" "\<not> s_expiresAt s < w_now w"
      "\<not> user_may_refresh (w_now w) (find_user_withDeleted (s_userId s) w)"
      "refresh_tx E h ip ua w = (Inr (Denied (s_userId s) (s_id s)
         (length (active_sessions (s_userId s) (sessions w)))), snd (revokeAllUserSessions (s_userId s) w))"
    from alone_revokes [OF c(1), of E ip ua] c(2-4)
    have "tc_world ?c = snd (revokeAllUserSessions (s_userId s) w)" "tc_tx ?c 0 = Some (Refused h)" by blast+
    then show ?thesis by (rule agree [OF c(5)]) simp_all
  qed (simp_all add: alone_refuses alone_runs transaction_def)
qed

end
