(* ===== verification/Session_Concurrent_Properties.thy ===== *)
theory Session_Concurrent_Properties
  imports Session_Concurrent
begin

text \<open>
  What overlapping refreshes and mass revocations keep, and the one thing they do not: a refresh
  token is exchanged once, however the requests interleave, and what a mass revocation has seen
  is revoked; but it does not see the session of a refresh that has not committed yet.
\<close>

section \<open>The invariant\<close>

abbreviation revoked :: "session \<Rightarrow> bool" where
  "revoked q \<equiv> s_revokedAt q \<noteq> None"

abbreviation with_hash :: "string \<Rightarrow> session \<Rightarrow> bool" where
  "with_hash h \<equiv> \<lambda>q. s_refreshTokenHash q = h"

abbreviation with_id :: "uuid list \<Rightarrow> session \<Rightarrow> bool" where
  "with_id ids \<equiv> \<lambda>q. s_id q \<in> set ids"

definition over :: "env \<Rightarrow> (session \<Rightarrow> bool) \<Rightarrow> (session \<Rightarrow> bool) \<Rightarrow> tx_conf \<Rightarrow> bool" where
  "over E P K c \<longleftrightarrow> issued_key E (w_fresh (tc_world c)) K \<and> stays P K c"

definition settled :: "env \<Rightarrow> tx_conf \<Rightarrow> bool" where
  "settled E c \<longleftrightarrow>
     (\<forall>i h s. tc_tx c i = Some (Exchanged h s) \<longrightarrow> over E revoked (with_hash h) c) \<and>
     (\<forall>i j h s s'. tc_tx c i = Some (Exchanged h s) \<longrightarrow> tc_tx c j = Some (Exchanged h s') \<longrightarrow> i = j) \<and>
     (\<forall>i uid ids. tc_tx c i = Some (Updating uid ids) \<longrightarrow> over E (\<lambda>q. s_userId q = uid) (with_id ids) c) \<and>
     (\<forall>i uid ids. tc_tx c i = Some (Updated uid ids) \<longrightarrow> over E revoked (with_id ids) c)"

lemma lasting_revoked: "lasting revoked" and lasting_user: "lasting (\<lambda>q. s_userId q = uid)"
  by (simp_all add: lasting_def)

definition tx_inv :: "env \<Rightarrow> tx_conf \<Rightarrow> bool" where
  "tx_inv E c \<longleftrightarrow> all_know c \<and> locks_ok c \<and> rows_ok E c \<and> settled E c"

lemma tx_invD:
  "tx_inv E c \<Longrightarrow> all_know c" "tx_inv E c \<Longrightarrow> locks_ok c" "tx_inv E c \<Longrightarrow> rows_ok E c"
  "tx_inv E c \<Longrightarrow> settled E c"
  by (simp_all add: tx_inv_def)

lemma settledD:
  "settled E c \<Longrightarrow> tc_tx c i = Some (Exchanged h s) \<Longrightarrow> over E revoked (with_hash h) c"
  "settled E c \<Longrightarrow> tc_tx c i = Some (Exchanged h s) \<Longrightarrow> tc_tx c j = Some (Exchanged h s') \<Longrightarrow> i = j"
  "settled E c \<Longrightarrow> tc_tx c i = Some (Updating uid ids) \<Longrightarrow> over E (\<lambda>q. s_userId q = uid) (with_id ids) c"
  "settled E c \<Longrightarrow> tc_tx c i = Some (Updated uid ids) \<Longrightarrow> over E revoked (with_id ids) c"
  unfolding settled_def by blast+

lemma step_over: "tx_step E c c' \<Longrightarrow> tx_inv E c \<Longrightarrow> lasting P \<Longrightarrow> over E P K c \<Longrightarrow> over E P K c'"
  unfolding over_def by (meson issued_key_mono step_fresh step_stays tx_invD(3))

text \<open>The row of a request that is about to commit, in the committed table.\<close>

lemma marked_row:
  assumes "tx_inv E c" "tc_tx c i = Some (Marked h s new)"
  shows "s \<in> set (sessions (tc_world c))" "s_refreshTokenHash s = h" "s_revokedAt s = None" "made c i = Some new"
proof -
  from assms(2) have "held c i = Some s" by (simp add: held_def)
  then show "s \<in> set (sessions (tc_world c))" by (rule locks_held [OF tx_invD(2) [OF assms(1)]])
  have "knows (Marked h s new)" using tx_invD(1) [OF assms(1)] assms(2) unfolding all_know_def by blast
  then show "s_refreshTokenHash s = h" "s_revokedAt s = None" by simp_all
  show "made c i = Some new" using assms(2) by (simp add: made_def)
qed

text \<open>The commit ends every session of the token.\<close>

lemma commit_over:
  assumes inv: "tx_inv E c" and m: "tc_tx c i = Some (Marked h s new)"
  shows "over E revoked (with_hash h) (tx_commit i h s new c)"
proof -
  note row = marked_row [OF inv m] and rows = tx_invD(3) [OF inv]
  note table = rows_okD(1) [OF rows]
  from table row(1,2) obtain tok where tok: "issued_token E (w_fresh (tc_world c)) tok" "h = hashRefreshToken E tok"
    by (auto simp: session_table_ok_def minted_def)
  have "q = s" if "q \<in> set (sessions (tc_world c))" "s_refreshTokenHash q = h" for q
    using unique_session [OF table that(1) row(1)] that(2) row(2) by simp
  moreover have "s_refreshTokenHash new \<noteq> h" using rows_okD(4) [OF rows row(4)] row(1,2) by auto
  moreover have "s_refreshTokenHash n \<noteq> h" if "made c j = Some n" for j n
    using rows_okD(4) [OF rows that] row(1,2) by auto
  ultimately have "stays revoked (with_hash h) (tx_commit i h s new c)"
    unfolding tx_commit_def stays_def by (auto simp: set_update_where split: if_splits)
  then show ?thesis using tok by (auto simp: over_def issued_key_def tx_commit_def)
qed

lemma unique_session_id:
  assumes "session_table_ok E w" "s \<in> set (sessions w)" "s' \<in> set (sessions w)" "s_id s = s_id s'"
  shows "s = s'"
  using assms by (auto simp: session_table_ok_def distinct_map inj_on_def)

lemma update_starts_over:
  assumes rows: "rows_ok E c" and "ids = active_ids uid (tc_world c)" "sessions (tc_world c') = sessions (tc_world c)"
    and made: "\<forall>j n. made c' j = Some n \<longrightarrow> made c j = Some n" and fresh: "w_fresh (tc_world c) \<le> w_fresh (tc_world c')"
  shows "over E (\<lambda>q. s_userId q = uid) (with_id ids) c'"
proof -
  note table = rows_okD(1) [OF rows]
  have ids: "\<exists>p \<in> set (sessions (tc_world c)). s_id p = x \<and> s_userId p = uid" if "x \<in> set ids" for x
    using that assms(2) by (auto simp: active_ids_def active_sessions_def active_session_def)
  have "s_userId q = uid" if "q \<in> set (sessions (tc_world c))" "s_id q \<in> set ids" for q
    using ids [OF that(2)] unique_session_id [OF table _ that(1)] by metis
  moreover have "s_id n \<notin> set ids" if "made c' j = Some n" for j n
  proof
    assume "s_id n \<in> set ids"
    with ids have "s_id n \<in> s_id ` set (sessions (tc_world c))" by (metis imageI)
    with rows_okD(5) [OF rows] made that show False by blast
  qed
  moreover have "\<exists>k < w_fresh (tc_world c). x = e_uuid E k" if "x \<in> set ids" for x
    using ids [OF that] table by (fastforce simp: session_table_ok_def minted_def)
  ultimately show ?thesis
    using assms(3) fresh unfolding over_def stays_def issued_key_def by (metis order_less_le_trans)
qed

lemma update_ends_over:
  assumes "over E (\<lambda>q. s_userId q = uid) (with_id ids) c"
  shows "over E revoked (with_id ids) (revoke_ends i uid ids (Updated uid ids) c)"
  using assms unfolding over_def revoke_ends_def stays_def
  by (auto simp: set_update_where active_session_def split: if_splits)

lemma step_settled:
  assumes step: "tx_step E c c'" and inv: "tx_inv E c"
  shows "settled E c'"
  unfolding settled_def
proof (intro conjI allI impI)
  note old = tx_invD(4) [OF inv]
  fix i h s assume "tc_tx c' i = Some (Exchanged h s)"
  with new_exchanged [OF step] show "over E revoked (with_hash h) c'"
    using settledD(1) [OF old] step_over [OF step inv lasting_revoked] commit_over [OF inv] by metis
next
  note old = tx_invD(4) [OF inv]
  have no: False if "tc_tx c i = Some (Exchanged h s)" "tc_tx c j = Some (Marked h s' new)" for i j h s s' new
    using settledD(1) [OF old that(1)] marked_row [OF inv that(2)] by (auto simp: over_def stays_def)
  fix i j h s s'
  assume i: "tc_tx c' i = Some (Exchanged h s)" and j: "tc_tx c' j = Some (Exchanged h s')"
  from new_exchanged [OF step i] show "i = j"
  proof
    assume "tc_tx c i = Some (Exchanged h s)"
    with new_exchanged [OF step j] settledD(2) [OF old] no show ?thesis by blast
  next
    assume "\<exists>new. tc_tx c i = Some (Marked h s new) \<and> c' = tx_commit i h s new c"
    then obtain new where m: "tc_tx c i = Some (Marked h s new)" "c' = tx_commit i h s new c" by blast
    then have "tc_tx c j = Some (Exchanged h s')" if "i \<noteq> j" using that j by (simp add: tx_commit_def)
    with no m show ?thesis by blast
  qed
next
  note old = tx_invD(4) [OF inv]
  fix i uid ids assume "tc_tx c' i = Some (Updating uid ids)"
  with new_updating [OF step] show "over E (\<lambda>q. s_userId q = uid) (with_id ids) c'"
    using settledD(3) [OF old] step_over [OF step inv lasting_user]
      update_starts_over [OF tx_invD(3) [OF inv] _ _ _ step_fresh [OF step]] by metis
next
  note old = tx_invD(4) [OF inv]
  fix i uid ids assume "tc_tx c' i = Some (Updated uid ids)"
  with new_updated [OF step] show "over E revoked (with_id ids) c'"
    using settledD(3,4) [OF old] step_over [OF step inv lasting_revoked] update_ends_over by metis
qed

lemma tx_inv_step: "tx_step E c c' \<Longrightarrow> tx_inv E c \<Longrightarrow> tx_inv E c'"
  using step_all_know step_locks_ok step_rows_ok step_settled unfolding tx_inv_def by blast

lemma tx_inv_run: "tx_run E c c' \<Longrightarrow> tx_inv E c \<Longrightarrow> tx_inv E c'"
  by (induction rule: tx_run.induct) (auto intro: tx_inv_step)

lemma tx_inv_start:
  assumes "env_ok E" "auth_reachable E (tc_world c)" "tc_tx c = Map.empty"
  shows "tx_inv E c"
  using reachable_table_ok [OF assms(1,2)] assms(3)
  by (simp add: tx_inv_def all_know_def locks_ok_def rows_ok_def settled_def held_def made_def)


section \<open>One exchange per token\<close>

text \<open>
  C5. However refreshes, mass revocations, logins, logouts and purges interleave, statement by
  statement: at most one of the requests that present a refresh token exchanges it; from its
  commit on every committed session with that token's hash is revoked; and every session that a
  finished mass revocation saw when its UPDATE began is revoked.
\<close>

theorem concurrent_refresh_single_use:
  assumes "env_ok E" "auth_reachable E (tc_world c0)" "tc_tx c0 = Map.empty" "tx_run E c0 c"
  shows "(tc_tx c i = Some (Exchanged h s) \<longrightarrow>
      (\<forall>j s'. tc_tx c j = Some (Exchanged h s') \<longrightarrow> j = i) \<and>
      (\<forall>q \<in> set (sessions (tc_world c)). s_refreshTokenHash q = h \<longrightarrow> s_revokedAt q \<noteq> None)) \<and>
    (tc_tx c i = Some (Updated uid ids) \<longrightarrow>
      (\<forall>q \<in> set (sessions (tc_world c)). s_id q \<in> set ids \<longrightarrow> s_revokedAt q \<noteq> None))"
proof -
  have "settled E c" by (rule tx_invD(4) [OF tx_inv_run [OF assms(4) tx_inv_start [OF assms(1-3)]]])
  from settledD(1,2,4) [OF this] show ?thesis unfolding over_def stays_def by blast
qed

section \<open>A mass revocation that overlaps a refresh\<close>

text \<open>Request 0 alone, up to its commit.\<close>

lemma run_to_marked:
  assumes s: "find_session_by_hash h w = Some s" "s_revokedAt s = None" "\<not> s_expiresAt s < w_now w"
    and u: "user_may_refresh (w_now w) (find_user_withDeleted (s_userId s) w)"
    and v: "find_user_withDeleted (s_userId s) w = Some v"
  obtains c where "tx_run E (tx_start w) c" "sessions (tc_world c) = sessions w"
    "tc_tx c = [0 \<mapsto> Marked h s (issued_session E v None None (Some (s_id s)) w)]"
proof -
  define n where "n = issued_session E v None None (Some (s_id s)) w"
  define c1 where "c1 = tx_goes 0 (Presents h) (tx_begins 0 (tx_start w))"
  define c2 where "c2 = tx_lock 0 h c1"
  define c3 where "c3 = tx_judge 0 h s (w_now w) c2"
  define c4 where "c4 = tx_insert E 0 h s v None None c3"
  define c5 where "c5 = tx_mark 0 h s n c4"
  have w1: "tc_world c1 = w" "tc_tx c1 = [0 \<mapsto> Presents h]" by (simp_all add: c1_def tx_start_def)
  have w2: "tc_world c2 = w" "tc_tx c2 = [0 \<mapsto> Locked h s (w_now w)]"
    using w1 s(1) by (simp_all add: c2_def tx_lock_def)
  have w3: "tc_world c3 = w" "tc_tx c3 = [0 \<mapsto> Accepted h s v]"
    using w2 s u v by (simp_all add: c3_def tx_judge_def Let_def)
  have w4: "sessions (tc_world c4) = sessions w" "tc_tx c4 = [0 \<mapsto> Inserted h s n]"
    using w3 by (simp_all add: c4_def tx_insert_def Let_def n_def varchar_ok_def)
  have w5: "sessions (tc_world c5) = sessions w" "tc_tx c5 = [0 \<mapsto> Marked h s n]"
    using w4 by (simp_all add: c5_def tx_mark_def)
  have s1: "tx_step E (tx_start w) c1" unfolding c1_def by (rule present) (simp add: tx_start_def)
  have s2: "tx_step E c1 c2" unfolding c2_def by (rule lock) (simp_all add: w1 free_def)
  have s3: "tx_step E c2 c3" unfolding c3_def by (rule judge) (simp add: w2)
  have s4: "tx_step E c3 c4" unfolding c4_def by (rule insert) (simp add: w3)
  have s5: "tx_step E c4 c5" unfolding c5_def by (rule mark) (simp add: w4)
  show ?thesis
    using tx_more [OF tx_more [OF tx_more [OF tx_more [OF tx_more [OF tx_refl s1] s2] s3] s4] s5] w5
    unfolding n_def by (rule that)
qed

text \<open>The schedule: the UPDATE of request 1 begins when request 0 has inserted its row, and ends after its commit.\<close>

definition update_begins :: "nat \<Rightarrow> uuid \<Rightarrow> tx_conf \<Rightarrow> tx_conf" where
  "update_begins i uid c = revoke_starts i uid (Updating uid) (tx_begins i c)"

definition update_finishes :: "nat \<Rightarrow> uuid \<Rightarrow> uuid list \<Rightarrow> tx_conf \<Rightarrow> tx_conf" where
  "update_finishes i uid ids c = revoke_ends i uid ids (Updated uid ids) c"

lemma overlap_run:
  assumes env: "env_ok E" and reach: "auth_reachable E w"
    and s: "find_session_by_hash h w = Some s" "s_revokedAt s = None" "\<not> s_expiresAt s < w_now w"
    and u: "user_may_refresh (w_now w) (find_user_withDeleted (s_userId s) w)"
  obtains c1 c2 c3 c4 n where
    "tx_run E (tx_start w) c1" "tc_tx c1 = [0 \<mapsto> Marked h s n]" "sessions (tc_world c1) = sessions w"
    "s_id n \<notin> s_id ` set (sessions w)" "s_rotatedFromSessionId n = Some (s_id s)"
    "c2 = update_begins 1 (s_userId s) c1" "tx_step E c1 c2"
    "c3 = tx_commit 0 h s n c2" "tx_step E c2 c3"
    "c4 = update_finishes 1 (s_userId s) (active_ids (s_userId s) w) c3" "tx_step E c3 c4"
    "tc_tx c4 = [0 \<mapsto> Exchanged h s, 1 \<mapsto> Updated (s_userId s) (active_ids (s_userId s) w)]"
    "active_sessions (s_userId s) (sessions (tc_world c4)) = [n]"
proof -
  from u obtain v where v: "find_user_withDeleted (s_userId s) w = Some v" "u_id v = s_userId s"
    by (auto simp: user_may_refresh_def find_user_withDeleted_def without_password_def
        split: option.splits dest!: find_row_SomeD)
  define n where "n = issued_session E v None None (Some (s_id s)) w"
  let ?ids = "active_ids (s_userId s) w"
  have old: "s_id n \<noteq> s_id q" if "q \<in> set (sessions w)" for q
    using minted_not_issued(2) [OF env] that reachable_table_ok [OF env reach]
    by (fastforce simp: n_def session_table_ok_def)
  then have n: "s_userId n = s_userId s" "s_revokedAt n = None" "s_id n \<noteq> s_id s" "s_id n \<notin> set ?ids"
    "s_id n \<notin> s_id ` set (sessions w)" "s_rotatedFromSessionId n = Some (s_id s)"
    using v(2) find_session_in [OF s(1)] by (auto simp: n_def active_ids_def active_sessions_def)
  from run_to_marked [OF s u v(1), of E] obtain c1 where run: "tx_run E (tx_start w) c1"
    and w1: "sessions (tc_world c1) = sessions w" "tc_tx c1 = [0 \<mapsto> Marked h s n]" unfolding n_def by blast
  define c2 where "c2 = update_begins 1 (s_userId s) c1"
  define c3 where "c3 = tx_commit 0 h s n c2"
  define c4 where "c4 = update_finishes 1 (s_userId s) ?ids c3"
  have w2: "sessions (tc_world c2) = sessions w" "tc_tx c2 = [0 \<mapsto> Marked h s n, 1 \<mapsto> Updating (s_userId s) ?ids]"
    using w1 by (simp_all add: c2_def update_begins_def revoke_starts_def Let_def active_ids_def)
  have w3: "sessions (tc_world c3) = update_where (\<lambda>q. s_id q = s_id s)
        (\<lambda>q. q\<lparr>s_revokedAt := Some (tc_began c2 0), s_rotatedToSessionId := Some (s_id n)\<rparr>) (sessions w @ [n])"
    "tc_tx c3 = [0 \<mapsto> Exchanged h s, 1 \<mapsto> Updating (s_userId s) ?ids]"
    using w2 by (auto simp: c3_def tx_commit_def fun_upd_twist)
  have w4: "tc_tx c4 = [0 \<mapsto> Exchanged h s, 1 \<mapsto> Updated (s_userId s) ?ids]"
    "sessions (tc_world c4) = update_where (\<lambda>q. s_id q \<in> set ?ids \<and> active_session (s_userId s) q)
        (\<lambda>q. q\<lparr>s_revokedAt := Some (tc_began c3 1)\<rparr>) (sessions (tc_world c3))"
    using w3(2) by (simp_all add: c4_def update_finishes_def revoke_ends_def)
  have "active_sessions (s_userId s) (sessions (tc_world c4)) = [n]"
    unfolding w4(2) w3(1) using n
    by (auto simp: active_sessions_def active_session_def update_where_def active_ids_def filter_empty_conv)
  moreover have "tx_step E c1 c2" unfolding c2_def update_begins_def by (rule update_starts) (simp add: w1)
  moreover have "tx_step E c2 c3" unfolding c3_def by (rule commit) (simp add: w2)
  moreover have "tx_step E c3 c4"
    unfolding c4_def update_finishes_def by (rule update_ends) (simp_all add: w3(2) free_def)
  ultimately show ?thesis using that [OF run w1(2,1) n(5,6) c2_def _ c3_def _ c4_def _ w4(1)] by blast
qed

text \<open>The schedule from a state in which Ana has logged in.\<close>

definition demo_session :: session where
  "demo_session = hd (sessions (snd demo_login))"

lemma demo_session_live:
  "find_session_by_hash (s_refreshTokenHash demo_session) (snd demo_login) = Some demo_session"
  "s_revokedAt demo_session = None" "\<not> s_expiresAt demo_session < w_now (snd demo_login)"
  "user_may_refresh (w_now (snd demo_login)) (find_user_withDeleted (s_userId demo_session) (snd demo_login))"
  "s_userId demo_session = ''u-a''"
  by code_simp+

lemma concurrent_refresh_single_use_witness:
  "\<exists>c. tx_run demo_env (tx_start (snd demo_login)) c \<and>
     tc_tx c 0 = Some (Exchanged (s_refreshTokenHash demo_session) demo_session) \<and>
     (\<forall>q \<in> set (sessions (tc_world c)).
        s_refreshTokenHash q = s_refreshTokenHash demo_session \<longrightarrow> s_revokedAt q \<noteq> None)"
proof -
  obtain c where c: "tx_run demo_env (tx_start (snd demo_login)) c"
    "tc_tx c 0 = Some (Exchanged (s_refreshTokenHash demo_session) demo_session)"
  proof (rule overlap_run [OF demo_env_ok demo_reachable demo_session_live(1-4)])
    fix c1 c2 c3 c4 :: tx_conf and n
    assume "tx_run demo_env (tx_start (snd demo_login)) c1" "tx_step demo_env c1 c2" "tx_step demo_env c2 c3"
      "tx_step demo_env c3 c4"
    then have "tx_run demo_env (tx_start (snd demo_login)) c4" by (blast intro: tx_more)
    moreover assume "tc_tx c4 = [0 \<mapsto> Exchanged (s_refreshTokenHash demo_session) demo_session,
      1 \<mapsto> Updated (s_userId demo_session) (active_ids (s_userId demo_session) (snd demo_login))]"
    ultimately show ?thesis by (intro that) auto
  qed
  have "auth_reachable demo_env (tc_world (tx_start (snd demo_login)))"
    "tc_tx (tx_start (snd demo_login)) = Map.empty"
    by (simp_all add: tx_start_def demo_reachable)
  from concurrent_refresh_single_use [OF demo_env_ok this c(1), of 0 "s_refreshTokenHash demo_session" demo_session] c
  show ?thesis by blast
qed

text \<open>
  C26. A mass revocation (\<open>revokeAllUserSessions\<close>, of a password change, a logout from all
  devices or a deactivation) misses a refresh of the same user that has inserted its new session
  and not committed it: from every reachable state in which some session \<open>s\<close> may be refreshed, the
  refresh can come to where its new session \<open>n\<close> is inserted and the old one marked; then
  the UPDATE of the revocation begins, the refresh commits, and the UPDATE ends. Every other
  session of the user has ended, and \<open>n\<close> alone is active.
\<close>

theorem mass_revocation_misses_refresh:
  assumes "env_ok E" "auth_reachable E w" "find_session_by_hash h w = Some s" "s_revokedAt s = None"
    "\<not> s_expiresAt s < w_now w" "user_may_refresh (w_now w) (find_user_withDeleted (s_userId s) w)"
  shows "\<exists>c1 c2 c3 c4 n. tx_run E (tx_start w) c1 \<and> tc_tx c1 = [0 \<mapsto> Marked h s n] \<and>
    sessions (tc_world c1) = sessions w \<and> s_id n \<notin> s_id ` set (sessions w) \<and>
    s_rotatedFromSessionId n = Some (s_id s) \<and>
    c2 = update_begins 1 (s_userId s) c1 \<and> tx_step E c1 c2 \<and>
    c3 = tx_commit 0 h s n c2 \<and> tx_step E c2 c3 \<and>
    c4 = update_finishes 1 (s_userId s) (active_ids (s_userId s) w) c3 \<and> tx_step E c3 c4 \<and>
    tc_tx c4 = [0 \<mapsto> Exchanged h s, 1 \<mapsto> Updated (s_userId s) (active_ids (s_userId s) w)] \<and>
    active_sessions (s_userId s) (sessions (tc_world c4)) = [n]"
  by (rule overlap_run [OF assms]) blast

lemma mass_revocation_misses_refresh_witness:
  "\<exists>c n. tx_run demo_env (tx_start (snd demo_login)) c \<and>
     tc_tx c 1 = Some (Updated ''u-a'' (active_ids ''u-a'' (snd demo_login))) \<and>
     active_sessions ''u-a'' (sessions (tc_world c)) = [n] \<and> s_rotatedFromSessionId n = Some (s_id demo_session)"
  using mass_revocation_misses_refresh [OF demo_env_ok demo_reachable demo_session_live(1-4)]
  unfolding demo_session_live(5)
proof (elim exE conjE, goal_cases)
  case (1 c1 c2 c3 c4 n)
  then have "tx_run demo_env (tx_start (snd demo_login)) c4" by (blast intro: tx_more)
  with 1 show ?case by (intro exI [of _ c4] exI [of _ n]) simp
qed

end
