(* ===== verification/Login_Concurrent.thy ===== *)
theory Login_Concurrent
  imports Login_Properties
begin

text \<open>
  Logins that overlap: \<open>login\<close> split at its awaits. Between the read of the user, with the test of
  the lock, and the answer of bcrypt any number of other requests may be served. Each of the later
  awaits is one transaction or one UPDATE of the user's row, which PostgreSQL makes wait for the
  others, so these are single steps.
\<close>

section \<open>The awaits\<close>

text \<open>
  Where a request stands: the user it read and the password it has to compare, what bcrypt answered,
  the counter written or reset (\<open>Shut\<close>: but the cache did not answer), and its end.
\<close>

datatype login_at =
    Checks user string
  | Fails user
  | Passes user
  | Opens user
  | Shut user
  | Failed user
  | Entered user auth_result
  | Turned_away

record login_conf =
  lc_world :: world
  lc_at :: "nat \<rightharpoonup> login_at"

definition login_goes :: "nat \<Rightarrow> login_at \<Rightarrow> world \<Rightarrow> login_conf \<Rightarrow> login_conf" where
  "login_goes i k w c = c\<lparr>lc_world := w, lc_at := (lc_at c)(i \<mapsto> k)\<rparr>"

text \<open>\<open>findOneWithPassword\<close> and the tests on the user.\<close>

definition login_reads :: "nat \<Rightarrow> string \<Rightarrow> string \<Rightarrow> login_conf \<Rightarrow> login_conf" where
  "login_reads i email password c = login_goes i
     (case users_findOneWithPassword email (lc_world c) of
        None \<Rightarrow> Turned_away
      | Some u \<Rightarrow>
          if \<not> u_isActive u then Turned_away
          else if locked_at (w_now (lc_world c)) u then Turned_away
          else Checks u password) (lc_world c) c"

text \<open>\<open>compare\<close>.\<close>

definition login_compares :: "env \<Rightarrow> nat \<Rightarrow> user \<Rightarrow> string \<Rightarrow> login_conf \<Rightarrow> login_conf" where
  "login_compares E i u password c = (case compare_password E password (u_password u) (lc_world c) of
     (Inl e, w) \<Rightarrow> login_goes i Turned_away w c
   | (Inr isValid, w) \<Rightarrow> login_goes i (if \<not> isValid then Fails u else Passes u) w c)"

text \<open>\<open>recordFailedLogin\<close>, the audit entry of a lock, and the throw.\<close>

definition login_records :: "env \<Rightarrow> nat \<Rightarrow> user \<Rightarrow> string option \<Rightarrow> string option \<Rightarrow> login_conf \<Rightarrow> login_conf" where
  "login_records E i u ip userAgent c = login_goes i (Failed u)
     (snd (andThen (users_recordFailedLogin (u_id u)) (\<lambda>(attempts, lockedUntil).
        if lockedUntil \<noteq> None then auditLog E (account_locked_entry u attempts ip userAgent) else ret ())
        (lc_world c))) c"

text \<open>\<open>resetFailedLogin\<close>, then \<open>createTokensAndSession\<close>.\<close>

definition login_opens :: "nat \<Rightarrow> user \<Rightarrow> login_conf \<Rightarrow> login_conf" where
  "login_opens i u c = (case users_resetFailedLogin (u_id u) (lc_world c) of
     (Inl e, w) \<Rightarrow> login_goes i (Shut u) w c
   | (Inr _, w) \<Rightarrow> login_goes i (Opens u) w c)"

definition login_enters :: "env \<Rightarrow> nat \<Rightarrow> user \<Rightarrow> string option \<Rightarrow> string option \<Rightarrow> login_conf \<Rightarrow> login_conf" where
  "login_enters E i u ip userAgent c = (case createTokensAndSession E u ip userAgent (lc_world c) of
     (Inl e, w) \<Rightarrow> login_goes i (Shut u) w c
   | (Inr r, w) \<Rightarrow> login_goes i (Entered u r) w c)"

section \<open>Interleavings\<close>

text \<open>What the lockout of an account is, and what leaves all lockouts alone.\<close>

definition lockout_of :: "uuid \<Rightarrow> world \<Rightarrow> (nat \<times> time option) option" where
  "lockout_of uid w = map_option (\<lambda>u. (u_failedLoginAttempts u, u_lockedUntil u)) (users_findByIdWithPassword uid w)"

definition same_lockouts :: "world \<Rightarrow> world \<Rightarrow> bool" where
  "same_lockouts w w' \<longleftrightarrow> (\<forall>uid. lockout_of uid w \<noteq> None \<longrightarrow> lockout_of uid w' = lockout_of uid w)"

inductive login_step :: "env \<Rightarrow> login_conf \<Rightarrow> login_conf \<Rightarrow> bool" for E where
  reads: "lc_at c i = None \<Longrightarrow> login_step E c (login_reads i email password c)"
| compares: "lc_at c i = Some (Checks u password) \<Longrightarrow> login_step E c (login_compares E i u password c)"
| records: "lc_at c i = Some (Fails u) \<Longrightarrow> login_step E c (login_records E i u ip userAgent c)"
| opens: "lc_at c i = Some (Passes u) \<Longrightarrow> login_step E c (login_opens i u c)"
| enters: "lc_at c i = Some (Opens u) \<Longrightarrow> login_step E c (login_enters E i u ip userAgent c)"
| elsewhere: "same_lockouts (lc_world c) w \<Longrightarrow> login_step E c (c\<lparr>lc_world := w\<rparr>)"

inductive login_run :: "env \<Rightarrow> login_conf \<Rightarrow> login_conf \<Rightarrow> bool" for E where
  login_refl: "login_run E c c"
| login_more: "login_run E c c' \<Longrightarrow> login_step E c' c'' \<Longrightarrow> login_run E c c''"

definition login_start :: "world \<Rightarrow> login_conf" where
  "login_start w = \<lparr>lc_world = w, lc_at = Map.empty\<rparr>"

lemma login_goes_simps [simp]:
  "lc_world (login_goes i k w c) = w" "lc_at (login_goes i k w c) = (lc_at c)(i \<mapsto> k)"
  by (simp_all add: login_goes_def)

section \<open>What the steps do to a lockout\<close>

lemma lockout_users: "users w' = users w \<Longrightarrow> lockout_of uid w' = lockout_of uid w"
  by (simp add: lockout_of_def users_findByIdWithPassword_def)

lemma compare_world [simp]: "snd (compare_password E pw stored w) = w"
  by (simp add: compare_password_def split: option.split)

definition next_lockout :: "time \<Rightarrow> nat \<times> time option \<Rightarrow> nat \<times> time option" where
  "next_lockout now l = (case l of (n, until) \<Rightarrow> (Suc n,
     if LOCKOUT_THRESHOLD \<le> Suc n \<and> (case until of None \<Rightarrow> True | Some t \<Rightarrow> t \<le> now)
     then Some (now + LOCKOUT_DURATION_MS) else until))"

lemma lockout_update_user:
  assumes "\<And>u. u_id (f u) = u_id u" "\<And>u. u_deletedAt (f u) = u_deletedAt u"
  shows "lockout_of v (update_user uid f w) = map_option (\<lambda>u. if u_id u = uid
      then (u_failedLoginAttempts (f u), u_lockedUntil (f u)) else (u_failedLoginAttempts u, u_lockedUntil u))
      (users_findByIdWithPassword v w)"
  unfolding lockout_of_def findByIdWithPassword_update_user [OF assms] by (simp add: option.map_comp comp_def if_distrib cong: if_cong option.map_cong)


lemma lockout_recorded:
  "lockout_of v (snd (transaction (recordFailedLogin_body uid) w)) =
    (if v = uid then map_option (next_lockout (w_now w)) (lockout_of uid w) else lockout_of v w)"
proof (cases "users_findByIdWithPassword uid w")
  case None
  then obtain e w' where "recordFailedLogin_body uid w = (Inl e, w')"
    by (simp add: recordFailedLogin_body_def Let_def findById_eq findByIdWithPassword_update_user)
  then have "users (snd (transaction (recordFailedLogin_body uid) w)) = users w" by (simp add: transaction_def)
  from lockout_users [OF this, of v] None show ?thesis by (auto simp: lockout_of_def)
next
  case (Some u)
  let ?b = "snd (recordFailedLogin_body uid w)"
  have tx: "snd (transaction (recordFailedLogin_body uid) w) = ?b"
    using recordFailedLogin_body_result [OF Some] by (cases "recordFailedLogin_body uid w") (simp add: transaction_def)
  show ?thesis
  proof (cases "v = uid")
    case True
    with Some tx recordFailedLogin_body_row [OF Some] show ?thesis
      by (simp add: lockout_of_def next_lockout_def lockout_step_def Let_def)
  next
    case False
    have "users_findByIdWithPassword v ?b = users_findByIdWithPassword v w"
      unfolding lockout_body_state [OF Some] Let_def
      by (cases "users_findByIdWithPassword v w")
         (use False in \<open>auto simp: findByIdWithPassword_update_user dest: findByIdWithPassword_id\<close>)
    with False tx show ?thesis by (simp add: lockout_of_def)
  qed
qed

lemma users_recordFailedLogin_users:
  "users (snd (users_recordFailedLogin uid w)) = users (snd (transaction (recordFailedLogin_body uid) w))"
  by (cases "transaction (recordFailedLogin_body uid) w")
     (simp add: users_recordFailedLogin_def andThen_def invalidateUserCache_def cacheDel_def split: sum.split)

lemma lockout_records:
  "lockout_of v (lc_world (login_records E i u ip ua c)) =
    (if v = u_id u then map_option (next_lockout (w_now (lc_world c))) (lockout_of v (lc_world c))
     else lockout_of v (lc_world c))"
proof -
  let ?w = "lc_world c" and ?m = "users_recordFailedLogin (u_id u)"
  have "users (snd (andThen ?m f ?w)) = users (snd (?m ?w))"
    if "\<And>x w. users (snd (f x w)) = users w" for f :: "nat \<times> time option \<Rightarrow> (world, unit) act"
    using that by (cases "?m ?w") (simp add: andThen_def split: sum.split)
  then have "users (lc_world (login_records E i u ip ua c)) = users (snd (transaction (recordFailedLogin_body (u_id u)) ?w))"
    by (simp add: login_records_def users_recordFailedLogin_users split: prod.split)
  from lockout_users [OF this, of v] show ?thesis by (simp add: lockout_recorded)
qed

lemma lockout_opens:
  "lockout_of v (lc_world (login_opens i u c)) = (if v = u_id u
     then map_option (\<lambda>_. (0, None)) (lockout_of v (lc_world c)) else lockout_of v (lc_world c))"
proof -
  let ?f = "\<lambda>u. u\<lparr>u_failedLoginAttempts := 0, u_lockedUntil := None\<rparr>"
  have "users (lc_world (login_opens i u c)) = users (update_user (u_id u) ?f (lc_world c))"
    by (simp add: login_opens_def users_resetFailedLogin_def andThen_def modify_def invalidateUserCache_def
        cacheDel_def split: sum.split)
  from lockout_users [OF this, of v]
  have "lockout_of v (lc_world (login_opens i u c)) = map_option (\<lambda>q. if u_id q = u_id u then (0, None)
      else (u_failedLoginAttempts q, u_lockedUntil q)) (users_findByIdWithPassword v (lc_world c))"
    by (simp add: lockout_update_user cong: if_cong)
  then show ?thesis
    by (cases "users_findByIdWithPassword v (lc_world c)") (auto simp: lockout_of_def dest: findByIdWithPassword_id)
qed

lemma users_createTokens: "users (snd (createTokensAndSession E u ip ua w)) = users w"
  unfolding createTokensAndSession_def issue_eq
  by (simp add: audit.then_continues issued_world_def)

lemma lockout_enters: "lockout_of v (lc_world (login_enters E i u ip ua c)) = lockout_of v (lc_world c)"
  using users_createTokens [of E u ip ua "lc_world c"]
  by (intro lockout_users) (auto simp: login_enters_def split: prod.split sum.split)

end
