(* ===== verification/Login_Concurrent_Properties.thy ===== *)
theory Login_Concurrent_Properties
  imports Login_Concurrent
begin

text \<open>
  What overlapping logins keep of the lockout: no failure is lost and the account gets locked. And
  what they do not keep: the lock is tested before the password is compared, so requests that
  read the user before the lock have their passwords compared all the same.
\<close>

section \<open>No failure is lost\<close>

text \<open>The requests that have recorded a failure of a user; no request has reset his counter.\<close>

definition failed_requests :: "uuid \<Rightarrow> login_conf \<Rightarrow> nat set" where
  "failed_requests uid c = {i. \<exists>u. lc_at c i = Some (Failed u) \<and> u_id u = uid}"

fun has_reset :: "uuid \<Rightarrow> login_at \<Rightarrow> bool" where
  "has_reset uid (Opens u) = (u_id u = uid)"
| "has_reset uid (Shut u) = (u_id u = uid)"
| "has_reset uid (Entered u r) = (u_id u = uid)"
| "has_reset uid _ = False"

definition nobody_reset :: "uuid \<Rightarrow> login_conf \<Rightarrow> bool" where
  "nobody_reset uid c \<longleftrightarrow> (\<forall>i k. lc_at c i = Some k \<longrightarrow> \<not> has_reset uid k)"

definition counts :: "uuid \<Rightarrow> nat \<Rightarrow> login_conf \<Rightarrow> bool" where
  "counts uid n c \<longleftrightarrow> finite (dom (lc_at c)) \<and>
     (\<exists>until. lockout_of uid (lc_world c) = Some (n + card (failed_requests uid c), until) \<and>
        (failed_requests uid c \<noteq> {} \<longrightarrow> LOCKOUT_THRESHOLD \<le> n + card (failed_requests uid c) \<longrightarrow> until \<noteq> None))"

lemma failed_finite: "finite (dom (lc_at c)) \<Longrightarrow> finite (failed_requests uid c)"
  by (rule finite_subset [of _ "dom (lc_at c)"]) (auto simp: failed_requests_def)

lemma failed_goes:
  "failed_requests uid (login_goes i k w c) =
     (if \<exists>u. k = Failed u \<and> u_id u = uid then insert i (failed_requests uid c) else failed_requests uid c - {i})"
  by (auto simp: failed_requests_def)

lemma failed_not_in: "lc_at c i = Some k \<Longrightarrow> (\<And>u. k \<noteq> Failed u) \<Longrightarrow> i \<notin> failed_requests uid c"
  "lc_at c i = None \<Longrightarrow> i \<notin> failed_requests uid c"
  by (auto simp: failed_requests_def)

text \<open>A request that records nothing of this user, and one that does.\<close>

lemma counts_same:
  assumes "counts uid n c" "i \<notin> failed_requests uid c" "\<not> (\<exists>u. k = Failed u \<and> u_id u = uid)"
    and "lockout_of uid w = lockout_of uid (lc_world c)"
  shows "counts uid n (login_goes i k w c)"
  using assms by (auto simp: counts_def failed_goes)

lemma counts_more:
  assumes "counts uid n c" "i \<notin> failed_requests uid c" "u_id u = uid"
    and "lockout_of uid w = map_option (next_lockout now) (lockout_of uid (lc_world c))"
  shows "counts uid n (login_goes i (Failed u) w c)"
proof -
  from assms(1) obtain l where l: "finite (dom (lc_at c))"
    "lockout_of uid (lc_world c) = Some (n + card (failed_requests uid c), l)" by (auto simp: counts_def)
  have "card (insert i (failed_requests uid c)) = Suc (card (failed_requests uid c))"
    by (simp add: failed_finite [OF l(1)] assms(2))
  with l assms(3,4) show ?thesis by (auto simp: counts_def failed_goes next_lockout_def split: option.splits)
qed

lemma nobody_resetD: "nobody_reset uid c \<Longrightarrow> lc_at c i = Some k \<Longrightarrow> \<not> has_reset uid k"
  unfolding nobody_reset_def by blast

lemma reset_goes:
  assumes "nobody_reset uid (login_goes i k w c)"
    and "case lc_at c i of None \<Rightarrow> True | Some l \<Rightarrow> has_reset uid l \<longrightarrow> has_reset uid k"
  shows "nobody_reset uid c"
  unfolding nobody_reset_def
proof (intro allI impI)
  fix j l assume j: "lc_at c j = Some l"
  note new = nobody_resetD [OF assms(1), of i k] nobody_resetD [OF assms(1), of j l]
  show "\<not> has_reset uid l"
  proof (cases "j = i")
    case True
    with j new(1) assms(2) show ?thesis by auto
  next
    case False
    with j new(2) show ?thesis by simp
  qed
qed

lemma step_reset: "login_step E c c' \<Longrightarrow> nobody_reset uid c' \<Longrightarrow> nobody_reset uid c"
proof (induction rule: login_step.induct)
  case (elsewhere c w)
  then show ?case by (simp add: nobody_reset_def)
qed (auto simp: login_reads_def login_compares_def login_records_def login_opens_def login_enters_def
    split: prod.splits sum.splits intro: reset_goes)

lemma step_counts:
  assumes "login_step E c c'" "counts uid n c" "nobody_reset uid c'"
  shows "counts uid n c'"
  using assms
proof (induction rule: login_step.induct)
  case (reads c i email password)
  then show ?case
    by (auto simp: login_reads_def intro!: counts_same failed_not_in(2) split: option.splits)
next
  case (compares c i u password)
  obtain r where r: "compare_password E password (u_password u) (lc_world c) = (r, lc_world c)"
    using compare_world by (metis prod.collapse)
  have "i \<notin> failed_requests uid c" by (rule failed_not_in(1) [OF compares.hyps]) simp
  with compares.prems(1) r show ?case
    by (cases r) (auto simp: login_compares_def intro!: counts_same)
next
  case (records c i u ip ua)
  have i: "i \<notin> failed_requests uid c" by (rule failed_not_in(1) [OF records.hyps]) simp
  show ?case
    using lockout_records [of uid E i u ip ua c] records.prems(1) i
    by (cases "u_id u = uid") (auto simp: login_records_def intro: counts_same counts_more)
next
  case (opens c i u)
  have i: "i \<notin> failed_requests uid c" by (rule failed_not_in(1) [OF opens.hyps]) simp
  obtain r w where r: "users_resetFailedLogin (u_id u) (lc_world c) = (r, w)" by fastforce
  with nobody_resetD [OF opens.prems(2), of i] have "u_id u \<noteq> uid"
    by (cases r) (auto simp: login_opens_def)
  with lockout_opens [of uid i u c] opens.prems(1) i r show ?case
    by (cases r) (auto simp: login_opens_def intro!: counts_same)
next
  case (enters c i u ip ua)
  have i: "i \<notin> failed_requests uid c" by (rule failed_not_in(1) [OF enters.hyps]) simp
  obtain r w where "createTokensAndSession E u ip ua (lc_world c) = (r, w)" by fastforce
  with lockout_enters [of uid E i u ip ua c] enters.prems(1) i show ?case
    by (cases r) (auto simp: login_enters_def intro!: counts_same)
next
  case (elsewhere c w)
  then show ?case by (auto simp: counts_def same_lockouts_def failed_requests_def)
qed

lemma run_counts:
  "login_run E c0 c \<Longrightarrow> counts uid n c0 \<Longrightarrow> nobody_reset uid c \<Longrightarrow> counts uid n c"
  by (induction rule: login_run.induct) (auto intro: step_counts step_reset)

text \<open>
  C25. However logins to an account interleave, none of their failures is lost: as long as no login
  with the right password has reset the counter, it is what it was plus the number of requests
  that have recorded a failure, and when it is five or more the account has a lock.
\<close>

theorem concurrent_failures_count:
  assumes "login_run E (login_start w) c" "lockout_of uid w = Some (n, until)" "nobody_reset uid c"
  shows "\<exists>until'. lockout_of uid (lc_world c) = Some (n + card (failed_requests uid c), until') \<and>
    (failed_requests uid c \<noteq> {} \<and> 5 \<le> n + card (failed_requests uid c) \<longrightarrow> until' \<noteq> None)"
proof -
  have "counts uid n (login_start w)"
    using assms(2) by (simp add: counts_def login_start_def failed_requests_def)
  from run_counts [OF assms(1) this assms(3)] show ?thesis
    by (auto simp: counts_def LOCKOUT_THRESHOLD_def)
qed


section \<open>Guesses in parallel\<close>

lemma login_run_trans: "login_run E c' c'' \<Longrightarrow> login_run E c c' \<Longrightarrow> login_run E c c''"
  by (induction rule: login_run.induct) (auto intro: login_more)

lemma next_lockout_locks:
  assumes "case until of None \<Rightarrow> True | Some t \<Rightarrow> t \<le> now"
  shows "fst ((next_lockout now ^^ k) (n, until)) = n + k \<and>
    (if 0 < k \<and> LOCKOUT_THRESHOLD \<le> n + k then \<exists>t. snd ((next_lockout now ^^ k) (n, until)) = Some t \<and> now < t
     else snd ((next_lockout now ^^ k) (n, until)) = until)"
proof (induction k)
  case (Suc k)
  obtain m l where ml: "(next_lockout now ^^ k) (n, until) = (m, l)" by fastforce
  have "m = n + k" "if 0 < k \<and> LOCKOUT_THRESHOLD \<le> n + k then \<exists>t. l = Some t \<and> now < t else l = until"
    using Suc unfolding ml fst_conv snd_conv by blast+
  moreover have "(next_lockout now ^^ Suc k) (n, until) = (Suc m,
      if LOCKOUT_THRESHOLD \<le> Suc m \<and> (case l of None \<Rightarrow> True | Some t \<Rightarrow> t \<le> now)
      then Some (now + LOCKOUT_DURATION_MS) else l)"
    using ml by (simp add: next_lockout_def)
  ultimately show ?case
    using assms by (auto simp: LOCKOUT_DURATION_MS_def split: if_splits option.splits)
qed simp

lemma records_frame:
  "w_now (lc_world (login_records E i u ip ua c)) = w_now (lc_world c)"
  "w_faults (lc_world (login_records E i u ip ua c)) = w_faults (lc_world c)"
proof -
  let ?w = "lc_world c" and ?m = "users_recordFailedLogin (u_id u)"
  have m: "w_now (snd (?m ?w)) = w_now ?w \<and> w_faults (snd (?m ?w)) = w_faults ?w"
    using recordFailedLogin_body_frame(3,6) [of "u_id u" ?w]
    by (cases "recordFailedLogin_body (u_id u) ?w")
       (auto simp: users_recordFailedLogin_def transaction_def andThen_def invalidateUserCache_def cacheDel_def split: sum.split)
  have "w_now (snd (andThen ?m f ?w)) = w_now ?w \<and> w_faults (snd (andThen ?m f ?w)) = w_faults ?w"
    if "\<And>x w. w_now (snd (f x w)) = w_now w \<and> w_faults (snd (f x w)) = w_faults w"
    for f :: "nat \<times> time option \<Rightarrow> (world, unit) act"
    using that m by (cases "?m ?w") (auto simp: andThen_def split: sum.split)
  then show "w_now (lc_world (login_records E i u ip ua c)) = w_now ?w"
    "w_faults (lc_world (login_records E i u ip ua c)) = w_faults ?w"
    by (simp_all add: login_records_def split: prod.split)
qed

text \<open>Requests that all read the user and compare their passwords before any of them goes on.\<close>

lemma all_compare:
  assumes u: "users_findOneWithPassword email w = Some u" "u_isActive u" "\<not> locked_at (w_now w) u" "u_password u = Some h"
  shows "login_run E (login_start w) \<lparr>lc_world = w, lc_at = (\<lambda>i. if i < k
    then Some (if e_bcryptCompare E (guess i) h then Passes u else Fails u) else None)\<rparr>"
    (is "login_run E _ (?c k)")
proof (induction k)
  case 0
  then show ?case by (simp add: login_start_def login_refl)
next
  case (Suc k)
  let ?k = "if e_bcryptCompare E (guess k) h then Passes u else Fails u"
  let ?d = "login_goes k (Checks u (guess k)) w (?c k)"
  have d: "login_reads k email (guess k) (?c k) = ?d" using u by (simp add: login_reads_def)
  have s1: "login_step E (?c k) ?d" unfolding d [symmetric] by (rule reads) simp
  have "login_compares E k u (guess k) ?d = login_goes k ?k w ?d"
    using u(4) by (simp add: login_compares_def compare_password_def ret_def)
  also have "\<dots> = ?c (Suc k)" by (auto simp: login_goes_def fun_eq_iff less_Suc_eq)
  finally have e: "login_compares E k u (guess k) ?d = ?c (Suc k)" .
  have s2: "login_step E ?d (?c (Suc k))" unfolding e [symmetric] by (rule compares) simp
  show ?case by (rule login_more [OF login_more [OF Suc s1] s2])
qed

text \<open>Then the first of them record their failures.\<close>

lemma all_record:
  assumes "login_run E c0 c" "\<forall>i < n. lc_at c i = Some (Fails u)" "lockout_of (u_id u) (lc_world c) = Some l"
  shows "k \<le> n \<Longrightarrow> \<exists>d. login_run E c0 d \<and> (\<forall>i < k. lc_at d i = Some (Failed u)) \<and> (\<forall>i \<ge> k. lc_at d i = lc_at c i) \<and>
    w_now (lc_world d) = w_now (lc_world c) \<and> w_faults (lc_world d) = w_faults (lc_world c) \<and>
    lockout_of (u_id u) (lc_world d) = Some ((next_lockout (w_now (lc_world c)) ^^ k) l)"
proof (induction k)
  case 0
  with assms show ?case by auto
next
  case (Suc k)
  then obtain d where d: "login_run E c0 d" "\<forall>i < k. lc_at d i = Some (Failed u)" "\<forall>i \<ge> k. lc_at d i = lc_at c i"
    "w_now (lc_world d) = w_now (lc_world c)" "w_faults (lc_world d) = w_faults (lc_world c)"
    "lockout_of (u_id u) (lc_world d) = Some ((next_lockout (w_now (lc_world c)) ^^ k) l)" by auto
  let ?d = "login_records E k u None None d"
  have "lc_at d k = Some (Fails u)" using d(3) assms(2) Suc.prems by simp
  from login_more [OF d(1) records [OF this]] have "login_run E c0 ?d" .
  moreover have "lc_at ?d = (lc_at d)(k \<mapsto> Failed u)" by (simp add: login_records_def)
  moreover have "lockout_of (u_id u) (lc_world ?d) = Some ((next_lockout (w_now (lc_world c)) ^^ Suc k) l)"
    using lockout_records [of "u_id u" E k u None None d] d(4,6) by simp
  ultimately show ?case
    using d by (intro exI [of _ ?d]) (simp add: records_frame less_Suc_eq)
qed

lemma guesses_in_flight:
  assumes u: "users_findOneWithPassword email w = Some u" "u_isActive u" "\<not> locked_at (w_now w) u" "u_password u = Some h"
    and ids: "distinct (map u_id (users w))"
    and wrong: "\<forall>pw \<in> set guesses. \<not> e_bcryptCompare E pw h" and right: "e_bcryptCompare E pw h"
  obtains c where "login_run E (login_start w) c" "\<forall>i < length guesses. lc_at c i = Some (Failed u)"
    "lc_at c (length guesses) = Some (Passes u)" "\<forall>i > length guesses. lc_at c i = None"
    "w_now (lc_world c) = w_now w" "w_faults (lc_world c) = w_faults w"
    "lockout_of (u_id u) (lc_world c) =
       Some ((next_lockout (w_now w) ^^ length guesses) (u_failedLoginAttempts u, u_lockedUntil u))"
proof -
  let ?n = "length guesses"
  define c0 where "c0 = \<lparr>lc_world = w, lc_at = (\<lambda>i. if i < Suc ?n
    then Some (if e_bcryptCompare E ((guesses @ [pw]) ! i) h then Passes u else Fails u) else None)\<rparr>"
  have run0: "login_run E (login_start w) c0" unfolding c0_def by (rule all_compare [OF u])
  have fails: "\<forall>i < ?n. lc_at c0 i = Some (Fails u)" using wrong by (simp add: c0_def nth_append)
  have rest: "lc_at c0 ?n = Some (Passes u)" "\<forall>i > ?n. lc_at c0 i = None"
    using right by (simp_all add: c0_def nth_append)
  have w: "lc_world c0 = w" by (simp add: c0_def)
  have "lockout_of (u_id u) w = Some (u_failedLoginAttempts u, u_lockedUntil u)"
    using found_by_id [OF u(1) ids] by (simp add: lockout_of_def)
  from all_record [OF run0 fails this [folded w] order_refl, unfolded w] obtain c where c: "login_run E (login_start w) c"
    "\<forall>i < ?n. lc_at c i = Some (Failed u)" "\<forall>i \<ge> ?n. lc_at c i = lc_at c0 i" "w_now (lc_world c) = w_now w"
    "w_faults (lc_world c) = w_faults w" "lockout_of (u_id u) (lc_world c) =
       Some ((next_lockout (w_now w) ^^ ?n) (u_failedLoginAttempts u, u_lockedUntil u))"
    by blast
  have "lc_at c ?n = Some (Passes u)" "\<forall>i > ?n. lc_at c i = None" using c(3) rest by simp_all
  from that [OF c(1,2) this c(4-6)] show ?thesis .
qed

text \<open>
  The lock is tested before the password is compared, and a login that has read the user before
  is not stopped by it: for any number of wrong guesses there is an interleaving in which all of them
  are compared and recorded, the account is locked, and a login with the right password that
  was in flight with them still enters.
\<close>

theorem parallel_guesses_evade_lock:
  assumes u: "users_findOneWithPassword email w = Some u" "u_isActive u" "\<not> locked_at (w_now w) u" "u_password u = Some h"
    and ids: "distinct (map u_id (users w))" and cache: "\<not> cacheDelFails (w_faults w) (user_key (u_id u))"
    and wrong: "\<forall>pw \<in> set guesses. \<not> e_bcryptCompare E pw h" and right: "e_bcryptCompare E pw h"
    and many: "5 \<le> length guesses"
  shows "\<exists>c c' until r. login_run E (login_start w) c \<and> (\<forall>i < length guesses. lc_at c i = Some (Failed u)) \<and>
    lockout_of (u_id u) (lc_world c) = Some (u_failedLoginAttempts u + length guesses, Some until) \<and>
    w_now (lc_world c) < until \<and> login_run E c c' \<and> lc_at c' (length guesses) = Some (Entered u r)"
proof -
  let ?n = "length guesses"
  obtain c where c: "login_run E (login_start w) c"
    "\<forall>i < ?n. lc_at c i = Some (Failed u)" "lc_at c ?n = Some (Passes u)" "w_now (lc_world c) = w_now w"
    "w_faults (lc_world c) = w_faults w"
    "lockout_of (u_id u) (lc_world c) = Some ((next_lockout (w_now w) ^^ ?n) (u_failedLoginAttempts u, u_lockedUntil u))"
    by (rule guesses_in_flight [OF u ids wrong right])
  have "case u_lockedUntil u of None \<Rightarrow> True | Some t \<Rightarrow> t \<le> w_now w"
    using u(3) by (simp add: locked_at_def not_less split: option.splits)
  moreover have "0 < ?n \<and> LOCKOUT_THRESHOLD \<le> u_failedLoginAttempts u + ?n"
    using many unfolding LOCKOUT_THRESHOLD_def by linarith
  ultimately obtain until where until: "(next_lockout (w_now w) ^^ ?n) (u_failedLoginAttempts u, u_lockedUntil u) =
      (u_failedLoginAttempts u + ?n, Some until)" "w_now w < until"
    using next_lockout_locks [where until = "u_lockedUntil u" and now = "w_now w" and k = ?n and n = "u_failedLoginAttempts u"] by (metis prod.collapse)
  from cache c(5) obtain w1 where r: "users_resetFailedLogin (u_id u) (lc_world c) = (Inr (), w1)"
    by (simp add: users_resetFailedLogin_def andThen_def modify_def invalidateUserCache_def cacheDel_def)
  let ?d = "login_opens ?n u c"
  have s1: "login_step E c ?d" by (rule opens [OF c(3)])
  have d: "lc_at ?d ?n = Some (Opens u)" "lc_world ?d = w1" using r by (simp_all add: login_opens_def)
  obtain x w2 where "createTokensAndSession E u None None w1 = (Inr x, w2)"
    using createTokens_returns [of None None E u w1] by (auto simp: varchar_ok_def)
  then have "lc_at (login_enters E ?n u None None ?d) ?n = Some (Entered u x)" by (simp add: login_enters_def d)
  moreover have "login_run E c (login_enters E ?n u None None ?d)"
    by (rule login_more [OF login_more [OF login_refl s1] enters [OF d(1)]])
  ultimately show ?thesis using c until by (intro exI) auto
qed

text \<open>Both at the account of Ana, with five guesses.\<close>

lemma demo_account:
  "users_findOneWithPassword ''ana'' demo_world = Some (demo_user ''u-a'' ''ana'' ''pa'')"
  "u_isActive (demo_user ''u-a'' ''ana'' ''pa'')" "\<not> locked_at (w_now demo_world) (demo_user ''u-a'' ''ana'' ''pa'')"
  "u_password (demo_user ''u-a'' ''ana'' ''pa'') = Some ''hpa''" "distinct (map u_id (users demo_world))"
  "\<forall>pw \<in> set (replicate 5 ''x''). \<not> e_bcryptCompare demo_env pw ''hpa''" "e_bcryptCompare demo_env ''pa'' ''hpa''"
  by (simp_all add: users_findOneWithPassword_def demo_world_def demo_db_def
      visible_user_def row_simps locked_at_def demo_env_def demo_compare_def)

lemma concurrent_failures_count_witness:
  "\<exists>c until. login_run demo_env (login_start demo_world) c \<and> failed_requests ''u-a'' c = {..<5} \<and>
     lockout_of ''u-a'' (lc_world c) = Some (5, Some until)"
proof -
  let ?u = "demo_user ''u-a'' ''ana'' ''pa''"
  obtain c where c: "login_run demo_env (login_start demo_world) c" "\<forall>i < (5::nat). lc_at c i = Some (Failed ?u)"
    "lc_at c 5 = Some (Passes ?u)" "\<forall>i > 5. lc_at c i = None"
    by (rule guesses_in_flight [OF demo_account, unfolded length_replicate])
  then have at: "lc_at c i = (if i < 5 then Some (Failed ?u) else if i = 5 then Some (Passes ?u) else None)" for i
    by (cases i "5::nat" rule: linorder_cases) simp_all
  have failed: "failed_requests ''u-a'' c = {..<5}" by (auto simp: failed_requests_def at split: if_splits)
  have reset: "nobody_reset ''u-a'' c" by (auto simp: nobody_reset_def at split: if_splits)
  have "lockout_of ''u-a'' demo_world = Some (0, None)"
    using found_by_id [OF demo_account(1,5)] by (simp add: lockout_of_def demo_user_def)
  from concurrent_failures_count [OF c(1) this reset]
  have "\<exists>until. lockout_of ''u-a'' (lc_world c) = Some (5, Some until)" unfolding failed by (auto simp: lessThan_empty_iff)
  with c(1) failed show ?thesis by blast
qed

lemma parallel_guesses_evade_lock_witness:
  "\<exists>c r. login_run demo_env (login_start demo_world) c \<and> lc_at c 5 = Some (Entered (demo_user ''u-a'' ''ana'' ''pa'') r)"
proof -
  have "\<not> cacheDelFails (w_faults demo_world) (user_key (u_id (demo_user ''u-a'' ''ana'' ''pa'')))"
    by (simp add: demo_world_def no_faults_def)
  from parallel_guesses_evade_lock [OF demo_account(1-5) this demo_account(6,7), unfolded length_replicate, OF order_refl]
  obtain c c' r where "login_run demo_env (login_start demo_world) c" "login_run demo_env c c'"
    "lc_at c' 5 = Some (Entered (demo_user ''u-a'' ''ana'' ''pa'') r)" by blast
  then show ?thesis using login_run_trans by blast
qed


section \<open>A login that nothing overlaps\<close>

definition login_next :: "env \<Rightarrow> nat \<Rightarrow> string option \<Rightarrow> string option \<Rightarrow> login_conf \<Rightarrow> login_conf" where
  "login_next E i ip userAgent c = (case lc_at c i of
     Some (Checks u password) \<Rightarrow> login_compares E i u password c
   | Some (Fails u) \<Rightarrow> login_records E i u ip userAgent c
   | Some (Passes u) \<Rightarrow> login_opens i u c
   | Some (Opens u) \<Rightarrow> login_enters E i u ip userAgent c
   | _ \<Rightarrow> c)"

definition login_alone :: "env \<Rightarrow> string \<Rightarrow> string \<Rightarrow> string option \<Rightarrow> string option \<Rightarrow> world \<Rightarrow> login_conf" where
  "login_alone E email password ip userAgent w =
     (login_next E 0 ip userAgent ^^ 3) (login_reads 0 email password (login_start w))"

lemma login_next_runs: "login_run E c0 c \<Longrightarrow> login_run E c0 (login_next E i ip ua c)"
  by (auto simp: login_next_def intro: login_more login_step.intros split: option.split login_at.split)

lemma andThen_throws:
  "snd (andThen m (\<lambda>(a, l). andThen (f a l) (\<lambda>_. throw e)) w) = snd (andThen m (\<lambda>(a, l). f a l) w)"
  "fst (andThen m (\<lambda>(a, l). andThen (f a l) (\<lambda>_. throw e)) w) \<noteq> Inr r"
  by (cases "m w"; auto simp: andThen_def throw_def split: sum.split prod.split)+

lemma three_times: "(f ^^ 3) x = f (f (f x))"
  by (simp add: eval_nat_numeral)

lemma login_goes_goes [simp]: "login_goes i k w (login_goes i l v c) = login_goes i k w c"
  by (simp add: login_goes_def)

text \<open>After the comparison.\<close>

lemma alone_fails:
  "lc_world (login_next E 0 ip ua (login_goes 0 (Fails u) w c)) = snd (andThen (users_recordFailedLogin (u_id u))
     (\<lambda>(attempts, lockedUntil). if lockedUntil \<noteq> None then auditLog E (account_locked_entry u attempts ip ua) else ret ()) w)"
  "lc_at (login_next E 0 ip ua (login_goes 0 (Fails u) w c)) 0 = Some (Failed u)"
  "lc_at c 0 = Some (Failed u) \<Longrightarrow> login_next E 0 ip ua c = c"
  by (simp_all add: login_next_def login_records_def)

lemma alone_passes:
  fixes w :: world and c :: login_conf and E :: env and ip ua :: "string option" and u :: user
  defines "d \<equiv> login_next E 0 ip ua (login_next E 0 ip ua (login_goes 0 (Passes u) w c))"
    and "m \<equiv> andThen (users_resetFailedLogin (u_id u)) (\<lambda>_. createTokensAndSession E u ip ua) w"
  shows "lc_world d = snd m" "lc_at d 0 = Some (case fst m of Inl e \<Rightarrow> Shut u | Inr r \<Rightarrow> Entered u r)"
proof -
  obtain r w1 where r: "users_resetFailedLogin (u_id u) w = (r, w1)" by fastforce
  obtain x w2 where x: "createTokensAndSession E u ip ua w1 = (x, w2)" by fastforce
  show "lc_world d = snd m" "lc_at d 0 = Some (case fst m of Inl e \<Rightarrow> Shut u | Inr r \<Rightarrow> Entered u r)"
    unfolding d_def m_def andThen_def
    using r x by (cases r; cases x; simp add: login_next_def login_opens_def login_enters_def)+
qed

text \<open>The awaits agree with the handler: run without interruption they are \<open>login\<close>.\<close>

lemma login_alone_agrees:
  "login_run E (login_start w) (login_alone E email pw ip ua w) \<and>
   lc_world (login_alone E email pw ip ua w) = snd (login E email pw ip ua w) \<and>
   ((\<exists>u. lc_at (login_alone E email pw ip ua w) 0 = Some (Entered u r)) \<longleftrightarrow> fst (login E email pw ip ua w) = Inr r)"
proof
  have "login_run E (login_start w) (login_reads 0 email pw (login_start w))"
    by (rule login_more [OF login_refl reads]) (simp add: login_start_def)
  then show "login_run E (login_start w) (login_alone E email pw ip ua w)"
    by (simp add: login_alone_def eval_nat_numeral login_next_runs)
  let ?s = "login_start w" and ?c = "login_alone E email pw ip ua w" and ?l = "login E email pw ip ua w"
  have w: "lc_world ?s = w" by (simp add: login_start_def)
  show "lc_world ?c = snd ?l \<and> ((\<exists>u. lc_at ?c 0 = Some (Entered u r)) \<longleftrightarrow> fst ?l = Inr r)"
  proof (cases "\<exists>u. users_findOneWithPassword email w = Some u \<and> u_isActive u \<and> \<not> locked_at (w_now w) u")
    case False
    then show ?thesis
      by (auto simp: login_alone_def three_times login_reads_def w login_next_def login_def split: option.split)
  next
    case True
    then obtain u where u: "users_findOneWithPassword email w = Some u" "u_isActive u" "\<not> locked_at (w_now w) u" by blast
    then have read: "login_reads 0 email pw ?s = login_goes 0 (Checks u pw) w ?s" by (simp add: login_reads_def w)
    show ?thesis
    proof (cases "u_password u")
      case None
      with u show ?thesis
        by (simp add: login_alone_def three_times read login_next_def login_compares_def compare_password_def
            throw_def login_def andThen_def)
    next
      case (Some h)
      have next1: "login_next E 0 ip ua (login_goes 0 (Checks u pw) w ?s) =
          login_goes 0 (if e_bcryptCompare E pw h then Passes u else Fails u) w ?s"
        using Some by (simp add: login_next_def login_compares_def compare_password_def ret_def)
      show ?thesis
      proof (cases "e_bcryptCompare E pw h")
        case True
        then show ?thesis
          using alone_passes [of E ip ua u w ?s] u Some
          by (simp add: login_alone_def three_times read next1 login_def compare_password_def split: sum.split)
      next
        case False
        have l: "?l = andThen (users_recordFailedLogin (u_id u)) (\<lambda>(attempts, lockedUntil).
            andThen (if lockedUntil \<noteq> None then auditLog E (account_locked_entry u attempts ip ua) else ret ())
              (\<lambda>_. throw (Unauthorized INVALID_CREDENTIALS_MESSAGE))) w"
          using u Some False by (simp add: login_def compare_password_def)
        have "?c = login_next E 0 ip ua (login_goes 0 (Fails u) w ?s)"
          using False by (simp add: login_alone_def three_times read next1 alone_fails(2,3))
        then show ?thesis by (simp add: l andThen_throws alone_fails(1,2))
      qed
    qed
  qed
qed

end
