(* ===== verification/Rbac_Db.thy ===== *)
theory Rbac_Db
  imports Pg_Errors
begin

text \<open>
  The tables of the RBAC module as the services use them: the two queries of
  \<open>modules/rbac/repositories/role-permission.query.ts\<close>, and INSERT, UPDATE and DELETE with the
  constraints of the entities and of \<open>migrations/1707764400000-InitialRbacSchema.ts\<close>: unique
  feature keys, role names, (feature, action) and (role, permission) pairs, and foreign keys that
  cascade. The well-formedness that these constraints amount to is \<open>rbac_db_ok\<close>.
\<close>

abbreviation features :: "world \<Rightarrow> feature list" where "features w \<equiv> db_features (w_db w)"
abbreviation permissions :: "world \<Rightarrow> permission list" where "permissions w \<equiv> db_permissions (w_db w)"
abbreviation roles :: "world \<Rightarrow> role list" where "roles w \<equiv> db_roles (w_db w)"
abbreviation rolePermissions :: "world \<Rightarrow> role_permission list" where
  "rolePermissions w \<equiv> db_rolePermissions (w_db w)"

definition modify_db :: "(database \<Rightarrow> database) \<Rightarrow> world \<Rightarrow> world" where
  "modify_db f w = w\<lparr>w_db := f (w_db w)\<rparr>"

section \<open>Queries\<close>

text \<open>\<open>role_permissions\<close> joined with its permission and the permission's feature.\<close>

definition permission_string :: "feature \<Rightarrow> permission \<Rightarrow> string" where
  "permission_string f p = f_key f @ '':'' @ p_action p"

definition fetchPermissionStringsForRole :: "uuid \<Rightarrow> database \<Rightarrow> string list" where
  "fetchPermissionStringsForRole roleId d =
     [permission_string f p.
        rp \<leftarrow> db_rolePermissions d, rp_roleId rp = roleId,
        p \<leftarrow> db_permissions d, p_id p = rp_permissionId rp,
        f \<leftarrow> db_features d, f_id f = p_featureId p]"

definition fetchRoleIdsForPermission :: "uuid \<Rightarrow> database \<Rightarrow> uuid list" where
  "fetchRoleIdsForPermission permissionId d =
     remdups (map rp_roleId (filter (\<lambda>rp. rp_permissionId rp = permissionId) (db_rolePermissions d)))"

lemma in_fetch_iff:
  "x \<in> set (fetchPermissionStringsForRole roleId d) \<longleftrightarrow>
     (\<exists>rp \<in> set (db_rolePermissions d). \<exists>p \<in> set (db_permissions d). \<exists>f \<in> set (db_features d).
        rp_roleId rp = roleId \<and> p_id p = rp_permissionId rp \<and> f_id f = p_featureId p \<and>
        x = permission_string f p)"
  by (force simp: fetchPermissionStringsForRole_def)

lemma in_fetchRoleIds_iff:
  "r \<in> set (fetchRoleIdsForPermission pid d) \<longleftrightarrow>
     (\<exists>rp \<in> set (db_rolePermissions d). rp_permissionId rp = pid \<and> rp_roleId rp = r)"
  by (auto simp: fetchRoleIdsForPermission_def)

section \<open>Columns\<close>

text \<open>
  The value an UPDATE or INSERT gives a column: a property that is absent leaves the column (or
  takes the default), an explicit null is NULL, which a NOT NULL column refuses.
\<close>

fun set_column :: "'a js_opt \<Rightarrow> 'a \<Rightarrow> 'a" where
  "set_column (Val x) old = x"
| "set_column _ old = old"

fun set_nullable :: "'a js_opt \<Rightarrow> 'a option \<Rightarrow> 'a option" where
  "set_nullable Undefined old = old"
| "set_nullable Null old = None"
| "set_nullable (Val x) old = Some x"

section \<open>Features\<close>

definition insert_feature :: "feature \<Rightarrow> (world, feature) act" where
  "insert_feature row = (\<lambda>w.
     if find_row (\<lambda>f. f_key f = f_key row) (features w) \<noteq> None then (Inl (QueryFailed ''23505''), w)
     else (Inr row, modify_db (\<lambda>d. d\<lparr>db_features := db_features d @ [row]\<rparr>) w))"

record update_feature_dto =
  uf_key :: "string js_opt"
  uf_name :: "string js_opt"
  uf_description :: "string js_opt"
  uf_isActive :: "bool js_opt"

definition apply_feature :: "update_feature_dto \<Rightarrow> time \<Rightarrow> feature \<Rightarrow> feature" where
  "apply_feature dto now f = f\<lparr>f_key := set_column (uf_key dto) (f_key f),
     f_name := set_column (uf_name dto) (f_name f),
     f_description := set_nullable (uf_description dto) (f_description f),
     f_isActive := set_column (uf_isActive dto) (f_isActive f), f_updatedAt := now\<rparr>"

definition update_feature :: "uuid \<Rightarrow> update_feature_dto \<Rightarrow> (world, nat) act" where
  "update_feature fid dto = (\<lambda>w.
     if find_row (\<lambda>f. f_id f = fid) (features w) = None then (Inr 0, w)
     else if uf_key dto = Null \<or> uf_name dto = Null \<or> uf_isActive dto = Null
     then (Inl (QueryFailed ''23502''), w)
     else if (case uf_key dto of Val k \<Rightarrow> find_row (\<lambda>f. f_key f = k \<and> f_id f \<noteq> fid) (features w) \<noteq> None
              | _ \<Rightarrow> False)
     then (Inl (QueryFailed ''23505''), w)
     else (Inr (affected (\<lambda>f. f_id f = fid) (features w)),
           modify_db (\<lambda>d. d\<lparr>db_features := update_where (\<lambda>f. f_id f = fid) (apply_feature dto (w_now w))
             (db_features d)\<rparr>) w))"

text \<open>ON DELETE CASCADE: the feature's permissions go with it, and their assignments.\<close>

definition cascade_feature :: "uuid \<Rightarrow> database \<Rightarrow> database" where
  "cascade_feature fid d =
     (let gone = map p_id (filter (\<lambda>p. p_featureId p = fid) (db_permissions d)) in
      d\<lparr>db_features := delete_where (\<lambda>f. f_id f = fid) (db_features d),
        db_permissions := delete_where (\<lambda>p. p_featureId p = fid) (db_permissions d),
        db_rolePermissions := delete_where (\<lambda>rp. rp_permissionId rp \<in> set gone) (db_rolePermissions d)\<rparr>)"

definition delete_feature :: "uuid \<Rightarrow> (world, nat) act" where
  "delete_feature fid = (\<lambda>w.
     (Inr (affected (\<lambda>f. f_id f = fid) (features w)),
      if find_row (\<lambda>f. f_id f = fid) (features w) = None then w else modify_db (cascade_feature fid) w))"

section \<open>Permissions\<close>

definition insert_permission :: "permission \<Rightarrow> (world, permission) act" where
  "insert_permission row = (\<lambda>w.
     if find_row (\<lambda>p. p_featureId p = p_featureId row \<and> p_action p = p_action row) (permissions w) \<noteq> None
     then (Inl (QueryFailed ''23505''), w)
     else if find_row (\<lambda>f. f_id f = p_featureId row) (features w) = None
     then (Inl (QueryFailed ''23503''), w)
     else (Inr row, modify_db (\<lambda>d. d\<lparr>db_permissions := db_permissions d @ [row]\<rparr>) w))"

record update_permission_dto =
  up_name :: "string js_opt"
  up_description :: "string js_opt"

definition apply_permission :: "update_permission_dto \<Rightarrow> time \<Rightarrow> permission \<Rightarrow> permission" where
  "apply_permission dto now p = p\<lparr>p_name := set_column (up_name dto) (p_name p),
     p_description := set_nullable (up_description dto) (p_description p), p_updatedAt := now\<rparr>"

definition update_permission :: "uuid \<Rightarrow> update_permission_dto \<Rightarrow> (world, nat) act" where
  "update_permission pid dto = (\<lambda>w.
     if find_row (\<lambda>p. p_id p = pid) (permissions w) = None then (Inr 0, w)
     else if up_name dto = Null then (Inl (QueryFailed ''23502''), w)
     else (Inr (affected (\<lambda>p. p_id p = pid) (permissions w)),
           modify_db (\<lambda>d. d\<lparr>db_permissions := update_where (\<lambda>p. p_id p = pid)
             (apply_permission dto (w_now w)) (db_permissions d)\<rparr>) w))"

definition cascade_permission :: "uuid \<Rightarrow> database \<Rightarrow> database" where
  "cascade_permission pid d =
     d\<lparr>db_permissions := delete_where (\<lambda>p. p_id p = pid) (db_permissions d),
       db_rolePermissions := delete_where (\<lambda>rp. rp_permissionId rp = pid) (db_rolePermissions d)\<rparr>"

definition delete_permission :: "uuid \<Rightarrow> (world, nat) act" where
  "delete_permission pid = (\<lambda>w.
     (Inr (affected (\<lambda>p. p_id p = pid) (permissions w)),
      if find_row (\<lambda>p. p_id p = pid) (permissions w) = None then w
      else modify_db (cascade_permission pid) w))"

section \<open>Roles\<close>

definition insert_role :: "role \<Rightarrow> (world, role) act" where
  "insert_role row = (\<lambda>w.
     if find_row (\<lambda>r. r_name r = r_name row) (roles w) \<noteq> None then (Inl (QueryFailed ''23505''), w)
     else (Inr row, modify_db (\<lambda>d. d\<lparr>db_roles := db_roles d @ [row]\<rparr>) w))"

text \<open>\<open>save\<close> of a role that was read: an UPDATE of its row, if a column changed.\<close>

definition save_role :: "role \<Rightarrow> (world, role) act" where
  "save_role row = (\<lambda>w.
     if find_row (\<lambda>r. r = row) (roles w) \<noteq> None then (Inr row, w)
     else if find_row (\<lambda>r. r_name r = r_name row \<and> r_id r \<noteq> r_id row) (roles w) \<noteq> None
     then (Inl (QueryFailed ''23505''), w)
     else let row' = row\<lparr>r_updatedAt := w_now w\<rparr> in
       (Inr row', modify_db (\<lambda>d. d\<lparr>db_roles := update_where (\<lambda>r. r_id r = r_id row) (\<lambda>_. row') (db_roles d)\<rparr>) w))"

definition cascade_role :: "uuid \<Rightarrow> database \<Rightarrow> database" where
  "cascade_role rid d =
     d\<lparr>db_roles := delete_where (\<lambda>r. r_id r = rid) (db_roles d),
       db_rolePermissions := delete_where (\<lambda>rp. rp_roleId rp = rid) (db_rolePermissions d),
       db_users := update_where (\<lambda>u. u_roleId u = Some rid) (\<lambda>u. u\<lparr>u_roleId := None\<rparr>) (db_users d)\<rparr>"

definition delete_role :: "uuid \<Rightarrow> (world, nat) act" where
  "delete_role rid = (\<lambda>w.
     (Inr (affected (\<lambda>r. r_id r = rid) (roles w)),
      if find_row (\<lambda>r. r_id r = rid) (roles w) = None then w else modify_db (cascade_role rid) w))"

section \<open>Assignments\<close>

definition delete_role_permissions :: "uuid \<Rightarrow> (world, unit) act" where
  "delete_role_permissions rid =
     modify (modify_db (\<lambda>d. d\<lparr>db_rolePermissions := delete_where (\<lambda>rp. rp_roleId rp = rid) (db_rolePermissions d)\<rparr>))"

definition insert_role_permission :: "role_permission \<Rightarrow> (world, unit) act" where
  "insert_role_permission row = (\<lambda>w.
     if find_row (\<lambda>rp. rp_roleId rp = rp_roleId row \<and> rp_permissionId rp = rp_permissionId row)
          (rolePermissions w) \<noteq> None
     then (Inl (QueryFailed ''23505''), w)
     else if find_row (\<lambda>r. r_id r = rp_roleId row) (roles w) = None \<or>
             find_row (\<lambda>p. p_id p = rp_permissionId row) (permissions w) = None
     then (Inl (QueryFailed ''23503''), w)
     else (Inr (), modify_db (\<lambda>d. d\<lparr>db_rolePermissions := db_rolePermissions d @ [row]\<rparr>) w))"

section \<open>Well-formed tables\<close>

definition unique_keys :: "database \<Rightarrow> bool" where
  "unique_keys d \<longleftrightarrow>
     distinct (map f_id (db_features d)) \<and> distinct (map f_key (db_features d)) \<and>
     distinct (map p_id (db_permissions d)) \<and>
     distinct (map (\<lambda>p. (p_featureId p, p_action p)) (db_permissions d)) \<and>
     distinct (map r_id (db_roles d)) \<and> distinct (map r_name (db_roles d)) \<and>
     distinct (map (\<lambda>rp. (rp_roleId rp, rp_permissionId rp)) (db_rolePermissions d))"

definition foreign_keys :: "database \<Rightarrow> bool" where
  "foreign_keys d \<longleftrightarrow>
     p_featureId ` set (db_permissions d) \<subseteq> f_id ` set (db_features d) \<and>
     rp_roleId ` set (db_rolePermissions d) \<subseteq> r_id ` set (db_roles d) \<and>
     rp_permissionId ` set (db_rolePermissions d) \<subseteq> p_id ` set (db_permissions d) \<and>
     (\<forall>u \<in> set (db_users d). \<forall>r. u_roleId u = Some r \<longrightarrow> r \<in> r_id ` set (db_roles d))"

definition rbac_db_ok :: "database \<Rightarrow> bool" where
  "rbac_db_ok d \<longleftrightarrow> unique_keys d \<and> foreign_keys d"

lemmas rbac_db_ok_defs = rbac_db_ok_def unique_keys_def foreign_keys_def

lemma set_column_not_Null [simp]: "x \<noteq> Null \<Longrightarrow> set_column x y = (case x of Val v \<Rightarrow> v | _ \<Rightarrow> y)"
  by (cases x) simp_all

lemma distinct_update_key:
  assumes "distinct (map k rs)" and "\<forall>r \<in> set rs. P r \<longrightarrow> k (f r) = x" and "\<forall>r \<in> set rs. \<not> P r \<longrightarrow> k r \<noteq> x"
    and "\<forall>r \<in> set rs. \<forall>q \<in> set rs. P r \<and> P q \<longrightarrow> r = q"
  shows "distinct (map k (update_where P f rs))"
  using assms
proof (induction rs)
  case (Cons r rs)
  then have IH: "distinct (map k (update_where P f rs))" and k: "k r \<notin> k ` set rs" by auto
  show ?case
  proof (cases "P r")
    case True
    have "\<not> P q" if "q \<in> set rs" for q using Cons.prems(4) k that True by fastforce
    then have "update_where P f rs = rs" by (simp add: update_where_none)
    with True Cons.prems(1-3) \<open>\<And>q. q \<in> set rs \<Longrightarrow> \<not> P q\<close> show ?thesis by (fastforce simp: row_simps)
  next
    case False
    with Cons.prems IH k show ?thesis by (auto simp: row_simps set_update_where)
  qed
qed simp

lemma unique_id: "distinct (map k rs) \<Longrightarrow> \<forall>r \<in> set rs. \<forall>q \<in> set rs. k r = i \<and> k q = i \<longrightarrow> r = q"
  by (auto simp: distinct_map inj_on_def)

lemma modify_db_simps [simp]:
  "w_db (modify_db f w) = f (w_db w)" "w_now (modify_db f w) = w_now w" "w_cache (modify_db f w) = w_cache w"
  "w_fresh (modify_db f w) = w_fresh w" "w_faults (modify_db f w) = w_faults w"
  "w_redisEpoch (modify_db f w) = w_redisEpoch w" "w_invalidationEpoch (modify_db f w) = w_invalidationEpoch w"
  by (simp_all add: modify_db_def)

text \<open>Every statement keeps the tables well-formed, whether it succeeds or not.\<close>

lemma insert_feature_ok:
  assumes "rbac_db_ok (w_db w)" "f_id row \<notin> f_id ` set (features w)"
  shows "rbac_db_ok (w_db (snd (insert_feature row w)))"
proof (cases "f_key row \<in> f_key ` set (features w)")
  case False
  with assms show ?thesis
    by (simp add: insert_feature_def find_key_None rbac_db_ok_defs subset_insertI2)
qed (use assms in \<open>simp add: insert_feature_def find_key_None\<close>)

lemma insert_permission_ok:
  assumes "rbac_db_ok (w_db w)" "p_id row \<notin> p_id ` set (permissions w)"
  shows "rbac_db_ok (w_db (snd (insert_permission row w)))"
proof (cases "(p_featureId row, p_action row) \<notin> (\<lambda>p. (p_featureId p, p_action p)) ` set (permissions w) \<and>
    p_featureId row \<in> f_id ` set (features w)")
  case True
  with assms show ?thesis
    by (simp add: insert_permission_def find_key_None find_pair_None rbac_db_ok_defs subset_insertI2)
qed (use assms in \<open>auto simp add: insert_permission_def find_key_None find_pair_None\<close>)

lemma insert_role_ok:
  assumes "rbac_db_ok (w_db w)" "r_id row \<notin> r_id ` set (roles w)"
  shows "rbac_db_ok (w_db (snd (insert_role row w)))"
proof (cases "r_name row \<in> r_name ` set (roles w)")
  case False
  with assms show ?thesis
    by (simp add: insert_role_def find_key_None rbac_db_ok_defs subset_insertI2)
qed (use assms in \<open>simp add: insert_role_def find_key_None\<close>)

lemma insert_role_permission_ok:
  assumes "rbac_db_ok (w_db w)"
  shows "rbac_db_ok (w_db (snd (insert_role_permission row w)))"
proof (cases "(rp_roleId row, rp_permissionId row) \<notin> (\<lambda>rp. (rp_roleId rp, rp_permissionId rp)) ` set (rolePermissions w) \<and>
    rp_roleId row \<in> r_id ` set (roles w) \<and> rp_permissionId row \<in> p_id ` set (permissions w)")
  case True
  with assms show ?thesis
    by (simp add: insert_role_permission_def find_key_None find_pair_None rbac_db_ok_defs)
qed (use assms in \<open>auto simp add: insert_role_permission_def find_key_None find_pair_None\<close>)

lemma cascade_keys:
  assumes "unique_keys d"
  shows "unique_keys (cascade_feature fid d)" "unique_keys (cascade_permission pid d)"
    "unique_keys (cascade_role rid d)"
  using assms
  by (simp_all add: unique_keys_def cascade_feature_def cascade_permission_def cascade_role_def
      Let_def distinct_map_delete_where)

lemma subset_delete:
  "k ` set rs \<subseteq> l ` set qs \<Longrightarrow> \<forall>r \<in> set rs. \<forall>q \<in> set qs. k r = l q \<and> Q q \<longrightarrow> P r \<Longrightarrow>
     k ` set (delete_where P rs) \<subseteq> l ` set (delete_where Q qs)"
  by (force simp: image_subset_iff)

lemma subset_delete_left: "k ` set rs \<subseteq> A \<Longrightarrow> k ` set (delete_where P rs) \<subseteq> A"
  by auto

lemma cascade_foreign:
  assumes "foreign_keys d"
  shows "foreign_keys (cascade_feature fid d)" "foreign_keys (cascade_permission pid d)"
    "foreign_keys (cascade_role rid d)"
proof -
  note fk = assms [unfolded foreign_keys_def]
  have "p_featureId ` set (delete_where (\<lambda>p. p_featureId p = fid) (db_permissions d)) \<subseteq>
      f_id ` set (delete_where (\<lambda>f. f_id f = fid) (db_features d))"
    using fk by (intro subset_delete) auto
  moreover have "rp_permissionId ` set (delete_where (\<lambda>rp. rp_permissionId rp \<in>
        set (map p_id (filter (\<lambda>p. p_featureId p = fid) (db_permissions d)))) (db_rolePermissions d)) \<subseteq>
      p_id ` set (delete_where (\<lambda>p. p_featureId p = fid) (db_permissions d))"
    using fk by (intro subset_delete) auto
  ultimately show "foreign_keys (cascade_feature fid d)"
    unfolding foreign_keys_def cascade_feature_def Let_def
    using fk by (simp add: subset_delete_left del: set_delete_where set_map)
  have "rp_permissionId ` set (delete_where (\<lambda>rp. rp_permissionId rp = pid) (db_rolePermissions d)) \<subseteq>
      p_id ` set (delete_where (\<lambda>p. p_id p = pid) (db_permissions d))"
    using fk by (intro subset_delete) auto
  then show "foreign_keys (cascade_permission pid d)"
    unfolding foreign_keys_def cascade_permission_def
    using fk by (simp add: subset_delete_left del: set_delete_where)
  have "r \<in> r_id ` set (delete_where (\<lambda>r. r_id r = rid) (db_roles d))"
    if "u \<in> set (update_where (\<lambda>u. u_roleId u = Some rid) (\<lambda>u. u\<lparr>u_roleId := None\<rparr>) (db_users d))" "u_roleId u = Some r" for u r
  proof -
    from that have "u \<in> set (db_users d)" "r \<noteq> rid" by (auto simp: set_update_where)
    with fk that(2) have "r \<in> r_id ` set (db_roles d)" by blast
    with \<open>r \<noteq> rid\<close> show ?thesis by auto
  qed
  moreover have "rp_roleId ` set (delete_where (\<lambda>rp. rp_roleId rp = rid) (db_rolePermissions d)) \<subseteq>
      r_id ` set (delete_where (\<lambda>r. r_id r = rid) (db_roles d))"
    using fk by (intro subset_delete) auto
  ultimately show "foreign_keys (cascade_role rid d)"
    unfolding foreign_keys_def cascade_role_def using fk by (simp add: subset_delete_left del: set_delete_where)
qed

lemma cascade_ok:
  assumes "rbac_db_ok d"
  shows "rbac_db_ok (cascade_feature fid d)" "rbac_db_ok (cascade_permission pid d)" "rbac_db_ok (cascade_role rid d)"
  using assms by (simp_all add: rbac_db_ok_def cascade_keys cascade_foreign)

text \<open>An UPDATE of the one row with an id, to a value that keeps the id.\<close>

lemma update_feature_ok:
  assumes "rbac_db_ok (w_db w)"
  shows "rbac_db_ok (w_db (snd (update_feature fid dto w)))"
proof -
  let ?f = "apply_feature dto (w_now w)" and ?P = "\<lambda>f. f_id f = fid"
  let ?d = "(w_db w)\<lparr>db_features := update_where ?P ?f (features w)\<rparr>"
  have ids: "map f_id (update_where ?P ?f (features w)) = map f_id (features w)"
    by (rule map_update_where) (simp add: apply_feature_def)
  have "distinct (map f_key (update_where ?P ?f (features w)))"
    if free: "case uf_key dto of Val k \<Rightarrow> find_row (\<lambda>f. f_key f = k \<and> f_id f \<noteq> fid) (features w) = None | _ \<Rightarrow> True"
  proof (cases "uf_key dto")
    case (Val k)
    show ?thesis
      using assms free Val unique_id [of f_id "features w" fid]
      by (intro distinct_update_key [where x = k])
         (auto simp: apply_feature_def find_row_None_iff rbac_db_ok_defs)
  qed (use assms in \<open>simp_all add: map_update_where apply_feature_def rbac_db_ok_defs\<close>)
  moreover have "f_id ` set (update_where ?P ?f (features w)) = f_id ` set (features w)"
    using arg_cong [OF ids, of set] by simp
  ultimately have "rbac_db_ok ?d"
    if "case uf_key dto of Val k \<Rightarrow> find_row (\<lambda>f. f_key f = k \<and> f_id f \<noteq> fid) (features w) = None | _ \<Rightarrow> True"
    using assms ids that by (simp add: rbac_db_ok_defs)
  with assms show ?thesis
    by (auto simp: update_feature_def split: js_opt.splits)
qed

lemma update_permission_ok:
  assumes "rbac_db_ok (w_db w)"
  shows "rbac_db_ok (w_db (snd (update_permission pid dto w)))"
proof -
  let ?f = "apply_permission dto (w_now w)" and ?P = "\<lambda>p. p_id p = pid"
  have keys: "map k (update_where ?P ?f (permissions w)) = map k (permissions w)"
    if "\<And>p. k (?f p) = k p" for k :: "permission \<Rightarrow> 'a"
    using that by (rule map_update_where)
  have set_keys: "k ` set (update_where ?P ?f (permissions w)) = k ` set (permissions w)"
    if "\<And>p. k (?f p) = k p" for k :: "permission \<Rightarrow> 'a"
    using arg_cong [OF keys [of k, OF that], of set] by simp
  show ?thesis
    using assms by (auto simp: update_permission_def rbac_db_ok_defs keys set_keys apply_permission_def)
qed

lemma save_role_ok:
  assumes "rbac_db_ok (w_db w)" and "r_id row \<in> r_id ` set (roles w)"
  shows "rbac_db_ok (w_db (snd (save_role row w)))"
proof -
  let ?row = "row\<lparr>r_updatedAt := w_now w\<rparr>" and ?P = "\<lambda>r. r_id r = r_id row"
  have ids: "map r_id (update_where ?P (\<lambda>_. ?row) (roles w)) = map r_id (roles w)"
    by (induction "roles w") (auto simp: update_where_def)
  have set_ids: "r_id ` set (update_where ?P (\<lambda>_. ?row) (roles w)) = r_id ` set (roles w)"
    using arg_cong [OF ids, of set] by simp
  have "distinct (map r_name (update_where ?P (\<lambda>_. ?row) (roles w)))"
    if "find_row (\<lambda>r. r_name r = r_name row \<and> r_id r \<noteq> r_id row) (roles w) = None"
    using assms(1) that unique_id [of r_id "roles w" "r_id row"]
    by (intro distinct_update_key [where x = "r_name row"]) (auto simp: find_row_None_iff rbac_db_ok_defs)
  with assms(1) show ?thesis
    by (auto simp: save_role_def Let_def rbac_db_ok_defs ids set_ids)
qed

end
