(* ===== verification/Rbac_Service.thy ===== *)
theory Rbac_Service
  imports Rbac_Db Cache_Store
begin

text \<open>
  \<open>RbacService\<close> (\<open>modules/rbac/services/rbac.service.ts\<close>): the permission sets of roles, cached
  with the epoch they were read at, and the invalidation that raises the epoch. The interface its
  clients rely on is the locale \<open>permission_oracle\<close>. Here each call runs to its end before the
  next; the interleaved calls, with \<open>pendingRequests\<close>, are in \<open>Rbac_Concurrent\<close>.
\<close>

section \<open>The epoch\<close>

text \<open>
  \<open>readRbacGlobalEpoch\<close> and \<open>incrementRbacGlobalEpoch\<close> (\<open>config/cache-stores.factory.ts\<close>) on
  Redis' counter; INCR of an absent key gives 1.
\<close>

definition readRbacGlobalEpoch :: "(world, int option) act" where
  "readRbacGlobalEpoch = (\<lambda>w. if redisReadFails (w_faults w)
     then (Inl (CacheFailure ''rbac:global:epoch''), w) else (Inr (w_redisEpoch w), w))"

definition incrementRbacGlobalEpoch :: "(world, int) act" where
  "incrementRbacGlobalEpoch = (\<lambda>w. if redisIncrFails (w_faults w)
     then (Inl (CacheFailure ''rbac:global:epoch''), w)
     else let next = (case w_redisEpoch w of None \<Rightarrow> 0 | Some n \<Rightarrow> n) + 1 in
       (Inr next, w\<lparr>w_redisEpoch := Some next\<rparr>))"

definition set_local_epoch :: "int \<Rightarrow> (world, unit) act" where
  "set_local_epoch n = modify (\<lambda>w. w\<lparr>w_invalidationEpoch := n\<rparr>)"

definition local_epoch :: "(world, int) act" where
  "local_epoch = (\<lambda>w. (Inr (w_invalidationEpoch w), w))"

definition getGlobalEpoch :: "env \<Rightarrow> (world, int) act" where
  "getGlobalEpoch E =
     (if \<not> e_redisConfigured E then local_epoch
      else andThen (catching readRbacGlobalEpoch (\<lambda>e. ret None)) (\<lambda>stored. case stored of
          Some n \<Rightarrow> andThen (set_local_epoch n) (\<lambda>_. ret n)
        | None \<Rightarrow> local_epoch))"

definition bump_local :: "(world, int) act" where
  "bump_local = andThen local_epoch (\<lambda>n. andThen (set_local_epoch (n + 1)) (\<lambda>_. ret (n + 1)))"

definition bumpGlobalEpoch :: "env \<Rightarrow> (world, int) act" where
  "bumpGlobalEpoch E =
     (if \<not> e_redisConfigured E then bump_local
      else catching (andThen incrementRbacGlobalEpoch (\<lambda>next. andThen (set_local_epoch next) (\<lambda>_. ret next)))
             (\<lambda>e. bump_local))"

section \<open>Reading permissions\<close>

fun cached_perms :: "cache_value option \<Rightarrow> (int \<times> string list) option" where
  "cached_perms (Some (CPerms epoch ps)) = Some (epoch, ps)"
| "cached_perms _ = None"

text \<open>The query on \<open>role_permissions\<close>, which the database may refuse.\<close>

definition query_permissions :: "uuid \<Rightarrow> (world, string list) act" where
  "query_permissions roleId = (\<lambda>w. if rbacQueryFails (w_faults w) then (Inl (QueryFailed ''57014''), w)
     else (Inr (fetchPermissionStringsForRole roleId (w_db w)), w))"

text \<open>
  The first \<open>try\<close> block: the epoch read, if it was read, and the cached permissions if their
  epoch is that one; a failure ends the block with what was read so far.
\<close>

definition read_cached :: "env \<Rightarrow> uuid \<Rightarrow> (world, int option \<times> string list option) act" where
  "read_cached E roleId = catching
     (andThen (getGlobalEpoch E) (\<lambda>currentEpoch.
        catching
          (andThen (cacheGet (rolePermissionCacheKey roleId)) (\<lambda>cached.
             ret (Some currentEpoch, (case cached_perms cached of
                 Some (epoch, ps) \<Rightarrow> if epoch = currentEpoch then Some ps else None
               | None \<Rightarrow> None))))
          (\<lambda>e. ret (Some currentEpoch, None))))
     (\<lambda>e. ret (None, None))"

definition store_permissions :: "env \<Rightarrow> uuid \<Rightarrow> int \<Rightarrow> string list \<Rightarrow> (world, unit) act" where
  "store_permissions E roleId epoch ps =
     andThen (catching (cacheSet (rolePermissionCacheKey roleId) (CPerms epoch ps) (e_rbacCacheTtl E)) (\<lambda>e. ret ()))
       (\<lambda>_. modify (\<lambda>w. w\<lparr>w_cachedRoleKeys := List.insert (rolePermissionCacheKey roleId) (w_cachedRoleKeys w)\<rparr>))"

definition fetch_and_cache :: "env \<Rightarrow> uuid \<Rightarrow> int option \<Rightarrow> (world, string list) act" where
  "fetch_and_cache E roleId currentEpoch =
     andThen local_epoch (\<lambda>epochSnapshot.
     andThen (query_permissions roleId) (\<lambda>ps.
     andThen local_epoch (\<lambda>invalidationEpoch.
       if epochSnapshot = invalidationEpoch then
         andThen (case currentEpoch of Some e \<Rightarrow> ret e | None \<Rightarrow> getGlobalEpoch E) (\<lambda>epoch.
         andThen (store_permissions E roleId epoch ps) (\<lambda>_. ret ps))
       else ret ps)))"

definition getPermissionsForRole :: "env \<Rightarrow> uuid \<Rightarrow> (world, string list) act" where
  "getPermissionsForRole E roleId =
     andThen (read_cached E roleId) (\<lambda>(currentEpoch, hit). case hit of
         Some ps \<Rightarrow> ret ps
       | None \<Rightarrow> fetch_and_cache E roleId currentEpoch)"

definition checkPermissions :: "env \<Rightarrow> uuid \<Rightarrow> string list \<Rightarrow> (world, bool) act" where
  "checkPermissions E roleId requiredPermissions =
     (if roleId = [] \<or> requiredPermissions = [] then ret False
      else catching
        (andThen (getPermissionsForRole E roleId) (\<lambda>userPermissions.
           ret (list_all (\<lambda>perm. perm \<in> set userPermissions) requiredPermissions)))
        (\<lambda>e. ret False))"

section \<open>Invalidation\<close>

definition clearRoleCacheKey :: "uuid \<Rightarrow> world \<Rightarrow> world" where
  "clearRoleCacheKey roleId w =
     w\<lparr>w_cachedRoleKeys := removeAll (rolePermissionCacheKey roleId) (w_cachedRoleKeys w)\<rparr>"

definition invalidateRoleCache :: "env \<Rightarrow> uuid \<Rightarrow> (world, unit) act" where
  "invalidateRoleCache E roleId = andThen (bumpGlobalEpoch E) (\<lambda>_. modify (clearRoleCacheKey roleId))"

definition invalidateRoles :: "env \<Rightarrow> uuid list \<Rightarrow> (world, unit) act" where
  "invalidateRoles E roleIds =
     (if roleIds = [] then ret ()
      else andThen (bumpGlobalEpoch E) (\<lambda>_. modify (fold clearRoleCacheKey roleIds)))"

definition invalidateAllRoles :: "env \<Rightarrow> (world, unit) act" where
  "invalidateAllRoles E = andThen (bumpGlobalEpoch E) (\<lambda>_. modify (\<lambda>w. w\<lparr>w_cachedRoleKeys := []\<rparr>))"

section \<open>The interface of the guard\<close>

text \<open>
  What a client of \<open>checkPermissions\<close> relies on: it always returns, and its answer is whether
  the permissions granted to the role cover the required ones, of which there must be some.
\<close>

locale permission_oracle =
  fixes check :: "'r \<Rightarrow> 'p list \<Rightarrow> ('w, bool) act"
    and granted :: "'r \<Rightarrow> 'w \<Rightarrow> 'p set"
    and ok :: "'w \<Rightarrow> bool"
  assumes check_answers: "ok w \<Longrightarrow> fst (check r req w) = Inr (req \<noteq> [] \<and> set req \<subseteq> granted r w)"
    and check_keeps: "ok w \<Longrightarrow> ok (snd (check r req w))"
    and check_changes_nothing: "ok w \<Longrightarrow> granted r' (snd (check r req w)) = granted r' w"
begin

lemma andThen_check:
  "ok w \<Longrightarrow> andThen (check r req) k w = k (req \<noteq> [] \<and> set req \<subseteq> granted r w) (snd (check r req w))"
  using check_answers [of w r req] by (cases "check r req w") (simp add: andThen_def)

text \<open>Any number of checks later, the answer is the same.\<close>

lemma checks_keep: "ok w \<Longrightarrow> ok (fold (\<lambda>(r, req) w. snd (check r req w)) cs w) \<and>
    granted r (fold (\<lambda>(r, req) w. snd (check r req w)) cs w) = granted r w"
  by (induction cs arbitrary: w) (auto simp: check_keeps check_changes_nothing)

lemma check_again:
  "ok w \<Longrightarrow> fst (check r req (fold (\<lambda>(r, req) w. snd (check r req w)) cs w)) = fst (check r req w)"
  using checks_keep [of w cs r] by (simp add: check_answers)

text \<open>Requiring more is granted to fewer.\<close>

lemma check_antimono:
  "ok w \<Longrightarrow> fst (check r (req @ req') w) = Inr True \<Longrightarrow> req \<noteq> [] \<Longrightarrow> fst (check r req w) = Inr True"
  by (simp add: check_answers)

end

section \<open>Coherence of the cache\<close>

text \<open>
  The epoch all instances agree on; what the local copy may lag behind by; and coherence: a cached
  set whose epoch is the agreed one is the set the tables grant now.
\<close>

definition shared_epoch :: "env \<Rightarrow> world \<Rightarrow> int" where
  "shared_epoch E w = (if \<not> e_redisConfigured E then w_invalidationEpoch w
     else case w_redisEpoch w of Some n \<Rightarrow> n | None \<Rightarrow> w_invalidationEpoch w)"

definition epoch_ok :: "env \<Rightarrow> world \<Rightarrow> bool" where
  "epoch_ok E w \<longleftrightarrow> (e_redisConfigured E \<longrightarrow> (case w_redisEpoch w of
     None \<Rightarrow> w_invalidationEpoch w = 0 | Some n \<Rightarrow> w_invalidationEpoch w \<le> n))"

definition granted :: "uuid \<Rightarrow> database \<Rightarrow> string set" where
  "granted roleId d = (if roleId = [] then {} else set (fetchPermissionStringsForRole roleId d))"

definition entries_ok :: "env \<Rightarrow> world \<Rightarrow> bool" where
  "entries_ok E w \<longleftrightarrow> (\<forall>r epoch ps x.
     w_cache w (rolePermissionCacheKey r) = Some (CPerms epoch ps, x) \<longrightarrow>
     epoch \<le> shared_epoch E w \<and>
     (epoch = shared_epoch E w \<longrightarrow> set ps = set (fetchPermissionStringsForRole r (w_db w))))"

definition coherent :: "env \<Rightarrow> world \<Rightarrow> bool" where
  "coherent E w \<longleftrightarrow> epoch_ok E w \<and> entries_ok E w"

definition epoch_readable :: "env \<Rightarrow> world \<Rightarrow> bool" where
  "epoch_readable E w \<longleftrightarrow> \<not> e_redisConfigured E \<or> \<not> redisReadFails (w_faults w)"

lemma getGlobalEpoch_eq:
  assumes "epoch_ok E w"
  shows "getGlobalEpoch E w =
    (let e = (if epoch_readable E w then shared_epoch E w else w_invalidationEpoch w) in
     (Inr e, w\<lparr>w_invalidationEpoch := e\<rparr>))"
  by (auto simp: getGlobalEpoch_def readRbacGlobalEpoch_def local_epoch_def set_local_epoch_def andThen_def
      catching_def epoch_readable_def shared_epoch_def Let_def split: option.splits)

lemma bumpGlobalEpoch_eq:
  assumes "epoch_ok E w" and "\<not> redisIncrFails (w_faults w)"
  shows "bumpGlobalEpoch E w =
    (Inr (shared_epoch E w + 1), w\<lparr>w_invalidationEpoch := shared_epoch E w + 1,
       w_redisEpoch := (if e_redisConfigured E then Some (shared_epoch E w + 1) else w_redisEpoch w)\<rparr>)"
  using assms
  by (auto simp: bumpGlobalEpoch_def incrementRbacGlobalEpoch_def local_epoch_def set_local_epoch_def
      bump_local_def andThen_def catching_def shared_epoch_def epoch_ok_def Let_def split: option.splits)

text \<open>Reading the epoch changes the local copy only.\<close>

lemma coherent_local:
  assumes "coherent E w"
    and "e = (if epoch_readable E w then shared_epoch E w else w_invalidationEpoch w)"
  shows "coherent E (w\<lparr>w_invalidationEpoch := e\<rparr>)"
    and "shared_epoch E (w\<lparr>w_invalidationEpoch := e\<rparr>) = shared_epoch E w" and "e \<le> shared_epoch E w"
proof -
  from assms have ok: "epoch_ok E w" "entries_ok E w" by (simp_all add: coherent_def)
  with assms(2) show same: "shared_epoch E (w\<lparr>w_invalidationEpoch := e\<rparr>) = shared_epoch E w"
    and le: "e \<le> shared_epoch E w"
    by (auto simp: shared_epoch_def epoch_ok_def epoch_readable_def split: option.splits)
  have "epoch_ok E (w\<lparr>w_invalidationEpoch := e\<rparr>)"
    using ok(1) le assms(2) by (auto simp: epoch_ok_def shared_epoch_def epoch_readable_def split: option.splits)
  with ok(2) same show "coherent E (w\<lparr>w_invalidationEpoch := e\<rparr>)"
    by (simp add: coherent_def entries_ok_def)
qed

lemma store_permissions_eq:
  "store_permissions E r e ps w = (Inr (),
     (if cacheSetFails (w_faults w) (rolePermissionCacheKey r) then w
      else w\<lparr>w_cache := cache_put (w_now w) (rolePermissionCacheKey r) (CPerms e ps) (e_rbacCacheTtl E) (w_cache w)\<rparr>)
     \<lparr>w_cachedRoleKeys := List.insert (rolePermissionCacheKey r) (w_cachedRoleKeys w)\<rparr>)"
  by (simp add: store_permissions_def andThen_def catching_def cacheSet_def)

lemma store_epochs [simp]:
  "epoch_ok E (snd (store_permissions E r e ps w)) = epoch_ok E w"
  "shared_epoch E (snd (store_permissions E r e ps w)) = shared_epoch E w"
  "w_db (snd (store_permissions E r e ps w)) = w_db w"
  by (simp_all add: store_permissions_eq epoch_ok_def shared_epoch_def cong: option.case_cong)

lemma coherent_store:
  assumes "coherent E w" and "e \<le> shared_epoch E w" and "set ps = set (fetchPermissionStringsForRole r (w_db w))"
  shows "coherent E (snd (store_permissions E r e ps w))"
proof -
  let ?w' = "snd (store_permissions E r e ps w)"
  have "epoch \<le> shared_epoch E w \<and> (epoch = shared_epoch E w \<longrightarrow>
      set qs = set (fetchPermissionStringsForRole r' (w_db w)))"
    if c: "w_cache ?w' (rolePermissionCacheKey r') = Some (CPerms epoch qs, x)" for r' epoch qs x
  proof (cases "w_cache w (rolePermissionCacheKey r') = Some (CPerms epoch qs, x)")
    case True
    with assms(1) show ?thesis unfolding coherent_def entries_ok_def by blast
  next
    case False
    with c have "r' = r" "epoch = e" "qs = ps"
      by (auto simp: store_permissions_eq cache_put_def split: if_splits)
    with assms(2,3) show ?thesis by simp
  qed
  with assms(1) show ?thesis by (simp add: coherent_def entries_ok_def)
qed

lemma fetch_and_cache_eq:
  "fetch_and_cache E r (Some e) w =
     (if rbacQueryFails (w_faults w) then (Inl (QueryFailed ''57014''), w)
      else (Inr (fetchPermissionStringsForRole r (w_db w)),
            snd (store_permissions E r e (fetchPermissionStringsForRole r (w_db w)) w)))"
  by (simp add: fetch_and_cache_def andThen_def local_epoch_def query_permissions_def store_permissions_eq)

lemma read_cached_cases:
  assumes "epoch_ok E w"
  obtains e w1 where "e = (if epoch_readable E w then shared_epoch E w else w_invalidationEpoch w)"
      and "w1 = w\<lparr>w_invalidationEpoch := e\<rparr>"
      and "read_cached E r w = (Inr (Some e, None), w1)"
  | e w1 ps x where "e = (if epoch_readable E w then shared_epoch E w else w_invalidationEpoch w)"
      and "w1 = w\<lparr>w_invalidationEpoch := e\<rparr>"
      and "read_cached E r w = (Inr (Some e, Some ps), w1)"
      and "w_cache w (rolePermissionCacheKey r) = Some (CPerms e ps, x)"
proof -
  let ?e = "if epoch_readable E w then shared_epoch E w else w_invalidationEpoch w"
  let ?w1 = "w\<lparr>w_invalidationEpoch := ?e\<rparr>"
  let ?c = "cache_get (w_now w) (rolePermissionCacheKey r) (w_cache w)"
  let ?hit = "case cached_perms ?c of Some (epoch, ps) \<Rightarrow> if epoch = ?e then Some ps else None | None \<Rightarrow> None"
  have rd: "read_cached E r w =
      (Inr (Some ?e, if cacheGetFails (w_faults w) (rolePermissionCacheKey r) then None else ?hit), ?w1)"
    by (simp add: read_cached_def catching_def andThen_def getGlobalEpoch_eq [OF assms] Let_def cacheGet_def)
  show ?thesis
  proof (cases "\<not> cacheGetFails (w_faults w) (rolePermissionCacheKey r) \<and> ?hit \<noteq> None")
    case True
    then obtain ps where "?c = Some (CPerms ?e ps)"
      by (auto split: option.splits if_splits elim!: cached_perms.elims)
    moreover from this obtain x where "w_cache w (rolePermissionCacheKey r) = Some (CPerms ?e ps, x)"
      by (auto simp: cache_get_def split: option.splits prod.splits if_splits)
    ultimately show ?thesis using that(2) [OF refl refl] rd True by simp
  qed (use that(1) [OF refl refl] rd in \<open>auto split: if_splits\<close>)
qed

text \<open>Reading keeps coherence, whatever fails; and what it returns when the epoch can be read.\<close>

lemma getPermissionsForRole_coherent:
  assumes "coherent E w"
  shows "coherent E (snd (getPermissionsForRole E r w)) \<and> w_db (snd (getPermissionsForRole E r w)) = w_db w \<and>
    w_faults (snd (getPermissionsForRole E r w)) = w_faults w \<and>
    (\<forall>ps. fst (getPermissionsForRole E r w) = Inr ps \<and> epoch_readable E w \<longrightarrow>
      set ps = set (fetchPermissionStringsForRole r (w_db w)))"
proof -
  from assms have ok: "epoch_ok E w" by (simp add: coherent_def)
  show ?thesis
  proof (cases rule: read_cached_cases [OF ok, of r])
    case (1 e w1)
    note w1 = coherent_local [OF assms 1(1), folded 1(2)]
    have "coherent E (snd (store_permissions E r e (fetchPermissionStringsForRole r (w_db w)) w1))"
      by (rule coherent_store [OF w1(1)]) (use w1(2,3) 1(2) in simp_all)
    with 1 w1(1) show ?thesis
      by (auto simp: getPermissionsForRole_def andThen_def fetch_and_cache_eq store_permissions_eq)
  next
    case (2 e w1 ps x)
    with assms have "epoch_readable E w \<Longrightarrow> set ps = set (fetchPermissionStringsForRole r (w_db w))"
      by (auto simp: coherent_def entries_ok_def)
    with 2 coherent_local(1) [OF assms 2(1)] show ?thesis
      by (auto simp: getPermissionsForRole_def andThen_def)
  qed
qed

lemma getPermissionsForRole_returns:
  assumes "epoch_ok E w" and "\<not> rbacQueryFails (w_faults w)"
  shows "\<exists>ps w'. getPermissionsForRole E r w = (Inr ps, w')"
proof (cases rule: read_cached_cases [OF assms(1), of r])
  case (1 e w1)
  with assms(2) show ?thesis by (simp add: getPermissionsForRole_def andThen_def fetch_and_cache_eq)
qed (simp add: getPermissionsForRole_def andThen_def)

lemma checkPermissions_returns: "\<exists>b. fst (checkPermissions E r req w) = Inr b"
  by (auto simp: checkPermissions_def catching_def split: prod.splits sum.splits)

lemma checkPermissions_state:
  "snd (checkPermissions E r req w) = (if r = [] \<or> req = [] then w else snd (getPermissionsForRole E r w))"
  by (auto simp: checkPermissions_def catching_def andThen_def split: prod.splits sum.splits)

lemma checkPermissions_answer:
  assumes "r \<noteq> []" "req \<noteq> []"
  shows "fst (checkPermissions E r req w) = (case fst (getPermissionsForRole E r w) of
    Inl e \<Rightarrow> Inr False | Inr ps \<Rightarrow> Inr (set req \<subseteq> set ps))"
  using assms by (auto simp: checkPermissions_def catching_def andThen_def list_all_iff split: prod.splits sum.splits)

text \<open>The states in which the guard may rely on the answer.\<close>

definition rbac_ready :: "env \<Rightarrow> world \<Rightarrow> bool" where
  "rbac_ready E w \<longleftrightarrow> coherent E w \<and> epoch_readable E w \<and> \<not> rbacQueryFails (w_faults w)"

interpretation rbac: permission_oracle "checkPermissions E" "\<lambda>r w. granted r (w_db w)" "rbac_ready E" for E
proof
  fix w r req
  assume ready: "rbac_ready E w"
  then have c: "coherent E w" and ok: "epoch_ok E w" and q: "\<not> rbacQueryFails (w_faults w)" and er: "epoch_readable E w"
    by (auto simp: rbac_ready_def coherent_def)
  obtain ps w' where g: "getPermissionsForRole E r w = (Inr ps, w')"
    using getPermissionsForRole_returns [OF ok q] by blast
  note g' = getPermissionsForRole_coherent [OF c, of r, unfolded g, simplified]
  show "fst (checkPermissions E r req w) = Inr (req \<noteq> [] \<and> set req \<subseteq> granted r (w_db w))"
  proof (cases "r = [] \<or> req = []")
    case True
    then show ?thesis by (auto simp: checkPermissions_def granted_def)
  next
    case False
    with g g' er show ?thesis by (simp add: checkPermissions_answer granted_def)
  qed
  show "rbac_ready E (snd (checkPermissions E r req w))"
    using g g' ready by (auto simp: checkPermissions_state rbac_ready_def epoch_readable_def)
  show "granted r' (w_db (snd (checkPermissions E r req w))) = granted r' (w_db w)" for r'
    using g g' by (simp add: checkPermissions_state)
qed

lemma epoch_modify_db [simp]:
  "epoch_ok E (modify_db f w) = epoch_ok E w" "shared_epoch E (modify_db f w) = shared_epoch E w"
  by (simp_all add: epoch_ok_def shared_epoch_def split: option.splits)

lemma bump_effect:
  assumes "epoch_ok E w" and "\<not> redisIncrFails (w_faults w)"
  shows "shared_epoch E (snd (bumpGlobalEpoch E w)) = shared_epoch E w + 1"
    and "epoch_ok E (snd (bumpGlobalEpoch E w))" and "w_cache (snd (bumpGlobalEpoch E w)) = w_cache w"
    and "w_db (snd (bumpGlobalEpoch E w)) = w_db w" and "w_faults (snd (bumpGlobalEpoch E w)) = w_faults w"
    and "\<exists>n. fst (bumpGlobalEpoch E w) = Inr n"
  by (simp_all add: bumpGlobalEpoch_eq [OF assms]) (simp_all add: shared_epoch_def epoch_ok_def)

text \<open>A mutation followed by a bump: whatever changed in the tables, no cached set is trusted.\<close>

lemma coherent_after_bump:
  assumes "coherent E w" and "\<not> redisIncrFails (w_faults w)"
  shows "coherent E (snd (bumpGlobalEpoch E (modify_db f w)))"
proof -
  from assms(1) have ok: "epoch_ok E (modify_db f w)" by (simp add: coherent_def)
  have "epoch < shared_epoch E w + 1"
    if "w_cache w (rolePermissionCacheKey r) = Some (CPerms epoch ps, x)" for r epoch ps x
    using assms(1) that unfolding coherent_def entries_ok_def by fastforce
  then have "entries_ok E (snd (bumpGlobalEpoch E (modify_db f w)))"
    using bump_effect [OF ok] assms(2) by (fastforce simp: entries_ok_def)
  with bump_effect(2) [OF ok] assms(2) show ?thesis by (simp add: coherent_def)
qed

text \<open>A mutation that changes no role's permissions needs none.\<close>

lemma coherent_same_grants:
  assumes "coherent E w" and "\<And>r. set (fetchPermissionStringsForRole r (f (w_db w))) =
      set (fetchPermissionStringsForRole r (w_db w))"
  shows "coherent E (modify_db f w)"
  using assms by (simp add: coherent_def entries_ok_def)

end
