(* ===== verification/Rbac_Crud.thy ===== *)
theory Rbac_Crud
  imports Rbac_Service Request_Context
begin

text \<open>
  The services behind the RBAC controllers: \<open>FeatureService\<close>, \<open>PermissionService\<close> and
  \<open>RoleService\<close> (\<open>modules/rbac/services/*.service.ts\<close>), each operation with the invalidation it
  makes, and \<open>PermissionGuard\<close> (\<open>common/guards/permission.guard.ts\<close>).
\<close>

section \<open>FeatureService\<close>

record create_feature_dto =
  cf_key :: string
  cf_name :: string
  cf_description :: "string js_opt"
  cf_isActive :: "bool js_opt"

definition new_feature :: "create_feature_dto \<Rightarrow> uuid \<Rightarrow> time \<Rightarrow> feature" where
  "new_feature dto fid now = \<lparr>f_id = fid, f_key = cf_key dto, f_name = cf_name dto,
     f_description = nullish (cf_description dto), f_isActive = set_column (cf_isActive dto) True,
     f_createdAt = now, f_updatedAt = now\<rparr>"

definition feature_create :: "env \<Rightarrow> create_feature_dto \<Rightarrow> (world, feature) act" where
  "feature_create E dto = catching
     (andThen (genUuid E) (\<lambda>fid w. if cf_isActive dto = Null then (Inl (QueryFailed ''23502''), w)
        else insert_feature (new_feature dto fid (w_now w)) w))
     (\<lambda>err. throw (handlePgConstraintError err
        (Some (Conflict (''Feature with key '' @ quoted (cf_key dto) @ '' already exists''))) None))"

definition feature_findOne :: "uuid \<Rightarrow> (world, feature \<times> permission list) act" where
  "feature_findOne fid = (\<lambda>w. assertFound
     (map_option (\<lambda>f. (f, filter (\<lambda>p. p_featureId p = fid) (permissions w)))
        (find_row (\<lambda>f. f_id f = fid) (features w))) ''Feature'' fid w)"

definition feature_update :: "env \<Rightarrow> uuid \<Rightarrow> update_feature_dto \<Rightarrow> (world, feature \<times> permission list) act" where
  "feature_update E fid dto =
     andThen (update_feature fid dto) (\<lambda>n.
     andThen (ensureAffected n ''Feature'' fid) (\<lambda>_.
     andThen (invalidateAllRoles E) (\<lambda>_.
     feature_findOne fid)))"

definition feature_remove :: "env \<Rightarrow> uuid \<Rightarrow> (world, unit) act" where
  "feature_remove E fid =
     andThen (safeDelete (delete_feature fid) fid ''Feature''
                ''Cannot delete feature with existing permissions assigned to roles'')
       (\<lambda>_. invalidateAllRoles E)"

section \<open>PermissionService\<close>

record create_permission_dto =
  cp_featureId :: uuid
  cp_action :: string
  cp_name :: string
  cp_description :: "string js_opt"

definition new_permission :: "create_permission_dto \<Rightarrow> uuid \<Rightarrow> time \<Rightarrow> permission" where
  "new_permission dto pid now = \<lparr>p_id = pid, p_featureId = cp_featureId dto, p_action = cp_action dto,
     p_name = cp_name dto, p_description = nullish (cp_description dto), p_createdAt = now, p_updatedAt = now\<rparr>"

definition permission_create :: "env \<Rightarrow> create_permission_dto \<Rightarrow> (world, permission) act" where
  "permission_create E dto = catching
     (andThen (genUuid E) (\<lambda>pid w. insert_permission (new_permission dto pid (w_now w)) w))
     (\<lambda>err. throw (handlePgConstraintError err
        (Some (Conflict (''Permission '' @ quoted (cp_action dto) @ '' for this feature already exists''))) None))"

text \<open>\<open>ORDER BY action\<close> follows the database's collation, an argument.\<close>

definition permission_findByFeature ::
  "(string \<Rightarrow> 'k::linorder) \<Rightarrow> uuid \<Rightarrow> world \<Rightarrow> (permission \<times> feature option) list" where
  "permission_findByFeature collation fid w =
     map (\<lambda>p. (p, find_row (\<lambda>f. f_id f = p_featureId p) (features w)))
       (sort_key (\<lambda>p. collation (p_action p)) (filter (\<lambda>p. p_featureId p = fid) (permissions w)))"

definition permission_findOne :: "uuid \<Rightarrow> (world, permission \<times> feature option) act" where
  "permission_findOne pid = (\<lambda>w. assertFound
     (map_option (\<lambda>p. (p, find_row (\<lambda>f. f_id f = p_featureId p) (features w)))
        (find_row (\<lambda>p. p_id p = pid) (permissions w))) ''Permission'' pid w)"

definition role_ids_for_permission :: "uuid \<Rightarrow> (world, uuid list) act" where
  "role_ids_for_permission pid = (\<lambda>w. (Inr (fetchRoleIdsForPermission pid (w_db w)), w))"

definition permission_update ::
  "env \<Rightarrow> uuid \<Rightarrow> update_permission_dto \<Rightarrow> (world, permission \<times> feature option) act" where
  "permission_update E pid dto =
     andThen (update_permission pid dto) (\<lambda>n.
     andThen (ensureAffected n ''Permission'' pid) (\<lambda>_.
     andThen (role_ids_for_permission pid) (\<lambda>roleIds.
     andThen (invalidateRoles E roleIds) (\<lambda>_.
     permission_findOne pid))))"

definition permission_remove :: "env \<Rightarrow> uuid \<Rightarrow> (world, unit) act" where
  "permission_remove E pid =
     andThen (role_ids_for_permission pid) (\<lambda>roleIds.
     andThen (safeDelete (delete_permission pid) pid ''Permission''
                ''Cannot delete permission that is assigned to roles. Revoke it first.'') (\<lambda>_.
     invalidateRoles E roleIds))"

section \<open>RoleService\<close>

record create_role_dto =
  cr_name :: string
  cr_description :: "string js_opt"
  cr_isActive :: "bool js_opt"

definition new_role :: "create_role_dto \<Rightarrow> uuid \<Rightarrow> time \<Rightarrow> role" where
  "new_role dto rid now = \<lparr>r_id = rid, r_name = cr_name dto, r_description = nullish (cr_description dto),
     r_isActive = set_column (cr_isActive dto) True, r_createdAt = now, r_updatedAt = now\<rparr>"

definition role_exists_message :: "string \<Rightarrow> string" where
  "role_exists_message name = ''Role '' @ quoted name @ '' already exists''"

definition role_create :: "env \<Rightarrow> create_role_dto \<Rightarrow> (world, role) act" where
  "role_create E dto = (\<lambda>w.
     if find_row (\<lambda>r. r_name r = cr_name dto) (roles w) \<noteq> None
     then (Inl (Conflict (role_exists_message (cr_name dto))), w)
     else catching
       (andThen (genUuid E) (\<lambda>rid w. if cr_isActive dto = Null then (Inl (QueryFailed ''23502''), w)
          else insert_role (new_role dto rid (w_now w)) w))
       (\<lambda>err. throw (handlePgConstraintError err
          (Some (Conflict (role_exists_message (cr_name dto)))) None)) w)"

text \<open>The role with its assignments, each with its permission and the permission's feature.\<close>

definition role_findOne ::
  "uuid \<Rightarrow> (world, role \<times> (role_permission \<times> permission option \<times> feature option) list) act" where
  "role_findOne rid = (\<lambda>w. assertFound
     (map_option (\<lambda>r. (r, map (\<lambda>rp.
          let p = find_row (\<lambda>p. p_id p = rp_permissionId rp) (permissions w) in
          (rp, p, Option.bind p (\<lambda>p. find_row (\<lambda>f. f_id f = p_featureId p) (features w))))
          (filter (\<lambda>rp. rp_roleId rp = rid) (rolePermissions w))))
        (find_row (\<lambda>r. r_id r = rid) (roles w))) ''Role'' rid w)"

record update_role_dto =
  ur_name :: "string js_opt"
  ur_description :: "string js_opt"
  ur_isActive :: "bool js_opt"

definition assign_role :: "update_role_dto \<Rightarrow> role \<Rightarrow> role" where
  "assign_role dto r = r\<lparr>r_name := set_column (ur_name dto) (r_name r),
     r_description := set_nullable (ur_description dto) (r_description r),
     r_isActive := set_column (ur_isActive dto) (r_isActive r)\<rparr>"

definition role_name_taken_message :: "string \<Rightarrow> string" where
  "role_name_taken_message name = ''Role with name '' @ quoted name @ '' already exists''"

text \<open>
  \<open>save\<close> fails on the NOT NULL columns when the DTO holds an explicit null; \<open>dto.isActive !==
  undefined\<close> holds for null too.
\<close>

definition role_update :: "env \<Rightarrow> uuid \<Rightarrow> update_role_dto \<Rightarrow> (world, role) act" where
  "role_update E rid dto =
     andThen (role_findOne rid) (\<lambda>(role, _) w.
       if truthy (nullish (ur_name dto)) \<and> nullish (ur_name dto) \<noteq> Some (r_name role) \<and>
          find_row (\<lambda>r. Some (r_name r) = nullish (ur_name dto)) (roles w) \<noteq> None
       then (Inl (Conflict (role_name_taken_message (the (nullish (ur_name dto))))), w)
       else catching
         (andThen (if ur_name dto = Null \<or> ur_isActive dto = Null then throw (QueryFailed ''23502'')
                   else save_role (assign_role dto role)) (\<lambda>updated.
          andThen (if ur_isActive dto \<noteq> Undefined then invalidateRoleCache E rid else ret ()) (\<lambda>_.
          ret updated)))
         (\<lambda>err. throw (handlePgConstraintError err
            (Some (Conflict (role_name_taken_message
               (case nullish (ur_name dto) of Some n \<Rightarrow> n | None \<Rightarrow> r_name role)))) None)) w)"

definition decimal_digit :: "nat \<Rightarrow> char" where
  "decimal_digit n = char_of (48 + n)"

fun decimal :: "nat \<Rightarrow> string" where
  "decimal n = (if n < 10 then [decimal_digit n] else decimal (n div 10) @ [decimal_digit (n mod 10)])"

declare decimal.simps [simp del]

definition role_remove :: "env \<Rightarrow> uuid \<Rightarrow> (world, unit) act" where
  "role_remove E rid = (\<lambda>w.
     if find_row (\<lambda>r. r_id r = rid) (roles w) = None
     then (Inl (NotFound (not_found_message ''Role'' rid)), w)
     else let userCount = affected (\<lambda>u. u_roleId u = Some rid \<and> u_deletedAt u = None) (users w) in
       if 0 < userCount
       then (Inl (Conflict (''Cannot delete role with '' @ decimal userCount @ '' users assigned'')), w)
       else andThen (delete_role rid) (\<lambda>_. invalidateRoleCache E rid) w)"

text \<open>\<open>[...new Set(ids)]\<close>: the first occurrence of each, in order.\<close>

definition js_unique :: "'a list \<Rightarrow> 'a list" where
  "js_unique xs = rev (remdups (rev xs))"

fun insert_assignments :: "env \<Rightarrow> uuid \<Rightarrow> uuid list \<Rightarrow> (world, unit) act" where
  "insert_assignments E rid [] = ret ()"
| "insert_assignments E rid (pid # pids) =
     andThen (genUuid E) (\<lambda>rpid w.
       andThen (insert_role_permission \<lparr>rp_id = rpid, rp_roleId = rid, rp_permissionId = pid,
                  rp_createdAt = w_now w\<rparr>)
         (\<lambda>_. insert_assignments E rid pids) w)"

definition assignPermissions :: "env \<Rightarrow> uuid \<Rightarrow> uuid list \<Rightarrow> (world, uuid list) act" where
  "assignPermissions E roleId ids = (\<lambda>w.
     if find_row (\<lambda>r. r_id r = roleId) (roles w) = None
     then (Inl (NotFound (not_found_message ''Role'' roleId)), w)
     else andThen (transaction (andThen (delete_role_permissions roleId) (\<lambda>_.
            let permissionIds = js_unique ids in
            andThen (insert_assignments E roleId permissionIds) (\<lambda>_. ret permissionIds))))
       (\<lambda>uniquePermissions. andThen (invalidateRoleCache E roleId) (\<lambda>_. ret uniquePermissions)) w)"

section \<open>PermissionGuard\<close>

definition join_strings :: "string \<Rightarrow> string list \<Rightarrow> string" where
  "join_strings sep xs = (case xs of [] \<Rightarrow> [] | y # ys \<Rightarrow> y @ concat (map (\<lambda>s. sep @ s) ys))"

definition permission_canActivate :: "env \<Rightarrow> string list option \<Rightarrow> user option \<Rightarrow> (world, bool) act" where
  "permission_canActivate E requiredPermissions user = (case requiredPermissions of
     None \<Rightarrow> ret True
   | Some required \<Rightarrow>
       if \<not> truthy (Option.bind user u_roleId)
       then throw (Unauthorized ''User does not have a role assigned'')
       else andThen (checkPermissions E (the (Option.bind user u_roleId)) required) (\<lambda>hasPermission.
         if \<not> hasPermission
         then throw (Forbidden (''User does not have required permissions: '' @ join_strings '', '' required))
         else ret True))"

end
