(* ===== verification/Audit_Interceptor.thy ===== *)
theory Audit_Interceptor
  imports Audit_Log
begin

text \<open>
  \<open>AuditInterceptor\<close> (\<open>modules/audit/interceptors/audit.interceptor.ts\<close>) with the options of the
  decorator \<open>@Auditable\<close>: what is recorded of a handler's result. Handler results are JavaScript
  values, here \<open>json\<close>.
\<close>

section \<open>Values\<close>

text \<open>\<open>typeof v === 'object'\<close> for what is not null, \<open>Array.isArray\<close>, and property access.\<close>

fun is_object :: "json \<Rightarrow> bool" where
  "is_object (JObj _) = True"
| "is_object (JArr _) = True"
| "is_object (JDate _) = True"
| "is_object _ = False"

fun is_array :: "json \<Rightarrow> bool" where
  "is_array (JArr _) = True"
| "is_array _ = False"

fun js_property :: "string \<Rightarrow> json \<Rightarrow> json" where
  "js_property k (JObj props) = (case map_of props k of Some v \<Rightarrow> v | None \<Rightarrow> JUndefined)"
| "js_property k _ = JUndefined"

fun as_string :: "json \<Rightarrow> string option" where
  "as_string (JStr s) = Some s"
| "as_string _ = None"

section \<open>Options\<close>

record auditable_options =
  ao_action :: string
  ao_entityType :: string
  ao_entityIdParam :: "(nat + string) option"
  ao_entityIdFromResult :: "string option"

definition Auditable ::
  "string \<Rightarrow> string \<Rightarrow> (nat + string) option \<Rightarrow> string option \<Rightarrow> auditable_options" where
  "Auditable action entityType param fromResult =
     \<lparr>ao_action = action, ao_entityType = entityType, ao_entityIdParam = param,
      ao_entityIdFromResult = fromResult\<rparr>"

section \<open>The entity's id\<close>

text \<open>
  From the named property of the result, from its \<open>id\<close>, or from the argument of the given
  index (0 where the option is no number): the argument itself or its \<open>id\<close>.
\<close>

definition id_from_result :: "auditable_options \<Rightarrow> json \<Rightarrow> string option" where
  "id_from_result options result = (case ao_entityIdFromResult options of
     None \<Rightarrow> None
   | Some key \<Rightarrow> if key \<noteq> [] \<and> is_object result then as_string (js_property key result) else None)"

definition own_id :: "json \<Rightarrow> string option" where
  "own_id result =
     (if is_object result \<and> \<not> is_array result then as_string (js_property ''id'' result) else None)"

definition id_from_args :: "auditable_options \<Rightarrow> json list \<Rightarrow> string option" where
  "id_from_args options args =
     (let paramIndex = (case ao_entityIdParam options of Some (Inl n) \<Rightarrow> n | _ \<Rightarrow> 0) in
      if length args \<le> paramIndex then None
      else (case args ! paramIndex of
          JStr s \<Rightarrow> Some s
        | arg \<Rightarrow> if is_object arg then as_string (js_property ''id'' arg) else None))"

definition resolveEntityId :: "json list \<Rightarrow> auditable_options \<Rightarrow> json \<Rightarrow> string option" where
  "resolveEntityId args options result = (case id_from_result options result of
     Some v \<Rightarrow> Some v
   | None \<Rightarrow> (case own_id result of
       Some v \<Rightarrow> Some v
     | None \<Rightarrow> id_from_args options args))"

text \<open>The arrays \<open>permissionIds\<close> of the result, or else of the request's body.\<close>

definition buildMetadata :: "(string \<times> json) list \<Rightarrow> json \<Rightarrow> (string \<times> json) list" where
  "buildMetadata body result =
     (let ids = js_property ''permissionIds'' result in
      if is_object result \<and> \<not> is_array result \<and> is_array ids then [(''permissionIds'', ids)]
      else let ids = js_property ''permissionIds'' (JObj body) in
        if is_array ids then [(''permissionIds'', ids)] else [])"

section \<open>Interception\<close>

text \<open>
  \<open>getArgs()\<close> of an HTTP context: the request, the response and \<open>next\<close>. Of the request only
  \<open>id\<close> is read; the response and the function have none.
\<close>

definition http_args :: "request \<Rightarrow> json list" where
  "http_args req =
     [JObj (case rq_id req of None \<Rightarrow> [] | Some i \<Rightarrow> [(''id'', JStr i)]), JObj [], JUndefined]"

definition interceptor_entry :: "request \<Rightarrow> auditable_options \<Rightarrow> json \<Rightarrow> audit_entry" where
  "interceptor_entry req options result =
     \<lparr>ae_action = ao_action options, ae_entityType = ao_entityType options,
      ae_entityId = resolveEntityId (http_args req) options result,
      ae_actorUserId = Undefined, ae_correlationId = None,
      ae_metadata = Some (buildMetadata (rq_body req) result),
      ae_ip = fst (extractRequestContext req), ae_userAgent = snd (extractRequestContext req)\<rparr>"

definition intercept ::
  "env \<Rightarrow> request \<Rightarrow> auditable_options option \<Rightarrow> (world, json) act \<Rightarrow> (world, json) act" where
  "intercept E req options handle = (case options of
     None \<Rightarrow> handle
   | Some opts \<Rightarrow> andThen handle (\<lambda>result.
       andThen (auditLog E (interceptor_entry req opts result)) (\<lambda>_. ret result)))"

section \<open>Lemmas\<close>

text \<open>The client sees the handler's result or error, whatever the audit log does.\<close>

lemma intercept_result: "fst (intercept E req options handle w) = fst (handle w)"
  by (cases options)
     (auto simp: intercept_def andThen_def audit.log_returns split: prod.splits sum.splits
       dest: arg_cong [of _ _ fst] intro: auditLog_returns)

lemma intercept_error:
  "handle w = (Inl e, w') \<Longrightarrow> intercept E req options handle w = (Inl e, w')"
  by (cases options) (simp_all add: intercept_def andThen_def)

lemma intercept_success:
  "handle w = (Inr v, w') \<Longrightarrow> intercept E req (Some opts) handle w =
     (Inr v, snd (auditLog E (interceptor_entry req opts v) w'))"
  by (simp add: intercept_def andThen_Inr audit.then_continues)

lemma intercept_None [simp]: "intercept E req None handle = handle"
  by (simp add: intercept_def)

text \<open>A handler that returns nothing leaves only the arguments.\<close>

lemma resolve_void:
  "resolveEntityId args options JUndefined = id_from_args options args"
  by (simp add: resolveEntityId_def id_from_result_def own_id_def split: option.splits)

lemma resolve_id:
  assumes "ao_entityIdFromResult options = None" and "js_property ''id'' (JObj props) = JStr i"
  shows "resolveEntityId args options (JObj props) = Some i"
  using assms by (simp add: resolveEntityId_def id_from_result_def own_id_def)

end
