(* ===== verification/Pagination.thy ===== *)
theory Pagination
  imports Rbac_Db
begin

text \<open>
  The paginated lists: \<open>BasePaginationQueryDto\<close> (\<open>common/dto\<close>), \<open>applyPagination\<close> and
  \<open>applyActiveFilter\<close> (\<open>common/utils/pagination-query.util.ts\<close>), and the two services that
  use them, \<open>RoleService.findAll\<close> and \<open>FeatureService.findAll\<close>.
\<close>

section \<open>The query\<close>

record pagination_query =
  pq_page :: "nat option"
  pq_limit :: "nat option"
  pq_search :: "string option"
  pq_isActive :: "bool option"

text \<open>What the decorators of the DTO accept: integers, the page at least 1, the limit 1 to 100.\<close>

definition pagination_valid :: "pagination_query \<Rightarrow> bool" where
  "pagination_valid q \<longleftrightarrow>
     (case pq_page q of None \<Rightarrow> True | Some n \<Rightarrow> 1 \<le> n) \<and>
     (case pq_limit q of None \<Rightarrow> True | Some n \<Rightarrow> 1 \<le> n \<and> n \<le> 100)"

text \<open>
  \<open>parseOptionalBoolean\<close>, on the values a query parameter can have when the transformer hands
  it over: a string, a boolean, or anything else.
\<close>

datatype raw_value = RawString string | RawBool bool | RawOther

definition parseOptionalBoolean :: "raw_value \<Rightarrow> bool option" where
  "parseOptionalBoolean v =
     (if v = RawBool True \<or> v = RawString ''true'' then Some True
      else if v = RawBool False \<or> v = RawString ''false'' then Some False
      else None)"

section \<open>ILIKE\<close>

text \<open>
  SQL's pattern matching: \<open>%\<close> stands for any characters, \<open>_\<close> for one, a backslash takes the next
  character literally. \<open>ILIKE\<close> compares lower-case forms; \<open>lower\<close> is the database's, an argument.
\<close>

fun sql_like :: "string \<Rightarrow> string \<Rightarrow> bool" where
  "sql_like [] s \<longleftrightarrow> s = []"
| "sql_like (p # ps) [] \<longleftrightarrow> p = CHR ''%'' \<and> sql_like ps []"
| "sql_like (p # ps) (c # cs) \<longleftrightarrow>
     (if p = CHR ''%'' then sql_like ps (c # cs) \<or> sql_like (p # ps) cs
      else if p = CHR ''_'' then sql_like ps cs
      else if p = CHR 0x5C then (case ps of [] \<Rightarrow> False | q # qs \<Rightarrow> q = c \<and> sql_like qs cs)
      else p = c \<and> sql_like ps cs)"

definition ilike :: "(char \<Rightarrow> char) \<Rightarrow> string \<Rightarrow> string \<Rightarrow> bool" where
  "ilike lower s pat \<longleftrightarrow> sql_like (map lower pat) (map lower s)"

definition search_pattern :: "string \<Rightarrow> string" where
  "search_pattern search = ''%'' @ search @ ''%''"

section \<open>Conditions, order, window\<close>

text \<open>\<open>applyActiveFilter\<close>: a condition when \<open>isActive\<close> is given.\<close>

definition active_filter :: "bool option \<Rightarrow> bool \<Rightarrow> bool" where
  "active_filter isActive column = (case isActive of None \<Rightarrow> True | Some b \<Rightarrow> column = b)"

text \<open>\<open>applyPagination\<close>: ORDER BY, OFFSET \<open>(page - 1) * limit\<close>, LIMIT \<open>limit\<close>.\<close>

definition page_of :: "pagination_query \<Rightarrow> nat" where
  "page_of q = (case pq_page q of None \<Rightarrow> 1 | Some n \<Rightarrow> n)"

definition limit_of :: "pagination_query \<Rightarrow> nat" where
  "limit_of q = (case pq_limit q of None \<Rightarrow> 10 | Some n \<Rightarrow> n)"

definition applyPagination :: "pagination_query \<Rightarrow> ('r \<Rightarrow> 'k::linorder) \<Rightarrow> 'r list \<Rightarrow> 'r list" where
  "applyPagination q key rs =
     take (limit_of q) (drop ((page_of q - 1) * limit_of q) (sort_key key rs))"

text \<open>
  \<open>RoleService.findAll\<close>: the page and the number of all matching rows. An empty search is no
  search. \<open>collation\<close> orders the names, as the database's collation does.
\<close>

definition role_matches :: "(char \<Rightarrow> char) \<Rightarrow> pagination_query \<Rightarrow> role \<Rightarrow> bool" where
  "role_matches lower q r \<longleftrightarrow>
     (truthy (pq_search q) \<longrightarrow> ilike lower (r_name r) (search_pattern (the (pq_search q)))) \<and>
     active_filter (pq_isActive q) (r_isActive r)"

definition role_findAll ::
  "(string \<Rightarrow> 'k::linorder) \<Rightarrow> (char \<Rightarrow> char) \<Rightarrow> pagination_query \<Rightarrow> world \<Rightarrow> role list \<times> nat" where
  "role_findAll collation lower q w =
     (let rs = filter (role_matches lower q) (roles w) in
      (applyPagination q (\<lambda>r. collation (r_name r)) rs, length rs))"

text \<open>
  \<open>FeatureService.findAll\<close>. The two conditions are joined as texts: \<open>name ILIKE s OR key ILIKE s
  AND isActive = a\<close>, in which AND binds tighter.
\<close>

definition feature_matches :: "(char \<Rightarrow> char) \<Rightarrow> pagination_query \<Rightarrow> feature \<Rightarrow> bool" where
  "feature_matches lower q f \<longleftrightarrow>
     (if truthy (pq_search q)
      then ilike lower (f_name f) (search_pattern (the (pq_search q))) \<or>
           ilike lower (f_key f) (search_pattern (the (pq_search q))) \<and>
           active_filter (pq_isActive q) (f_isActive f)
      else active_filter (pq_isActive q) (f_isActive f))"

definition feature_findAll :: "(char \<Rightarrow> char) \<Rightarrow> pagination_query \<Rightarrow> world \<Rightarrow> feature list \<times> nat" where
  "feature_findAll lower q w =
     (let fs = filter (feature_matches lower q) (features w) in
      (applyPagination q (\<lambda>f. - f_createdAt f) fs, length fs))"

section \<open>Lemmas on patterns\<close>

definition plain_pattern :: "string \<Rightarrow> bool" where
  "plain_pattern s \<longleftrightarrow> CHR ''%'' \<notin> set s \<and> CHR ''_'' \<notin> set s \<and> CHR 0x5C \<notin> set s"

lemma sql_like_percent: "sql_like [CHR ''%''] s"
  by (induction s) simp_all

lemma sql_like_prefix:
  "plain_pattern p \<Longrightarrow> sql_like (p @ [CHR ''%'']) s \<longleftrightarrow> (\<exists>b. s = p @ b)"
proof (induction p arbitrary: s)
  case (Cons c p)
  then show ?case by (cases s) (auto simp: plain_pattern_def)
qed (simp add: sql_like_percent)

lemma sql_like_infix:
  assumes "plain_pattern p"
  shows "sql_like (''%'' @ p @ ''%'') s \<longleftrightarrow> (\<exists>a b. s = a @ p @ b)"
proof (induction s)
  case Nil
  show ?case using sql_like_prefix [OF assms, of "[]"] by simp
next
  case (Cons c cs)
  have "(\<exists>a b. c # cs = a @ p @ b) \<longleftrightarrow> (\<exists>b. c # cs = p @ b) \<or> (\<exists>a b. cs = a @ p @ b)"
    by (metis append_Cons append_Nil list.inject neq_Nil_conv)
  with Cons.IH show ?case by (simp add: sql_like_prefix [OF assms])
qed

section \<open>Lemmas on pages\<close>

lemma take_drop_pages:
  "concat (map (\<lambda>n. take l (drop (n * l) xs)) [0..<k]) = take (k * l) xs"
proof (induction k)
  case (Suc k)
  have "take (k * l) xs @ take l (drop (k * l) xs) = take (k * l + l) xs"
    by (simp add: take_add)
  with Suc.IH show ?case by (simp add: add.commute)
qed simp

lemma length_applyPagination: "length (applyPagination q key rs) \<le> limit_of q"
  by (simp add: applyPagination_def)

lemma set_applyPagination: "set (applyPagination q key rs) \<subseteq> set rs"
  using set_take_subset set_drop_subset by (fastforce simp: applyPagination_def)

lemma pages_cover:
  assumes "limit_of q = l" and "length rs \<le> k * l"
  shows "concat (map (\<lambda>n. applyPagination (q\<lparr>pq_page := Some (Suc n)\<rparr>) key rs) [0..<k]) = sort_key key rs"
proof -
  have "applyPagination (q\<lparr>pq_page := Some (Suc n)\<rparr>) key rs = take l (drop (n * l) (sort_key key rs))" for n
    using assms(1) by (simp add: applyPagination_def page_of_def limit_of_def)
  with assms(2) show ?thesis by (simp add: take_drop_pages)
qed

lemma limit_valid: "pagination_valid q \<Longrightarrow> 1 \<le> limit_of q \<and> limit_of q \<le> 100"
  by (auto simp: pagination_valid_def limit_of_def split: option.splits)

end
