(* ===== verification/Password_Policy.thy ===== *)
theory Password_Policy
  imports Prelude
begin

text \<open>
  The password rule of \<open>RegisterDto\<close>, \<open>ChangePasswordDto\<close> and \<open>CreateUserDto\<close>: the regular
  expression \<open>/^(?=.*[a-z])(?=.*[A-Z])(?=.*\d).{12,}$/\<close>, with lookahead, matched by backtracking
  as JavaScript does. A character is a code unit below 256.
\<close>

section \<open>Matching\<close>

text \<open>
  The pieces the expression is made of: one character of a class, a class repeated at least
  \<open>n\<close> times, a lookahead, and the end of the input. A list of pieces is matched from the current
  position on (the expression starts with \<open>^\<close>, so only from the first).
\<close>

datatype piece =
    Class "char \<Rightarrow> bool"
  | Many "char \<Rightarrow> bool" nat
  | Look "piece list"
  | InputEnd

function regex_match :: "piece list \<Rightarrow> string \<Rightarrow> bool" where
  "regex_match [] s = True"
| "regex_match (Class P # r) s = (case s of [] \<Rightarrow> False | c # cs \<Rightarrow> P c \<and> regex_match r cs)"
| "regex_match (Many P n # r) s =
     ((n = 0 \<and> regex_match r s) \<or>
      (case s of [] \<Rightarrow> False | c # cs \<Rightarrow> P c \<and> regex_match (Many P (n - 1) # r) cs))"
| "regex_match (Look q # r) s = (regex_match q s \<and> regex_match r s)"
| "regex_match (InputEnd # r) s = (s = [] \<and> regex_match r s)"
  by pat_completeness auto
termination
  by (relation "measures [\<lambda>(r, s). length s, \<lambda>(r, s). size_list size r]") auto

text \<open>The classes: the dot is anything but a line terminator.\<close>

definition line_terminator :: "char \<Rightarrow> bool" where
  "line_terminator c \<longleftrightarrow> of_char c = (10::nat) \<or> of_char c = (13::nat)"

definition any_char :: "char \<Rightarrow> bool" where
  "any_char c \<longleftrightarrow> \<not> line_terminator c"

definition lower_case :: "char \<Rightarrow> bool" where
  "lower_case c \<longleftrightarrow> 97 \<le> (of_char c :: nat) \<and> of_char c \<le> (122::nat)"

definition upper_case :: "char \<Rightarrow> bool" where
  "upper_case c \<longleftrightarrow> 65 \<le> (of_char c :: nat) \<and> of_char c \<le> (90::nat)"

definition decimal_char :: "char \<Rightarrow> bool" where
  "decimal_char c \<longleftrightarrow> 48 \<le> (of_char c :: nat) \<and> of_char c \<le> (57::nat)"

definition password_regex :: "piece list" where
  "password_regex =
     [Look [Many any_char 0, Class lower_case], Look [Many any_char 0, Class upper_case],
      Look [Many any_char 0, Class decimal_char], Many any_char 12, InputEnd]"

definition password_accepted :: "string \<Rightarrow> bool" where
  "password_accepted s = regex_match password_regex s"

section \<open>What the expression means\<close>

lemma match_many_class:
  "regex_match [Many P 0, Class Q] s \<longleftrightarrow> (\<exists>a c b. s = a @ c # b \<and> (\<forall>x \<in> set a. P x) \<and> Q c)"
proof (induction s)
  case (Cons x s)
  have "(\<exists>a c b. x # s = a @ c # b \<and> (\<forall>x \<in> set a. P x) \<and> Q c) \<longleftrightarrow>
      Q x \<or> P x \<and> (\<exists>a c b. s = a @ c # b \<and> (\<forall>x \<in> set a. P x) \<and> Q c)"
  proof (intro iffI; elim exE conjE disjE)
    fix a c b assume "x # s = a @ c # b" "\<forall>x \<in> set a. P x" "Q c"
    then show "Q x \<or> P x \<and> (\<exists>a c b. s = a @ c # b \<and> (\<forall>x \<in> set a. P x) \<and> Q c)"
      by (cases a) auto
  next
    assume "Q x"
    then show "\<exists>a c b. x # s = a @ c # b \<and> (\<forall>x \<in> set a. P x) \<and> Q c"
      by (intro exI [of _ "[]"]) auto
  next
    fix a c b assume "P x" "s = a @ c # b" "\<forall>x \<in> set a. P x" "Q c"
    then show "\<exists>a c b. x # s = a @ c # b \<and> (\<forall>x \<in> set a. P x) \<and> Q c"
      by (intro exI [of _ "x # a"]) auto
  qed
  with Cons.IH show ?case by auto
qed simp

lemma match_many_end:
  "regex_match [Many P n, InputEnd] s \<longleftrightarrow> n \<le> length s \<and> (\<forall>x \<in> set s. P x)"
proof (induction s arbitrary: n)
  case (Cons c s)
  have "regex_match [Many P n, InputEnd] (c # s) \<longleftrightarrow> P c \<and> regex_match [Many P (n - 1), InputEnd] s"
    by simp
  with Cons.IH [of "n - 1"] show ?case by auto
qed simp

lemma match_many_class_all:
  assumes "\<forall>x \<in> set s. P x"
  shows "regex_match [Many P 0, Class Q] s \<longleftrightarrow> (\<exists>c \<in> set s. Q c)"
proof
  assume "regex_match [Many P 0, Class Q] s"
  then show "\<exists>c \<in> set s. Q c" unfolding match_many_class by auto
next
  assume "\<exists>c \<in> set s. Q c"
  then obtain c a b where "Q c" "s = a @ c # b" by (meson split_list)
  with assms show "regex_match [Many P 0, Class Q] s"
    unfolding match_many_class by (intro exI [of _ a] exI [of _ c] exI [of _ b]) simp
qed

text \<open>
  C40. A password is accepted exactly when it has at least twelve characters, among them a lower-case
  letter, an upper-case letter and a digit, and none of them a line break.
\<close>

theorem password_policy:
  "password_accepted s \<longleftrightarrow>
     12 \<le> length s \<and> (\<exists>c \<in> set s. lower_case c) \<and> (\<exists>c \<in> set s. upper_case c) \<and>
     (\<exists>c \<in> set s. decimal_char c) \<and> \<not> (\<exists>c \<in> set s. line_terminator c)"
proof -
  have split: "password_accepted s \<longleftrightarrow>
      regex_match [Many any_char 0, Class lower_case] s \<and> regex_match [Many any_char 0, Class upper_case] s \<and>
      regex_match [Many any_char 0, Class decimal_char] s \<and> regex_match [Many any_char 12, InputEnd] s"
    by (simp only: password_accepted_def password_regex_def regex_match.simps(4))
  show ?thesis
  proof (cases "\<forall>c \<in> set s. any_char c")
    case True
    then show ?thesis
      unfolding split match_many_class_all [OF True] match_many_end by (auto simp: any_char_def)
  next
    case False
    then show ?thesis unfolding split match_many_end by (auto simp: any_char_def)
  qed
qed

end
