(* ===== verification/Health.thy ===== *)
theory Health
  imports World
begin

text \<open>
  The health endpoints: the key-pair check of \<open>common/utils/jwt-keys.util.ts\<close>, the two indicators
  of \<open>modules/health/indicators\<close> and the controller. What \<open>crypto\<close> computes of a key, the ping of
  the database and the ping of Redis are arguments; \<open>HealthCheckService.check\<close> answers 503 when
  one indicator is down.
\<close>

section \<open>The key pair\<close>

text \<open>
  \<open>createPrivateKey\<close>, \<open>createPublicKey\<close> (as its SPKI bytes) and the SPKI bytes of the public key
  derived from a private key; the first two throw, with a message, on what is no key.
\<close>

record 'k key_functions =
  kf_createPrivateKey :: "string \<Rightarrow> string + 'k"
  kf_createPublicKey :: "string \<Rightarrow> string + string"
  kf_derivedPublic :: "'k \<Rightarrow> string"

definition key_mismatch_message :: string where
  "key_mismatch_message = ''JWT RSA key pair mismatch: PUBLIC_KEY does not correspond to PRIVATE_KEY''"

definition assertValidJwtKeyPair :: "'k key_functions \<Rightarrow> string \<Rightarrow> string \<Rightarrow> string + unit" where
  "assertValidJwtKeyPair K privateKey publicKey = (case kf_createPrivateKey K privateKey of
     Inl e \<Rightarrow> Inl e
   | Inr priv \<Rightarrow> (case kf_createPublicKey K publicKey of
       Inl e \<Rightarrow> Inl e
     | Inr providedDer \<Rightarrow>
         if providedDer = kf_derivedPublic K priv then Inr () else Inl key_mismatch_message))"

text \<open>\<open>trim\<close> on the white space of ASCII.\<close>

definition js_space :: "char \<Rightarrow> bool" where
  "js_space c \<longleftrightarrow> of_char c \<in> {9, 10, 11, 12, 13, 32::nat}"

definition js_trim :: "string \<Rightarrow> string" where
  "js_trim s = rev (dropWhile js_space (rev (dropWhile js_space s)))"

definition isValidJwtKeyPair :: "'k key_functions \<Rightarrow> string \<Rightarrow> string \<Rightarrow> bool" where
  "isValidJwtKeyPair K privateKey publicKey =
     (if js_trim privateKey = [] \<or> js_trim publicKey = [] then False
      else \<not> isl (assertValidJwtKeyPair K privateKey publicKey))"

section \<open>Indicators\<close>

record health_result =
  hr_key :: string
  hr_up :: bool
  hr_message :: "string option"

definition jwtKeys_isHealthy :: "'k key_functions \<Rightarrow> string \<Rightarrow> string \<Rightarrow> string \<Rightarrow> health_result" where
  "jwtKeys_isHealthy K privateKey publicKey key =
     (if isValidJwtKeyPair K privateKey publicKey
      then \<lparr>hr_key = key, hr_up = True, hr_message = None\<rparr>
      else \<lparr>hr_key = key, hr_up = False, hr_message = Some ''JWT keypair missing or invalid''\<rparr>)"

text \<open>The pinger is absent when Redis is not configured; its ping fails with a message.\<close>

definition redis_isHealthy :: "(string + unit) option \<Rightarrow> string \<Rightarrow> health_result" where
  "redis_isHealthy redis key = (case redis of
     None \<Rightarrow> \<lparr>hr_key = key, hr_up = True, hr_message = Some ''Redis not configured, skipping''\<rparr>
   | Some (Inr _) \<Rightarrow> \<lparr>hr_key = key, hr_up = True, hr_message = None\<rparr>
   | Some (Inl message) \<Rightarrow> \<lparr>hr_key = key, hr_up = False, hr_message = Some message\<rparr>)"

section \<open>The controller\<close>

definition liveness :: string where
  "liveness = ''ok''"

definition readiness ::
  "'k key_functions \<Rightarrow> string \<Rightarrow> string \<Rightarrow> health_result \<Rightarrow> (string + unit) option \<Rightarrow>
     health_result list + health_result list" where
  "readiness K privateKey publicKey pingCheck redis =
     (let checks = [pingCheck, redis_isHealthy redis ''redis'',
                    jwtKeys_isHealthy K privateKey publicKey ''jwt_keys''] in
      if \<forall>c \<in> set checks. hr_up c then Inr checks else Inl checks)"

text \<open>The service is ready exactly when all three parts are, Redis only where it is configured.\<close>

lemma readiness_iff:
  "\<not> isl (readiness K privateKey publicKey pingCheck redis) \<longleftrightarrow>
     hr_up pingCheck \<and> (redis = None \<or> redis = Some (Inr ())) \<and>
     isValidJwtKeyPair K privateKey publicKey"
  by (auto simp: readiness_def redis_isHealthy_def jwtKeys_isHealthy_def Let_def
      split: option.splits sum.splits)

lemma key_pair_valid_iff:
  "isValidJwtKeyPair K privateKey publicKey \<longleftrightarrow>
     js_trim privateKey \<noteq> [] \<and> js_trim publicKey \<noteq> [] \<and>
     (\<exists>priv. kf_createPrivateKey K privateKey = Inr priv \<and>
        kf_createPublicKey K publicKey = Inr (kf_derivedPublic K priv))"
  by (auto simp: isValidJwtKeyPair_def assertValidJwtKeyPair_def split: sum.splits if_splits)

end
