(* ===== verification/Endpoints.thy ===== *)
theory Endpoints
  imports Rbac_Crud User_Admin Jwt_Strategy Audit_Interceptor Pagination Password_Policy Health
begin

text \<open>
  The HTTP surface: the controllers with their decorators (\<open>@Public\<close>, \<open>@UseGuards\<close>,
  \<open>@RequirePermissions\<close>, \<open>@Auditable\<close>, \<open>@RbacEndpoint\<close>) and the way of a request through the
  middleware, the guards, the audit interceptor, the validation pipe and the handler. A request
  is a value of \<open>endpoint\<close> with its parameters and its typed body.
\<close>

section \<open>Decorators\<close>

text \<open>
  What the decorators of a handler and its class say: public or not, whether \<open>PermissionGuard\<close> is
  applied, the required permissions, and the audit options.
\<close>

record route =
  rt_public :: bool
  rt_permissionGuard :: bool
  rt_permissions :: "string list option"
  rt_auditable :: "auditable_options option"

definition public_route :: route where
  "public_route = \<lparr>rt_public = True, rt_permissionGuard = False, rt_permissions = None, rt_auditable = None\<rparr>"

definition login_route :: route where
  "login_route = \<lparr>rt_public = False, rt_permissionGuard = False, rt_permissions = None, rt_auditable = None\<rparr>"

text \<open>\<open>@RbacEndpoint\<close> in a class under \<open>PermissionGuard\<close>: one permission, and audit options.\<close>

definition RbacEndpoint :: "string \<Rightarrow> auditable_options option \<Rightarrow> route" where
  "RbacEndpoint permission options =
     \<lparr>rt_public = False, rt_permissionGuard = True, rt_permissions = Some [permission],
      rt_auditable = map_option (\<lambda>a. Auditable (ao_action a) (ao_entityType a) (ao_entityIdParam a)
        (ao_entityIdFromResult a)) options\<rparr>"

section \<open>Requests\<close>

datatype app_request = GetHello

datatype health_request = Liveness | Readiness

datatype auth_request =
    Login string string
  | Refresh string
  | Logout "string option"
  | LogoutAll
  | ListSessions
  | Register register_dto
  | ChangePassword string string

datatype feature_request =
    CreateFeature create_feature_dto
  | FindFeatures pagination_query
  | FindFeature uuid
  | UpdateFeature uuid update_feature_dto
  | RemoveFeature uuid

datatype permission_request =
    CreatePermission create_permission_dto
  | FindByFeature uuid
  | FindPermission uuid
  | UpdatePermission uuid update_permission_dto
  | RemovePermission uuid

datatype role_request =
    CreateRole create_role_dto
  | FindRoles pagination_query
  | FindRole uuid
  | UpdateRole uuid update_role_dto
  | RemoveRole uuid
  | AssignPermissions uuid "uuid list"

datatype user_request = SetUserActive uuid bool

datatype endpoint =
    App app_request
  | Health health_request
  | Auth auth_request
  | Features feature_request
  | Permissions permission_request
  | Roles role_request
  | Users user_request

text \<open>
  What the handlers use besides the services: the validators of class-validator, the database's
  collation and lower-casing for the lists, and the answer of the health checks.
\<close>

record 'k site =
  st_isEmail :: "string \<Rightarrow> bool"
  st_isUUID :: "string \<Rightarrow> bool"
  st_isUUID4 :: "string \<Rightarrow> bool"
  st_collation :: "string \<Rightarrow> 'k"
  st_lower :: "char \<Rightarrow> char"
  st_readiness :: "health_result list + health_result list"

section \<open>Results\<close>

text \<open>The JavaScript values the handlers return.\<close>

definition opt_str :: "string option \<Rightarrow> json" where
  "opt_str x = (case x of None \<Rightarrow> JNull | Some s \<Rightarrow> JStr s)"

definition feature_object :: "feature \<Rightarrow> (string \<times> json) list" where
  "feature_object f = [(''id'', JStr (f_id f)), (''key'', JStr (f_key f)), (''name'', JStr (f_name f)),
     (''description'', opt_str (f_description f)), (''isActive'', JBool (f_isActive f)),
     (''createdAt'', JDate (f_createdAt f)), (''updatedAt'', JDate (f_updatedAt f))]"

definition permission_object :: "permission \<Rightarrow> (string \<times> json) list" where
  "permission_object p = [(''id'', JStr (p_id p)), (''featureId'', JStr (p_featureId p)),
     (''action'', JStr (p_action p)), (''name'', JStr (p_name p)),
     (''description'', opt_str (p_description p)),
     (''createdAt'', JDate (p_createdAt p)), (''updatedAt'', JDate (p_updatedAt p))]"

definition role_object :: "role \<Rightarrow> (string \<times> json) list" where
  "role_object r = [(''id'', JStr (r_id r)), (''name'', JStr (r_name r)),
     (''description'', opt_str (r_description r)), (''isActive'', JBool (r_isActive r)),
     (''createdAt'', JDate (r_createdAt r)), (''updatedAt'', JDate (r_updatedAt r))]"

definition with_feature :: "permission \<times> feature option \<Rightarrow> json" where
  "with_feature pf = JObj (permission_object (fst pf) @
     [(''feature'', case snd pf of None \<Rightarrow> JNull | Some f \<Rightarrow> JObj (feature_object f))])"

definition assignment_object :: "role_permission \<times> permission option \<times> feature option \<Rightarrow> json" where
  "assignment_object a = (case a of (rp, p, f) \<Rightarrow> JObj [(''id'', JStr (rp_id rp)),
     (''roleId'', JStr (rp_roleId rp)), (''permissionId'', JStr (rp_permissionId rp)),
     (''createdAt'', JDate (rp_createdAt rp)),
     (''permission'', case p of None \<Rightarrow> JNull | Some p \<Rightarrow> with_feature (p, f))])"

definition page_object :: "('r \<Rightarrow> (string \<times> json) list) \<Rightarrow> 'r list \<times> nat \<Rightarrow> json" where
  "page_object obj p =
     JObj [(''data'', JArr (map (\<lambda>r. JObj (obj r)) (fst p))), (''total'', JNum (int (snd p)))]"

definition auth_object :: "auth_result \<Rightarrow> json" where
  "auth_object r = JObj [(''email'', JStr (ar_email r)), (''access_token'', JStr (ar_access_token r)),
     (''refresh_token'', JStr (ar_refresh_token r))]"

definition session_object :: "session_response \<Rightarrow> json" where
  "session_object s = JObj [(''id'', JStr (sr_id s)), (''ip'', opt_str (sr_ip s)),
     (''userAgent'', opt_str (sr_userAgent s)), (''createdAt'', JDate (sr_createdAt s)),
     (''expiresAt'', JDate (sr_expiresAt s))]"

definition message_object :: "string \<Rightarrow> json" where
  "message_object m = JObj [(''message'', JStr m)]"

definition health_object :: "health_result \<Rightarrow> string \<times> json" where
  "health_object r = (hr_key r, JObj ((''status'', JStr (if hr_up r then ''up'' else ''down'')) #
     (case hr_message r of None \<Rightarrow> [] | Some m \<Rightarrow> [(''message'', JStr m)])))"

text \<open>A result, given to the client as a value.\<close>

definition giving :: "('a \<Rightarrow> json) \<Rightarrow> (world, 'a) act \<Rightarrow> (world, json) act" where
  "giving f m = andThen m (\<lambda>x. ret (f x))"

definition reading :: "(world \<Rightarrow> json) \<Rightarrow> (world, json) act" where
  "reading f = (\<lambda>w. (Inr (f w), w))"

end
