(* ===== verification/Controllers.thy ===== *)
theory Controllers
  imports Endpoints
begin

text \<open>
  The handlers of the controllers (\<open>app.controller.ts\<close>, \<open>auth/auth.controller.ts\<close>,
  \<open>modules/rbac/controllers\<close>, \<open>modules/health/health.controller.ts\<close>), each with its route, and the
  pipeline every request goes through.
\<close>

section \<open>AppController, HealthController\<close>

fun app_route :: "app_request \<Rightarrow> route" where
  "app_route GetHello = public_route"

fun app_handle :: "app_request \<Rightarrow> (world, json) act" where
  "app_handle GetHello = ret (message_object ''Hello World!'')"

fun health_route :: "health_request \<Rightarrow> route" where
  "health_route Liveness = public_route"
| "health_route Readiness = public_route"

fun health_handle :: "'k site \<Rightarrow> health_request \<Rightarrow> (world, json) act" where
  "health_handle S Liveness = ret (JObj [(''status'', JStr liveness)])"
| "health_handle S Readiness = (case st_readiness S of
     Inr checks \<Rightarrow> ret (JObj [(''status'', JStr ''ok''), (''details'', JObj (map health_object checks))])
   | Inl checks \<Rightarrow> throw (ServiceUnavailable ''Service Unavailable Exception''))"

section \<open>AuthController\<close>

fun auth_route :: "auth_request \<Rightarrow> route" where
  "auth_route (Login _ _) = public_route"
| "auth_route (Refresh _) = public_route"
| "auth_route (Logout _) = login_route"
| "auth_route LogoutAll = login_route"
| "auth_route ListSessions = login_route"
| "auth_route (Register _) = \<lparr>rt_public = False, rt_permissionGuard = True,
     rt_permissions = Some [''users:create''],
     rt_auditable = Some (Auditable ''user.create'' ''User'' None (Some ''userId''))\<rparr>"
| "auth_route (ChangePassword _ _) = login_route\<lparr>
     rt_auditable := Some (Auditable ''user.change_password'' ''User'' None (Some ''userId''))\<rparr>"

fun auth_handle :: "env \<Rightarrow> request \<Rightarrow> user \<times> uuid option \<Rightarrow> auth_request \<Rightarrow> (world, json) act" where
  "auth_handle E req user (Login email password) =
     (let (ip, userAgent) = extractRequestContext req in
      giving auth_object (login E email password ip userAgent))"
| "auth_handle E req user (Refresh token) =
     (let (ip, userAgent) = extractRequestContext req in
      giving auth_object (refresh E token ip userAgent))"
| "auth_handle E req user (Logout token) =
     giving (\<lambda>_. message_object ''Logged out'') (logout E (u_id (fst user)) (snd user) token)"
| "auth_handle E req user LogoutAll =
     giving (\<lambda>_. message_object ''All sessions revoked'') (logoutAll (u_id (fst user)) (snd user))"
| "auth_handle E req user ListSessions =
     reading (\<lambda>w. JArr (map session_object (listSessions (u_id (fst user)) w)))"
| "auth_handle E req user (Register dto) =
     giving (\<lambda>(message, userId). JObj [(''message'', JStr message), (''userId'', JStr userId)]) (register E dto)"
| "auth_handle E req user (ChangePassword currentPassword newPassword) =
     giving (\<lambda>userId. JObj [(''userId'', JStr userId)])
       (changePassword E (u_id (fst user)) currentPassword newPassword)"

text \<open>\<open>LoginDto\<close>, \<open>RefreshDto\<close>, \<open>RegisterDto\<close>, \<open>ChangePasswordDto\<close> as the pipe validates them.\<close>

definition LoginDto_valid :: "'k site \<Rightarrow> string \<Rightarrow> string \<Rightarrow> bool" where
  "LoginDto_valid S email password \<longleftrightarrow> email \<noteq> [] \<and> st_isEmail S email \<and> password \<noteq> []"

definition RefreshDto_valid :: "string \<Rightarrow> bool" where
  "RefreshDto_valid token \<longleftrightarrow> token \<noteq> []"

definition RegisterDto_valid :: "'k site \<Rightarrow> register_dto \<Rightarrow> bool" where
  "RegisterDto_valid S dto \<longleftrightarrow> rg_email dto \<noteq> [] \<and> st_isEmail S (rg_email dto) \<and> rg_name dto \<noteq> [] \<and>
     rg_password dto \<noteq> [] \<and> password_accepted (rg_password dto) \<and>
     (case rg_roleId dto of None \<Rightarrow> True | Some r \<Rightarrow> st_isUUID S r)"

definition ChangePasswordDto_valid :: "string \<Rightarrow> string \<Rightarrow> bool" where
  "ChangePasswordDto_valid currentPassword newPassword \<longleftrightarrow>
     currentPassword \<noteq> [] \<and> password_accepted newPassword"

fun auth_valid :: "'k site \<Rightarrow> auth_request \<Rightarrow> bool" where
  "auth_valid S (Login email password) = LoginDto_valid S email password"
| "auth_valid S (Refresh token) = RefreshDto_valid token"
| "auth_valid S (Register dto) = RegisterDto_valid S dto"
| "auth_valid S (ChangePassword currentPassword newPassword) = ChangePasswordDto_valid currentPassword newPassword"
| "auth_valid S _ = True"

section \<open>FeatureController\<close>

fun feature_route :: "feature_request \<Rightarrow> route" where
  "feature_route (CreateFeature _) = RbacEndpoint ''rbac:create'' None"
| "feature_route (FindFeatures _) = RbacEndpoint ''rbac:view'' None"
| "feature_route (FindFeature _) = RbacEndpoint ''rbac:view'' None"
| "feature_route (UpdateFeature _ _) = RbacEndpoint ''rbac:edit'' None"
| "feature_route (RemoveFeature _) = RbacEndpoint ''rbac:delete'' None"

definition feature_with_permissions :: "feature \<times> permission list \<Rightarrow> json" where
  "feature_with_permissions fp = JObj (feature_object (fst fp) @
     [(''permissions'', JArr (map (\<lambda>p. JObj (permission_object p)) (snd fp)))])"

fun feature_handle :: "env \<Rightarrow> 'k site \<Rightarrow> feature_request \<Rightarrow> (world, json) act" where
  "feature_handle E S (CreateFeature dto) = giving (\<lambda>f. JObj (feature_object f)) (feature_create E dto)"
| "feature_handle E S (FindFeatures q) =
     reading (\<lambda>w. page_object feature_object (feature_findAll (st_lower S) q w))"
| "feature_handle E S (FindFeature i) = giving feature_with_permissions (feature_findOne i)"
| "feature_handle E S (UpdateFeature i dto) = giving feature_with_permissions (feature_update E i dto)"
| "feature_handle E S (RemoveFeature i) = giving (\<lambda>_. JUndefined) (feature_remove E i)"

fun feature_valid :: "feature_request \<Rightarrow> bool" where
  "feature_valid (FindFeatures q) = pagination_valid q"
| "feature_valid _ = True"

section \<open>PermissionController\<close>

fun permission_route :: "permission_request \<Rightarrow> route" where
  "permission_route (CreatePermission _) = RbacEndpoint ''rbac:create'' None"
| "permission_route (FindByFeature _) = RbacEndpoint ''rbac:view'' None"
| "permission_route (FindPermission _) = RbacEndpoint ''rbac:view'' None"
| "permission_route (UpdatePermission _ _) = RbacEndpoint ''rbac:edit'' None"
| "permission_route (RemovePermission _) = RbacEndpoint ''rbac:delete'' None"

fun permission_handle :: "env \<Rightarrow> ('k::linorder) site \<Rightarrow> permission_request \<Rightarrow> (world, json) act" where
  "permission_handle E S (CreatePermission dto) =
     giving (\<lambda>p. JObj (permission_object p)) (permission_create E dto)"
| "permission_handle E S (FindByFeature i) =
     reading (\<lambda>w. JArr (map with_feature (permission_findByFeature (st_collation S) i w)))"
| "permission_handle E S (FindPermission i) = giving with_feature (permission_findOne i)"
| "permission_handle E S (UpdatePermission i dto) = giving with_feature (permission_update E i dto)"
| "permission_handle E S (RemovePermission i) = giving (\<lambda>_. JUndefined) (permission_remove E i)"

fun permission_valid :: "'k site \<Rightarrow> permission_request \<Rightarrow> bool" where
  "permission_valid S (CreatePermission dto) = st_isUUID S (cp_featureId dto)"
| "permission_valid S _ = True"

section \<open>RoleController\<close>

fun role_route :: "role_request \<Rightarrow> route" where
  "role_route (CreateRole _) =
     RbacEndpoint ''rbac:create'' (Some (Auditable ''role.create'' ''Role'' None None))"
| "role_route (FindRoles _) = RbacEndpoint ''rbac:view'' None"
| "role_route (FindRole _) = RbacEndpoint ''rbac:view'' None"
| "role_route (UpdateRole _ _) =
     RbacEndpoint ''rbac:edit'' (Some (Auditable ''role.update'' ''Role'' (Some (Inl 0)) None))"
| "role_route (RemoveRole _) =
     RbacEndpoint ''rbac:delete'' (Some (Auditable ''role.delete'' ''Role'' (Some (Inl 0)) None))"
| "role_route (AssignPermissions _ _) = RbacEndpoint ''rbac:assign_permissions''
     (Some (Auditable ''role.assign_permissions'' ''Role'' (Some (Inl 0)) None))"

definition role_with_assignments ::
  "role \<times> (role_permission \<times> permission option \<times> feature option) list \<Rightarrow> json" where
  "role_with_assignments ra = JObj (role_object (fst ra) @
     [(''rolePermissions'', JArr (map assignment_object (snd ra)))])"

fun role_handle :: "env \<Rightarrow> ('k::linorder) site \<Rightarrow> role_request \<Rightarrow> (world, json) act" where
  "role_handle E S (CreateRole dto) = giving (\<lambda>r. JObj (role_object r)) (role_create E dto)"
| "role_handle E S (FindRoles q) =
     reading (\<lambda>w. page_object role_object (role_findAll (st_collation S) (st_lower S) q w))"
| "role_handle E S (FindRole i) = giving role_with_assignments (role_findOne i)"
| "role_handle E S (UpdateRole i dto) = giving (\<lambda>r. JObj (role_object r)) (role_update E i dto)"
| "role_handle E S (RemoveRole i) = giving (\<lambda>_. JUndefined) (role_remove E i)"
| "role_handle E S (AssignPermissions i ids) =
     giving (\<lambda>ids. JObj [(''permissionIds'', JArr (map JStr ids))]) (assignPermissions E i ids)"

definition AssignPermissionsDto_valid :: "'k site \<Rightarrow> uuid list \<Rightarrow> bool" where
  "AssignPermissionsDto_valid S ids \<longleftrightarrow> list_all (st_isUUID4 S) ids"

fun role_valid :: "'k site \<Rightarrow> role_request \<Rightarrow> bool" where
  "role_valid S (FindRoles q) = pagination_valid q"
| "role_valid S (AssignPermissions i ids) = AssignPermissionsDto_valid S ids"
| "role_valid S _ = True"

section \<open>UserController\<close>

fun user_route :: "user_request \<Rightarrow> route" where
  "user_route (SetUserActive _ _) =
     RbacEndpoint ''users:edit'' (Some (Auditable ''user.set_active'' ''User'' (Some (Inl 0)) None))"

fun user_handle :: "user_request \<Rightarrow> (world, json) act" where
  "user_handle (SetUserActive i isActive) =
     giving (\<lambda>(uid, b). JObj [(''id'', JStr uid), (''isActive'', JBool b)]) (setUserActive i isActive)"

section \<open>The pipeline\<close>

fun route_of :: "endpoint \<Rightarrow> route" where
  "route_of (App a) = app_route a"
| "route_of (Health h) = health_route h"
| "route_of (Auth a) = auth_route a"
| "route_of (Features f) = feature_route f"
| "route_of (Permissions p) = permission_route p"
| "route_of (Roles r) = role_route r"
| "route_of (Users u) = user_route u"

text \<open>
  The handler with the user \<open>JwtAuthGuard\<close> put on the request; on the public routes there is none,
  and no handler of a public route reads it.
\<close>

fun handle :: "env \<Rightarrow> ('k::linorder) site \<Rightarrow> request \<Rightarrow> (user \<times> uuid option) option \<Rightarrow> endpoint \<Rightarrow> (world, json) act" where
  "handle E S req user (App a) = app_handle a"
| "handle E S req user (Health h) = health_handle S h"
| "handle E S req user (Auth a) = auth_handle E req (the user) a"
| "handle E S req user (Features f) = feature_handle E S f"
| "handle E S req user (Permissions p) = permission_handle E S p"
| "handle E S req user (Roles r) = role_handle E S r"
| "handle E S req user (Users u) = user_handle u"

fun valid_request :: "'k site \<Rightarrow> endpoint \<Rightarrow> bool" where
  "valid_request S (Auth a) = auth_valid S a"
| "valid_request S (Features f) = feature_valid f"
| "valid_request S (Permissions p) = permission_valid S p"
| "valid_request S (Roles r) = role_valid S r"
| "valid_request S _ = True"

text \<open>\<open>ValidationPipe\<close>, of whose answer only the status is modelled.\<close>

definition validationPipe :: "'k site \<Rightarrow> endpoint \<Rightarrow> (world, unit) act" where
  "validationPipe S ep =
     (if valid_request S ep then ret () else throw (BadRequest ''Bad Request Exception''))"

text \<open>
  Nest's order: the middleware, the global \<open>JwtAuthGuard\<close>, the \<open>PermissionGuard\<close> of the class or
  the handler, the interceptor around the pipe and the handler.
\<close>

definition authorize :: "env \<Rightarrow> string option \<Rightarrow> endpoint \<Rightarrow> (world, (user \<times> uuid option) option) act" where
  "authorize E bearer ep =
     andThen (canActivate E (rt_public (route_of ep)) bearer) (\<lambda>user.
     andThen (if rt_permissionGuard (route_of ep)
              then permission_canActivate E (rt_permissions (route_of ep)) (map_option fst user)
              else ret True) (\<lambda>_.
     ret user))"

definition serve ::
  "env \<Rightarrow> ('k::linorder) site \<Rightarrow> request \<Rightarrow> string option \<Rightarrow> endpoint \<Rightarrow> (world, json) act" where
  "serve E S req bearer ep =
     andThen (correlationId_use E req) (\<lambda>(req', header).
     andThen (authorize E bearer ep) (\<lambda>user.
     intercept E req' (rt_auditable (route_of ep))
       (andThen (validationPipe S ep) (\<lambda>_. handle E S req' user ep))))"

end
