(* ===== verification/Throttling.thy ===== *)
theory Throttling
  imports Controllers
begin

text \<open>
  Rate limits: the two throttlers of \<open>app.module.ts\<close>, the decorators that skip or override them, and
  the place of \<open>ThrottlerGuard\<close> before the other guards. The guard itself is the library's: a
  parameter, of which the theorems assume what its documentation promises.
\<close>

section \<open>Configuration\<close>

text \<open>\<open>ThrottlerModule.forRoot\<close>; times in milliseconds.\<close>

record throttler =
  th_name :: string
  th_ttl :: int
  th_limit :: nat

definition throttlers :: "throttler list" where
  "throttlers =
     [\<lparr>th_name = ''default'', th_ttl = 60000, th_limit = 100\<rparr>,
      \<lparr>th_name = ''login'', th_ttl = 60000, th_limit = 10\<rparr>]"

text \<open>
  What \<open>@SkipThrottle\<close> and \<open>@Throttle\<close> say of a handler. The key of an override is made of the tracker
  and the request, and may throw.
\<close>

record throttle_options =
  to_limit :: nat
  to_ttl :: int
  to_key :: "request \<Rightarrow> http_error + string"

record throttle_route =
  tr_skip :: "string list"
  tr_throttle :: "(string \<times> throttle_options) list"

text \<open>
  \<open>buildLoginThrottleKey(tracker, req.body?.email)\<close> of a body that nothing has validated yet:
  \<open>toLowerCase\<close> is no method of a number, a boolean, an array or an object.
\<close>

definition login_key :: "request \<Rightarrow> http_error + string" where
  "login_key req = (case map_of (rq_body req) ''email'' of
     None \<Rightarrow> Inr (buildLoginThrottleKey (Some (getClientIp req)) None)
   | Some JUndefined \<Rightarrow> Inr (buildLoginThrottleKey (Some (getClientIp req)) None)
   | Some JNull \<Rightarrow> Inr (buildLoginThrottleKey (Some (getClientIp req)) None)
   | Some (JStr email) \<Rightarrow> Inr (buildLoginThrottleKey (Some (getClientIp req)) (Some email))
   | Some _ \<Rightarrow> Inl (InternalServerError ''toLowerCase is not a function''))"

fun auth_throttle :: "auth_request \<Rightarrow> throttle_route" where
  "auth_throttle (Login _ _) = \<lparr>tr_skip = [''default''],
     tr_throttle = [(''login'', \<lparr>to_limit = 10, to_ttl = 60000, to_key = login_key\<rparr>)]\<rparr>"
| "auth_throttle _ = \<lparr>tr_skip = [], tr_throttle = []\<rparr>"

fun throttle_of :: "endpoint \<Rightarrow> throttle_route" where
  "throttle_of (Auth a) = auth_throttle a"
| "throttle_of _ = \<lparr>tr_skip = [], tr_throttle = []\<rparr>"

section \<open>Handlers\<close>

text \<open>The class and the method that answer, by which the library tells handlers apart.\<close>

fun app_handler :: "app_request \<Rightarrow> string" where
  "app_handler GetHello = ''getHello''"

fun health_handler :: "health_request \<Rightarrow> string" where
  "health_handler Liveness = ''liveness''"
| "health_handler Readiness = ''readiness''"

fun auth_handler :: "auth_request \<Rightarrow> string" where
  "auth_handler (Login _ _) = ''login''"
| "auth_handler (Refresh _) = ''refresh''"
| "auth_handler (Logout _) = ''logout''"
| "auth_handler LogoutAll = ''logoutAll''"
| "auth_handler ListSessions = ''listSessions''"
| "auth_handler (Register _) = ''register''"
| "auth_handler (ChangePassword _ _) = ''changePassword''"

fun feature_handler :: "feature_request \<Rightarrow> string" where
  "feature_handler (CreateFeature _) = ''create''"
| "feature_handler (FindFeatures _) = ''findAll''"
| "feature_handler (FindFeature _) = ''findOne''"
| "feature_handler (UpdateFeature _ _) = ''update''"
| "feature_handler (RemoveFeature _) = ''remove''"

fun permission_handler :: "permission_request \<Rightarrow> string" where
  "permission_handler (CreatePermission _) = ''create''"
| "permission_handler (FindByFeature _) = ''findByFeature''"
| "permission_handler (FindPermission _) = ''findOne''"
| "permission_handler (UpdatePermission _ _) = ''update''"
| "permission_handler (RemovePermission _) = ''remove''"

fun role_handler :: "role_request \<Rightarrow> string" where
  "role_handler (CreateRole _) = ''create''"
| "role_handler (FindRoles _) = ''findAll''"
| "role_handler (FindRole _) = ''findOne''"
| "role_handler (UpdateRole _ _) = ''update''"
| "role_handler (RemoveRole _) = ''remove''"
| "role_handler (AssignPermissions _ _) = ''assignPermissions''"

fun user_handler :: "user_request \<Rightarrow> string" where
  "user_handler (SetUserActive _ _) = ''setUserActive''"

fun handler_of :: "endpoint \<Rightarrow> string \<times> string" where
  "handler_of (App a) = (''AppController'', app_handler a)"
| "handler_of (Health h) = (''HealthController'', health_handler h)"
| "handler_of (Auth a) = (''AuthController'', auth_handler a)"
| "handler_of (Features f) = (''FeatureController'', feature_handler f)"
| "handler_of (Permissions p) = (''PermissionController'', permission_handler p)"
| "handler_of (Roles r) = (''RoleController'', role_handler r)"
| "handler_of (Users u) = (''UserController'', user_handler u)"

section \<open>The guard\<close>

text \<open>
  A request at the guard. The library's guard decides by the throttlers, the decorators, what it
  has let pass or refused before, and the request; \<open>default_key\<close> is its key of a handler, a throttler
  and a client where no decorator gives one.
\<close>

record visit =
  vt_at :: time
  vt_req :: request
  vt_endpoint :: endpoint

type_synonym throttler_guard = "throttler list \<Rightarrow> (visit \<times> bool) list \<Rightarrow> visit \<Rightarrow> http_error + bool"

type_synonym key_maker = "string \<times> string \<Rightarrow> string \<Rightarrow> request \<Rightarrow> string"

definition limit_for :: "throttler \<Rightarrow> visit \<Rightarrow> nat" where
  "limit_for th v = (case map_of (tr_throttle (throttle_of (vt_endpoint v))) (th_name th) of
     None \<Rightarrow> th_limit th | Some opts \<Rightarrow> to_limit opts)"

definition ttl_for :: "throttler \<Rightarrow> visit \<Rightarrow> int" where
  "ttl_for th v = (case map_of (tr_throttle (throttle_of (vt_endpoint v))) (th_name th) of
     None \<Rightarrow> th_ttl th | Some opts \<Rightarrow> to_ttl opts)"

definition key_of :: "key_maker \<Rightarrow> throttler \<Rightarrow> visit \<Rightarrow> http_error + string" where
  "key_of default_key th v = (case map_of (tr_throttle (throttle_of (vt_endpoint v))) (th_name th) of
     None \<Rightarrow> Inr (default_key (handler_of (vt_endpoint v)) (th_name th) (vt_req v))
   | Some opts \<Rightarrow> to_key opts (vt_req v))"

definition skipped :: "throttler \<Rightarrow> visit \<Rightarrow> bool" where
  "skipped th v \<longleftrightarrow> th_name th \<in> set (tr_skip (throttle_of (vt_endpoint v)))"

text \<open>The visits let pass that a throttler counts under a key, in an interval of time.\<close>

definition counted :: "key_maker \<Rightarrow> throttler \<Rightarrow> string \<Rightarrow> time \<Rightarrow> time \<Rightarrow> (visit \<times> bool) list \<Rightarrow> nat" where
  "counted default_key th k t0 t1 past = length (filter (\<lambda>(v, passed).
     passed \<and> \<not> skipped th v \<and> key_of default_key th v = Inr k \<and> t0 < vt_at v \<and> vt_at v \<le> t1) past)"

text \<open>
  What the documentation promises: a request passes only if every throttler that its handler does not
  skip has let less than its limit of requests pass under this key in the last \<open>ttl\<close>.
\<close>

definition guard_ok :: "throttler_guard \<Rightarrow> key_maker \<Rightarrow> bool" where
  "guard_ok G default_key \<longleftrightarrow> (\<forall>ths past v. G ths past v = Inr True \<longrightarrow>
     (\<forall>th \<in> set ths. \<not> skipped th v \<longrightarrow> (\<exists>k. key_of default_key th v = Inr k \<and>
        counted default_key th k (vt_at v - ttl_for th v) (vt_at v) past < limit_for th v)))"

text \<open>The guard at work on a sequence of requests.\<close>

fun visits :: "throttler_guard \<Rightarrow> (visit \<times> bool) list \<Rightarrow> visit list \<Rightarrow> (visit \<times> bool) list" where
  "visits G past [] = past"
| "visits G past (v # vs) = visits G (past @ [(v, G throttlers past v = Inr True)]) vs"

section \<open>The way of a request, with the guard\<close>

text \<open>
  \<open>APP_GUARD\<close> twice: \<open>ThrottlerGuard\<close> before \<open>JwtAuthGuard\<close>, after the middleware.
\<close>

definition throttle :: "http_error + bool \<Rightarrow> (world, unit) act" where
  "throttle answer = (case answer of
     Inl e \<Rightarrow> throw e
   | Inr passes \<Rightarrow> if passes then ret () else throw (TooManyRequests ''ThrottlerException: Too Many Requests''))"

definition serve_throttled ::
  "throttler_guard \<Rightarrow> (visit \<times> bool) list \<Rightarrow> env \<Rightarrow> ('k::linorder) site \<Rightarrow> request \<Rightarrow> string option \<Rightarrow> endpoint \<Rightarrow>
     (world, json) act" where
  "serve_throttled G past E S req bearer ep = (\<lambda>w.
     andThen (correlationId_use E req) (\<lambda>(req', header).
     andThen (throttle (G throttlers past \<lparr>vt_at = w_now w, vt_req = req', vt_endpoint = ep\<rparr>)) (\<lambda>_.
     andThen (authorize E bearer ep) (\<lambda>user.
     intercept E req' (rt_auditable (route_of ep))
       (andThen (validationPipe S ep) (\<lambda>_. handle E S req' user ep))))) w)"

end
