(* ===== verification/Endpoint_Frames.thy ===== *)
theory Endpoint_Frames
  imports Controllers
begin

text \<open>
  What the middleware and the guards leave alone, and how a request they let through was
  authorized.
\<close>

section \<open>Views\<close>

text \<open>
  Middleware and guards change no table, no queue, no fault and not the clock
  (\<open>guard_view\<close>); before the permission guard runs, also nothing that a permission check reads
  (\<open>rbac_view\<close>).
\<close>

definition guard_view :: "world \<Rightarrow> time \<times> faults \<times> database \<times> audit_payload list option" where
  "guard_view w = (w_now w, w_faults w, w_db w, w_queue w)"

definition rbac_view :: "world \<Rightarrow> (time \<times> faults \<times> database \<times> audit_payload list option) \<times>
    int option \<times> int \<times> (uuid \<Rightarrow> (cache_value \<times> time option) option)" where
  "rbac_view w = (guard_view w, w_redisEpoch w, w_invalidationEpoch w,
     \<lambda>r. w_cache w (rolePermissionCacheKey r))"

lemma rbac_ready_view:
  assumes "rbac_view w' = rbac_view w"
  shows "rbac_ready E w' = rbac_ready E w"
proof -
  from assms have eq: "w_redisEpoch w' = w_redisEpoch w" "w_invalidationEpoch w' = w_invalidationEpoch w"
    "w_db w' = w_db w" "w_faults w' = w_faults w"
    "\<And>r. w_cache w' (rolePermissionCacheKey r) = w_cache w (rolePermissionCacheKey r)"
    by (auto simp: rbac_view_def guard_view_def dest: fun_cong)
  then show ?thesis
    by (simp add: rbac_ready_def coherent_def entries_ok_def epoch_readable_def epoch_ok_def
        shared_epoch_def cong: option.case_cong)
qed

lemma preserves_rbac_view [preserves_intros]:
  "preserves (\<lambda>v. rbac_view v = x) (genUuid E)"
  "preserves (\<lambda>v. rbac_view v = x) (cacheGet k)"
  "preserves (\<lambda>v. rbac_view v = x) (cacheSet (user_key u) c ttl)"
  "preserves (\<lambda>v. rbac_view v = x) (modify (rc_run d))"
  "preserves (\<lambda>v. rbac_view v = x) (modify (rc_setUser u))"
  by (auto simp: preserves_def rbac_view_def guard_view_def genUuid_def cacheGet_def cacheSet_def
      cache_put_def rc_run_def rc_setUser_def split: option.splits)

lemma preserves_guard_view [preserves_intros]:
  "preserves (\<lambda>v. guard_view v = x) (cacheGet k)"
  "preserves (\<lambda>v. guard_view v = x) (cacheSet k c ttl)"
  "preserves (\<lambda>v. guard_view v = x) readRbacGlobalEpoch"
  "preserves (\<lambda>v. guard_view v = x) (set_local_epoch n)"
  "preserves (\<lambda>v. guard_view v = x) local_epoch"
  "preserves (\<lambda>v. guard_view v = x) (query_permissions r)"
  "preserves (\<lambda>v. guard_view v = x) (modify (\<lambda>w. w\<lparr>w_cachedRoleKeys := f w\<rparr>))"
  by (auto simp: preserves_def guard_view_def cacheGet_def cacheSet_def readRbacGlobalEpoch_def
      set_local_epoch_def local_epoch_def query_permissions_def)

section \<open>Middleware and JwtAuthGuard\<close>

lemma preserves_middleware: "preserves (\<lambda>v. rbac_view v = x) (correlationId_use E req)"
  unfolding correlationId_use_def by (intro preserves_intros)

lemma preserves_validate: "preserves (\<lambda>v. rbac_view v = x) (validate p)"
proof -
  have load: "preserves (\<lambda>v. rbac_view v = x) (load_user uid)" for uid
  proof -
    have "preserves (\<lambda>v. rbac_view v = x) (\<lambda>w. case users_findById uid w of
        None \<Rightarrow> (Inl (Unauthorized ''Invalid token''), w)
      | Some u \<Rightarrow> andThen (cacheSet (user_key uid) (CUser u) USER_CACHE_TTL_MS) (\<lambda>_. ret u) w)"
      using preserves_rbac_view(3) [of x uid "CUser u" USER_CACHE_TTL_MS for u]
      by (auto simp: preserves_def andThen_def split: option.splits prod.splits sum.splits) (metis snd_conv)+
    then show ?thesis unfolding load_user_def by (intro preserves_intros)
  qed
  have deny: "preserves (\<lambda>v. rbac_view v = x) (check_denylist j)" for j
    by (simp add: preserves_def check_denylist_state)
  have lock: "preserves (\<lambda>v. rbac_view v = x) (\<lambda>w. if locked_at (w_now w) u
      then (Inl (Unauthorized ''Account is locked. Try again later.''), w) else (Inr (u, jp_jti p), w))" for u
    by (simp add: preserves_def)
  show ?thesis unfolding validate_def by (intro preserves_intros load deny lock)
qed

lemma canActivate_view: "rbac_view (snd (canActivate E pub bearer w)) = rbac_view w"
proof (cases "pub \<or> bearer = None")
  case True
  then show ?thesis by (auto simp: canActivate_def andThen_def handleRequest_def)
next
  case False
  then obtain tok where tok: "bearer = Some tok" and priv: "\<not> pub" by auto
  have "rbac_view (snd (validate p w)) = rbac_view w" for p
    using preserves_validate [of "rbac_view w" p] by (simp add: preserves_def)
  with tok priv show ?thesis
    by (auto simp: canActivate_private split: option.splits prod.splits sum.splits) (metis snd_conv)+
qed

section \<open>PermissionGuard\<close>

lemma preserves_getPermissions: "preserves (\<lambda>v. guard_view v = x) (getPermissionsForRole E r)"
  unfolding getPermissionsForRole_def read_cached_def fetch_and_cache_def store_permissions_def getGlobalEpoch_def
  by (intro preserves_intros)

lemma permission_guard_view: "guard_view (snd (permission_canActivate E req u w)) = guard_view w"
proof -
  have "preserves (\<lambda>v. guard_view v = x) (checkPermissions E r ps)" for x r ps
    unfolding checkPermissions_def by (intro preserves_intros preserves_getPermissions)
  then have "preserves (\<lambda>v. guard_view v = guard_view w) (permission_canActivate E req u)"
    unfolding permission_canActivate_def by (intro preserves_intros)
  then show ?thesis by (simp add: preserves_def)
qed

lemma permission_guard_granted:
  assumes "rbac_ready E w" and "permission_canActivate E (Some req) (Some u) w = (Inr b, w')"
  shows "\<exists>roleId. u_roleId u = Some roleId \<and> req \<noteq> [] \<and> set req \<subseteq> granted roleId (w_db w)"
  using assms(2)
  by (cases "u_roleId u")
     (auto simp: permission_canActivate_def rbac.andThen_check [OF assms(1)] split: if_splits)

section \<open>Authorization\<close>

lemma authorize_view: "guard_view (snd (authorize E bearer ep w)) = guard_view w"
proof -
  obtain r w1 where c: "canActivate E (rt_public (route_of ep)) bearer w = (r, w1)" by fastforce
  with canActivate_view [of E "rt_public (route_of ep)" bearer w] have g: "guard_view w1 = guard_view w"
    by (simp add: rbac_view_def)
  obtain r2 w2 where p: "permission_canActivate E (rt_permissions (route_of ep)) (map_option fst (projr r)) w1 = (r2, w2)"
    by fastforce
  with permission_guard_view [of E "rt_permissions (route_of ep)" "map_option fst (projr r)" w1]
  have "guard_view w2 = guard_view w1" by simp
  with g c p show ?thesis by (cases r; cases r2) (auto simp: authorize_def andThen_def)
qed

text \<open>A request on a protected route that is let through has an accepted access token.\<close>

lemma authorizeE:
  assumes "authorize E bearer ep w = (Inr user, w')" and "\<not> rt_public (route_of ep)"
  obtains tok p u w1 where "bearer = Some tok" and "e_verify E tok (w_now w) = Some p"
    and "validate p w = (Inr (u, jp_jti p), w1)" and "user = Some (u, jp_jti p)"
    and "rt_permissionGuard (route_of ep) \<Longrightarrow>
      permission_canActivate E (rt_permissions (route_of ep)) (Some u) w1 = (Inr True, w')"
    and "\<not> rt_permissionGuard (route_of ep) \<Longrightarrow> w' = w1"
proof -
  from assms obtain w1 where c: "canActivate E False bearer w = (Inr user, w1)"
    and g: "(if rt_permissionGuard (route_of ep)
      then permission_canActivate E (rt_permissions (route_of ep)) (map_option fst user) else ret True) w1 =
        (Inr True, w')"
    by (auto simp: authorize_def andThen_def permission_canActivate_def
        split: prod.splits sum.splits if_splits option.splits)
  from c obtain tok where tok: "bearer = Some tok"
    by (cases bearer) (auto simp: canActivate_def andThen_def handleRequest_def)
  from c [unfolded tok canActivate_private] obtain p u j where
    p: "e_verify E tok (w_now w) = Some p" and v: "validate p w = (Inr (u, j), w1)" and user: "user = Some (u, j)"
    by (auto split: option.splits prod.splits sum.splits)
  from v have "j = jp_jti p" by (rule validateE)
  with tok p v user g show ?thesis by (intro that [of tok p u w1]) (auto split: if_splits)
qed

text \<open>What the service does with a request, step by step.\<close>

lemma serveE:
  assumes "serve E S req bearer ep w = (r, w')"
  obtains (refused) e where "r = Inl e" and "guard_view w' = guard_view w"
  | (served) req' cid w1 user w2 where
      "correlationId_use E req w = (Inr (req', cid), w1)" and "authorize E bearer ep w1 = (Inr user, w2)"
      and "intercept E req' (rt_auditable (route_of ep))
        (andThen (validationPipe S ep) (\<lambda>_. handle E S req' user ep)) w2 = (r, w')"
      and "rbac_view w1 = rbac_view w" and "guard_view w2 = guard_view w"
proof -
  obtain r1 w1 where m: "correlationId_use E req w = (r1, w1)" by fastforce
  with preservesD [OF preserves_middleware _ m, of "rbac_view w"] have v1: "rbac_view w1 = rbac_view w" by simp
  from m obtain req' cid where r1: "r1 = Inr (req', cid)"
    by (auto simp: correlationId_use_def andThen_def genUuid_def split: if_splits)
  obtain r2 w2 where a: "authorize E bearer ep w1 = (r2, w2)" by fastforce
  with authorize_view [of E bearer ep w1] v1 have v2: "guard_view w2 = guard_view w"
    by (simp add: rbac_view_def)
  show ?thesis
  proof (cases r2)
    case (Inl e)
    with assms m r1 a v2 show ?thesis by (intro refused [of e]) (simp_all add: serve_def andThen_def)
  next
    case (Inr user)
    with assms m r1 a v1 v2 show ?thesis
      by (intro served [of req' cid w1 user w2]) (simp_all add: serve_def andThen_def)
  qed
qed

end
