(* ===== verification/Endpoint_Audit.thy ===== *)
theory Endpoint_Audit
  imports Endpoint_Frames
begin

text \<open>
  What the audit log is told of a request: between the guard that identifies the actor and the
  interceptor nothing touches the request's context, the queue or the faults.
\<close>

section \<open>What the audit log reads\<close>

definition audit_inputs :: "world \<Rightarrow> audit_payload list option \<times> faults \<times> request_context option" where
  "audit_inputs w = (w_queue w, w_faults w, w_ctx w)"

abbreviation keeps_inputs :: "(world, 'a) act \<Rightarrow> bool" where
  "keeps_inputs m \<equiv> (\<forall>x. preserves (\<lambda>v. audit_inputs v = x) m)"

lemma keeps_inputsD:
  assumes "keeps_inputs m" and "m w = (r, w')"
  shows "audit_inputs w' = audit_inputs w"
proof -
  from assms(1) have "preserves (\<lambda>v. audit_inputs v = audit_inputs w) m" by blast
  from preservesD [OF this refl assms(2)] show ?thesis .
qed

lemma keeps_inputsI: "(\<And>w. audit_inputs (snd (m w)) = audit_inputs w) \<Longrightarrow> keeps_inputs m"
  by (simp add: preserves_def)

lemma preserves_branch:
  "preserves I m \<Longrightarrow> preserves I (\<lambda>w. if b w then (r w, w) else m w)"
  by (simp add: preserves_def)

lemma preserves_lookup:
  "(\<And>x. preserves I (k x)) \<Longrightarrow> preserves I (\<lambda>w. case f w of None \<Rightarrow> (r w, w) | Some x \<Rightarrow> k x w)"
  by (simp add: preserves_def split: option.split)

lemma preserves_state: "(\<And>w. preserves I (k w)) \<Longrightarrow> preserves I (\<lambda>w. k w w)"
  by (simp add: preserves_def)

lemma preserves_inputs [preserves_intros]:
  "preserves (\<lambda>v. audit_inputs v = x) (genUuid E)"
  "preserves (\<lambda>v. audit_inputs v = x) (cacheGet k)"
  "preserves (\<lambda>v. audit_inputs v = x) (cacheSet k c ttl)"
  "preserves (\<lambda>v. audit_inputs v = x) (cacheDel k)"
  "preserves (\<lambda>v. audit_inputs v = x) readRbacGlobalEpoch"
  "preserves (\<lambda>v. audit_inputs v = x) incrementRbacGlobalEpoch"
  "preserves (\<lambda>v. audit_inputs v = x) (set_local_epoch n)"
  "preserves (\<lambda>v. audit_inputs v = x) local_epoch"
  "preserves (\<lambda>v. audit_inputs v = x) (query_permissions r)"
  "preserves (\<lambda>v. audit_inputs v = x) (modify (\<lambda>w. w\<lparr>w_cachedRoleKeys := f w\<rparr>))"
  "preserves (\<lambda>v. audit_inputs v = x) (modify (update_user u g))"
  "preserves (\<lambda>v. audit_inputs v = x) (insert_user us)"
  "preserves (\<lambda>v. audit_inputs v = x) (insert_role ro)"
  "preserves (\<lambda>v. audit_inputs v = x) (save_role ro)"
  "preserves (\<lambda>v. audit_inputs v = x) (delete_role i)"
  "preserves (\<lambda>v. audit_inputs v = x) (delete_role_permissions i)"
  "preserves (\<lambda>v. audit_inputs v = x) (insert_role_permission rp)"
  "preserves (\<lambda>v. audit_inputs v = x) (revoke_where P)"
  "preserves (\<lambda>v. audit_inputs v = x) (hash_password E pw cost)"
  "preserves (\<lambda>v. audit_inputs v = x) (role_findOne i)"
  by (auto simp: preserves_def audit_inputs_def genUuid_def cacheGet_def cacheSet_def cacheDel_def
      readRbacGlobalEpoch_def incrementRbacGlobalEpoch_def set_local_epoch_def local_epoch_def
      query_permissions_def update_user_def insert_user_def insert_role_def save_role_def delete_role_def
      delete_role_permissions_def insert_role_permission_def revoke_where_def hash_password_def
      role_findOne_def assertFound_def modify_db_def set_users_def Let_def split: option.splits)

lemma preserves_inputs_transaction [preserves_intros]:
  "keeps_inputs body \<Longrightarrow> preserves (\<lambda>v. audit_inputs v = x) (transaction body)"
  by (auto simp: preserves_def transaction_def audit_inputs_def split: prod.splits sum.splits)
     (metis snd_conv prod.inject)+

lemma preserves_inputs_bump [preserves_intros]:
  "preserves (\<lambda>v. audit_inputs v = x) (bumpGlobalEpoch E)"
  unfolding bumpGlobalEpoch_def bump_local_def by (intro preserves_intros)

lemma preserves_inputs_invalidate [preserves_intros]:
  "preserves (\<lambda>v. audit_inputs v = x) (invalidateRoleCache E r)"
proof -
  have "preserves (\<lambda>v. audit_inputs v = x) (modify (clearRoleCacheKey r))"
    by (simp add: preserves_def clearRoleCacheKey_def audit_inputs_def)
  then show ?thesis
    unfolding invalidateRoleCache_def by (rule preserves_andThen [OF preserves_inputs_bump])
qed

lemma preserves_inputs_revoke [preserves_intros]:
  "preserves (\<lambda>v. audit_inputs v = x) (revokeAllUserSessions u)"
proof -
  have "preserves (\<lambda>v. audit_inputs v = x) (denylistActiveAccessJtis u)"
    by (auto simp: preserves_def denylistActiveAccessJtis_def Let_def audit_inputs_def split: option.splits)
  then show ?thesis unfolding revokeAllUserSessions_def by (intro preserves_intros)
qed

section \<open>The guards and the audited handlers\<close>

lemma keeps_inputs_permission_guard: "keeps_inputs (permission_canActivate E req u)"
proof
  fix x
  have "preserves (\<lambda>v. audit_inputs v = x) (getPermissionsForRole E r)" for r
    unfolding getPermissionsForRole_def read_cached_def fetch_and_cache_def store_permissions_def getGlobalEpoch_def
    by (intro preserves_intros)
  then have "preserves (\<lambda>v. audit_inputs v = x) (checkPermissions E r ps)" for r ps
    unfolding checkPermissions_def by (intro preserves_intros)
  then show "preserves (\<lambda>v. audit_inputs v = x) (permission_canActivate E req u)"
    unfolding permission_canActivate_def by (intro preserves_intros)
qed

lemma keeps_inputs_setUserActive: "keeps_inputs (setUserActive i b)"
proof -
  have "preserves (\<lambda>v. audit_inputs v = x) (users_setActive i b)" for x
    unfolding users_setActive_def invalidateUserCache_def
    by (rule preserves_state, intro preserves_intros)
  then show ?thesis
    unfolding setUserActive_def by (intro allI preserves_branch preserves_intros)
qed

lemma keeps_inputs_changePassword: "keeps_inputs (changePassword E i a b)"
proof -
  have "preserves (\<lambda>v. audit_inputs v = x) (compare_password E a h)" for x h
    by (auto simp: compare_password_def split: option.splits intro: preserves_intros)
  then show ?thesis
    unfolding changePassword_def users_updatePassword_def invalidateUserCache_def
    by (intro allI preserves_lookup preserves_intros)
qed

lemma keeps_inputs_register: "keeps_inputs (register E dto)"
proof
  fix x
  have ins: "preserves (\<lambda>v. audit_inputs v = x) (users_create E cu)" for cu
    unfolding users_create_def
    by (rule preserves_catching, rule preserves_andThen, rule preserves_inputs, rule preserves_state,
        rule preserves_inputs, rule preserves_throw)
  have tail: "preserves (\<lambda>v. audit_inputs v = x) (andThen m (\<lambda>roleId. andThen (hash_password E pw 12) (\<lambda>h.
      andThen (users_create E (cu roleId h)) (\<lambda>u. ret (k u)))))"
    if "preserves (\<lambda>v. audit_inputs v = x) m" for m pw cu and k :: "user \<Rightarrow> string \<times> uuid"
    by (intro preserves_andThen that preserves_inputs ins preserves_ret)
  show "preserves (\<lambda>v. audit_inputs v = x) (register E dto)"
    unfolding register_def
    by (rule preserves_branch, rule preserves_state, rule tail) (auto intro: preserves_intros split: option.split)
qed

lemma keeps_inputs_role_create: "keeps_inputs (role_create E dto)"
proof
  fix x
  have ins: "preserves (\<lambda>v. audit_inputs v = x) (\<lambda>w. if cr_isActive dto = Null then (Inl (QueryFailed ''23502''), w)
      else insert_role (new_role dto rid (w_now w)) w)" for rid
    by (rule preserves_branch, rule preserves_state, rule preserves_inputs)
  show "preserves (\<lambda>v. audit_inputs v = x) (role_create E dto)"
    unfolding role_create_def
    by (rule preserves_branch, rule preserves_catching, rule preserves_andThen, rule preserves_inputs,
        rule ins, rule preserves_throw)
qed

lemma keeps_inputs_role_update: "keeps_inputs (role_update E rid dto)"
proof
  fix x
  have save: "preserves (\<lambda>v. audit_inputs v = x) (andThen (if b then throw e else save_role ro) (\<lambda>updated.
      andThen (if c then invalidateRoleCache E rid else ret ()) (\<lambda>_. ret updated)))" for b c e ro
    by (intro preserves_intros)
  show "preserves (\<lambda>v. audit_inputs v = x) (role_update E rid dto)"
    unfolding role_update_def
    by (rule preserves_andThen, rule preserves_inputs, rule preserves_case_prod, rule preserves_branch,
        rule preserves_catching, rule save, rule preserves_throw)
qed

lemma keeps_inputs_role_remove: "keeps_inputs (role_remove E rid)"
  unfolding role_remove_def Let_def
  by (rule allI, rule preserves_branch, rule preserves_branch, rule preserves_andThen,
      rule preserves_inputs, rule preserves_inputs_invalidate)

lemma keeps_inputs_assign: "keeps_inputs (assignPermissions E rid ids)"
proof
  fix x
  have row: "preserves (\<lambda>v. audit_inputs v = y) (\<lambda>w. andThen (insert_role_permission (f w)) m w)"
    if "\<And>u. preserves (\<lambda>v. audit_inputs v = y) (m u)" for y f m
    by (rule preserves_state, rule preserves_andThen, rule preserves_inputs, rule that)
  have "preserves (\<lambda>v. audit_inputs v = y) (insert_assignments E rid pids)" for y pids
  proof (induction pids)
    case (Cons pid pids)
    show ?case
      unfolding insert_assignments.simps
      by (rule preserves_andThen, rule preserves_inputs, rule row, rule Cons.IH)
  qed (simp add: preserves_Pair)
  then have body: "preserves (\<lambda>v. audit_inputs v = y) (andThen (delete_role_permissions rid) (\<lambda>_.
      let permissionIds = js_unique ids in
      andThen (insert_assignments E rid permissionIds) (\<lambda>_. ret permissionIds)))" for y
    unfolding Let_def by (intro preserves_andThen preserves_inputs preserves_ret)
  show "preserves (\<lambda>v. audit_inputs v = x) (assignPermissions E rid ids)"
    unfolding assignPermissions_def
    by (rule preserves_branch, rule preserves_andThen, rule preserves_inputs_transaction, rule allI, rule body,
        intro preserves_andThen preserves_inputs_invalidate preserves_ret)
qed

lemma keeps_inputs_giving: "keeps_inputs m \<Longrightarrow> keeps_inputs (giving f m)"
  by (auto simp: giving_def intro!: preserves_andThen preserves_ret)

text \<open>No audited handler touches what the audit log reads.\<close>

lemma keeps_inputs_audited:
  assumes "rt_auditable (route_of ep) = Some opts"
  shows "keeps_inputs (andThen (validationPipe S ep) (\<lambda>_. handle E S req user ep))"
proof -
  have "keeps_inputs (handle E S req user ep)"
  proof (cases ep)
    case (App a) with assms show ?thesis by (cases a) (simp add: public_route_def)
  next
    case (Health h) with assms show ?thesis by (cases h) (simp_all add: public_route_def)
  next
    case (Auth a)
    with assms show ?thesis
      by (cases a) (simp_all add: public_route_def login_route_def keeps_inputs_giving
          keeps_inputs_register keeps_inputs_changePassword)
  next
    case (Features f) with assms show ?thesis by (cases f) (simp_all add: RbacEndpoint_def)
  next
    case (Permissions p) with assms show ?thesis by (cases p) (simp_all add: RbacEndpoint_def)
  next
    case (Roles r)
    with assms show ?thesis
      by (cases r) (simp_all add: RbacEndpoint_def keeps_inputs_giving keeps_inputs_role_create
          keeps_inputs_role_update keeps_inputs_role_remove keeps_inputs_assign)
  next
    case (Users u)
    then show ?thesis by (cases u) (simp add: keeps_inputs_giving keeps_inputs_setUserActive)
  qed
  then show ?thesis
    by (auto simp: validationPipe_def intro!: preserves_andThen preserves_throw preserves_ret)
qed

end
