(* ===== verification/Rbac_Machine.thy ===== *)
theory Rbac_Machine
  imports Rbac_Crud Demo_Env
begin

text \<open>
  The RBAC module as a state machine: any sequence of administration calls, permission checks,
  clock ticks, faults and mutations by other instances. Its invariant says that the tables are
  well-formed and that no cached permission set at the current epoch is stale.
\<close>

section \<open>The invariant\<close>

text \<open>The uuids still to be generated are not ids of the tables.\<close>

definition fresh_ids :: "env \<Rightarrow> world \<Rightarrow> bool" where
  "fresh_ids E w \<longleftrightarrow> (\<forall>n \<ge> w_fresh w.
     e_uuid E n \<notin> f_id ` set (features w) \<union> p_id ` set (permissions w) \<union> r_id ` set (roles w))"

definition rbac_inv :: "env \<Rightarrow> world \<Rightarrow> bool" where
  "rbac_inv E w \<longleftrightarrow> uuid_ok E \<and> rbac_db_ok (w_db w) \<and> coherent E w \<and> fresh_ids E w \<and>
     \<not> redisIncrFails (w_faults w)"

text \<open>
  The state after a statement of a service, before it invalidates: the tables are well-formed,
  cache and epochs are those of before.
\<close>

definition changed :: "env \<Rightarrow> world \<Rightarrow> world \<Rightarrow> bool" where
  "changed E w w' \<longleftrightarrow> w_cache w' = w_cache w \<and> w_redisEpoch w' = w_redisEpoch w \<and>
     w_invalidationEpoch w' = w_invalidationEpoch w \<and> w_faults w' = w_faults w \<and>
     rbac_db_ok (w_db w') \<and> fresh_ids E w'"

definition same_grants :: "world \<Rightarrow> world \<Rightarrow> bool" where
  "same_grants w w' \<longleftrightarrow> (\<forall>r. set (fetchPermissionStringsForRole r (w_db w')) =
     set (fetchPermissionStringsForRole r (w_db w)))"

lemma changed_refl: "rbac_inv E w \<Longrightarrow> changed E w w"
  by (simp add: changed_def rbac_inv_def)

lemma fresh_ids_genUuid: "fresh_ids E w \<Longrightarrow> fresh_ids E (w\<lparr>w_fresh := Suc (w_fresh w)\<rparr>)"
  by (simp add: fresh_ids_def)

lemma changed_genUuid: "changed E w w' \<Longrightarrow> changed E w (w'\<lparr>w_fresh := Suc (w_fresh w')\<rparr>)"
  by (simp add: changed_def fresh_ids_genUuid)

lemma epoch_cong:
  "w_redisEpoch w' = w_redisEpoch w \<Longrightarrow> w_invalidationEpoch w' = w_invalidationEpoch w \<Longrightarrow>
     epoch_ok E w' = epoch_ok E w \<and> shared_epoch E w' = shared_epoch E w"
  by (simp add: epoch_ok_def shared_epoch_def cong: option.case_cong)

lemma unchanged_inv:
  assumes "rbac_inv E w" and "changed E w w'" and "same_grants w w'"
  shows "rbac_inv E w'"
  using assms epoch_cong [of w' w E]
  by (auto simp: rbac_inv_def changed_def same_grants_def coherent_def entries_ok_def)

lemma bumped_inv:
  assumes "rbac_inv E w" and "changed E w w'"
  shows "rbac_inv E (snd (bumpGlobalEpoch E w'))" and "\<exists>n. fst (bumpGlobalEpoch E w') = Inr n"
proof -
  let ?v = "modify_db (\<lambda>_. w_db w') w"
  from assms have ok: "epoch_ok E w'" and incr: "\<not> redisIncrFails (w_faults w')"
    using epoch_cong [of w' w E] by (auto simp: rbac_inv_def changed_def coherent_def)
  note eff = bump_effect [OF ok incr]
  show "\<exists>n. fst (bumpGlobalEpoch E w') = Inr n" by (rule eff(6))
  have "epoch < shared_epoch E w' + 1"
    if "w_cache w' (rolePermissionCacheKey r) = Some (CPerms epoch ps, x)" for r epoch ps x
    using assms epoch_cong [of w' w E] that
    by (fastforce simp: rbac_inv_def changed_def coherent_def entries_ok_def)
  then have "entries_ok E (snd (bumpGlobalEpoch E w'))"
    unfolding entries_ok_def eff by fastforce
  moreover have "fresh_ids E (snd (bumpGlobalEpoch E w'))"
    using assms(2) bumpGlobalEpoch_eq [OF ok incr] by (simp add: changed_def fresh_ids_def)
  ultimately show "rbac_inv E (snd (bumpGlobalEpoch E w'))"
    using assms eff incr by (simp add: rbac_inv_def changed_def coherent_def)
qed

lemma rbac_inv_keys [simp]: "rbac_inv E (w\<lparr>w_cachedRoleKeys := ks\<rparr>) = rbac_inv E w"
  using epoch_cong [of "w\<lparr>w_cachedRoleKeys := ks\<rparr>" w E]
  by (simp add: rbac_inv_def coherent_def entries_ok_def fresh_ids_def)

lemma clear_keys: "\<exists>ks. fold clearRoleCacheKey rs w = w\<lparr>w_cachedRoleKeys := ks\<rparr>"
proof (induction rs arbitrary: w)
  case Nil
  have "w = w\<lparr>w_cachedRoleKeys := w_cachedRoleKeys w\<rparr>" by simp
  then show ?case unfolding fold_Nil id_apply by (rule exI)
next
  case (Cons r rs)
  obtain ks where "fold clearRoleCacheKey rs (clearRoleCacheKey r w) =
      (clearRoleCacheKey r w)\<lparr>w_cachedRoleKeys := ks\<rparr>"
    using Cons.IH by blast
  moreover have "(clearRoleCacheKey r w)\<lparr>w_cachedRoleKeys := ks\<rparr> = w\<lparr>w_cachedRoleKeys := ks\<rparr>"
    by (simp add: clearRoleCacheKey_def)
  ultimately show ?case by auto
qed

text \<open>After any statement, an invalidation re-establishes the invariant, and returns.\<close>

lemma invalidated_inv:
  assumes "rbac_inv E w" and "changed E w w'"
  shows "\<exists>v. invalidateAllRoles E w' = (Inr (), v) \<and> rbac_inv E v \<and> w_db v = w_db w'"
    and "\<exists>v. invalidateRoleCache E r w' = (Inr (), v) \<and> rbac_inv E v \<and> w_db v = w_db w'"
    and "rs \<noteq> [] \<or> same_grants w w' \<Longrightarrow>
      \<exists>v. invalidateRoles E rs w' = (Inr (), v) \<and> rbac_inv E v \<and> w_db v = w_db w'"
proof -
  obtain n v where b: "bumpGlobalEpoch E w' = (Inr n, v)"
    using bumped_inv(2) [OF assms] by (cases "bumpGlobalEpoch E w'") auto
  with bumped_inv(1) [OF assms] have v: "rbac_inv E v" by simp
  from assms have "epoch_ok E w'" "\<not> redisIncrFails (w_faults w')"
    using epoch_cong [of w' w E] by (auto simp: rbac_inv_def changed_def coherent_def)
  from bump_effect(4) [OF this] b have db: "w_db v = w_db w'" by simp
  from b v db show "\<exists>v. invalidateAllRoles E w' = (Inr (), v) \<and> rbac_inv E v \<and> w_db v = w_db w'"
    and "\<exists>v. invalidateRoleCache E r w' = (Inr (), v) \<and> rbac_inv E v \<and> w_db v = w_db w'"
    by (simp_all add: invalidateAllRoles_def invalidateRoleCache_def andThen_def clearRoleCacheKey_def)
  show "\<exists>v. invalidateRoles E rs w' = (Inr (), v) \<and> rbac_inv E v \<and> w_db v = w_db w'"
    if "rs \<noteq> [] \<or> same_grants w w'"
  proof (cases "rs = []")
    case True
    with that unchanged_inv [OF assms] show ?thesis by (simp add: invalidateRoles_def)
  next
    case False
    obtain ks where "fold clearRoleCacheKey rs v = v\<lparr>w_cachedRoleKeys := ks\<rparr>"
      using clear_keys by blast
    with False b v db show ?thesis by (simp add: invalidateRoles_def andThen_def)
  qed
qed

section \<open>The statements\<close>

lemma fresh_ids_sub:
  assumes "fresh_ids E w" "w_fresh w \<le> w_fresh w'" "f_id ` set (features w') \<subseteq> f_id ` set (features w)"
    "p_id ` set (permissions w') \<subseteq> p_id ` set (permissions w)" "r_id ` set (roles w') \<subseteq> r_id ` set (roles w)"
  shows "fresh_ids E w'"
  unfolding fresh_ids_def
proof (intro allI impI)
  fix n assume "w_fresh w' \<le> n"
  with assms(1,2) have "e_uuid E n \<notin> f_id ` set (features w) \<union> p_id ` set (permissions w) \<union> r_id ` set (roles w)"
    by (simp add: fresh_ids_def)
  with assms(3-5) show "e_uuid E n \<notin> f_id ` set (features w') \<union> p_id ` set (permissions w') \<union> r_id ` set (roles w')"
    by blast
qed

lemma ids_update_where:
  "(\<And>r. k (f r) = k r) \<Longrightarrow> k ` set (update_where P f rs) = k ` set rs"
  using arg_cong [OF map_update_where [of k f P rs], of set] by simp

lemma changed_modify:
  assumes "rbac_inv E w" and "rbac_db_ok (f (w_db w))"
    "f_id ` set (db_features (f (w_db w))) \<subseteq> f_id ` set (features w)"
    "p_id ` set (db_permissions (f (w_db w))) \<subseteq> p_id ` set (permissions w)"
    "r_id ` set (db_roles (f (w_db w))) \<subseteq> r_id ` set (roles w)"
  shows "changed E w (modify_db f w)"
  using assms fresh_ids_sub [of E w "modify_db f w"] by (simp add: changed_def rbac_inv_def)

lemma changed_update_feature:
  assumes "rbac_inv E w" shows "changed E w (snd (update_feature fid dto w))"
proof -
  have "changed E w (modify_db (\<lambda>d. d\<lparr>db_features := update_where (\<lambda>f. f_id f = fid) (apply_feature dto (w_now w)) (db_features d)\<rparr>) w)"
    if "rbac_db_ok ((w_db w)\<lparr>db_features := update_where (\<lambda>f. f_id f = fid) (apply_feature dto (w_now w)) (features w)\<rparr>)"
    using that by (intro changed_modify assms) (simp_all add: ids_update_where apply_feature_def)
  with update_feature_ok [of w fid dto] assms changed_refl [OF assms] show ?thesis
    by (auto simp: update_feature_def rbac_inv_def)
qed

lemma changed_update_permission:
  assumes "rbac_inv E w" shows "changed E w (snd (update_permission pid dto w))"
proof -
  have "changed E w (modify_db (\<lambda>d. d\<lparr>db_permissions := update_where (\<lambda>p. p_id p = pid) (apply_permission dto (w_now w)) (db_permissions d)\<rparr>) w)"
    if "rbac_db_ok ((w_db w)\<lparr>db_permissions := update_where (\<lambda>p. p_id p = pid) (apply_permission dto (w_now w)) (permissions w)\<rparr>)"
    using that by (intro changed_modify assms) (simp_all add: ids_update_where apply_permission_def)
  with update_permission_ok [of w pid dto] assms changed_refl [OF assms] show ?thesis
    by (auto simp: update_permission_def rbac_inv_def)
qed

lemma changed_cascades:
  assumes "rbac_inv E w"
  shows "changed E w (modify_db (cascade_feature fid) w)" "changed E w (modify_db (cascade_permission pid) w)"
    "changed E w (modify_db (cascade_role rid) w)"
proof -
  have ok: "rbac_db_ok (w_db w)" using assms by (simp add: rbac_inv_def)
  show "changed E w (modify_db (cascade_feature fid) w)"
    by (intro changed_modify assms cascade_ok ok) (auto simp: cascade_feature_def Let_def)
  show "changed E w (modify_db (cascade_permission pid) w)"
    by (intro changed_modify assms cascade_ok ok) (auto simp: cascade_permission_def)
  show "changed E w (modify_db (cascade_role rid) w)"
    by (intro changed_modify assms cascade_ok ok) (auto simp: cascade_role_def)
qed

lemma same_grants_refl [simp]: "same_grants w w"
  by (simp add: same_grants_def)

text \<open>An inserted row has a new id, so nothing refers to it yet.\<close>

lemma grants_append:
  assumes "foreign_keys d"
  shows "f_id row \<notin> f_id ` set (db_features d) \<Longrightarrow>
      set (fetchPermissionStringsForRole r (d\<lparr>db_features := db_features d @ [row]\<rparr>)) =
      set (fetchPermissionStringsForRole r d)"
    and "p_id prow \<notin> p_id ` set (db_permissions d) \<Longrightarrow>
      set (fetchPermissionStringsForRole r (d\<lparr>db_permissions := db_permissions d @ [prow]\<rparr>)) =
      set (fetchPermissionStringsForRole r d)"
  using assms by (auto simp: set_eq_iff in_fetch_iff foreign_keys_def)

lemma insert_fresh:
  assumes "rbac_inv E w"
  shows "changed E w (w\<lparr>w_fresh := Suc (w_fresh w)\<rparr>)" "same_grants w (w\<lparr>w_fresh := Suc (w_fresh w)\<rparr>)"
    and "e_uuid E (w_fresh w) \<notin> f_id ` set (features w)" "e_uuid E (w_fresh w) \<notin> p_id ` set (permissions w)"
      "e_uuid E (w_fresh w) \<notin> r_id ` set (roles w)"
  using changed_genUuid [OF changed_refl [OF assms]] assms
  by (auto simp: same_grants_def rbac_inv_def fresh_ids_def)

lemma fresh_ids_grow_tables:
  assumes "uuid_ok E" and "fresh_ids E w"
    and "f_id ` set (features w') \<union> p_id ` set (permissions w') \<union> r_id ` set (roles w') \<subseteq>
      insert (e_uuid E (w_fresh w)) (f_id ` set (features w) \<union> p_id ` set (permissions w) \<union> r_id ` set (roles w))"
    and "w_fresh w' = Suc (w_fresh w)"
  shows "fresh_ids E w'"
  unfolding fresh_ids_def
proof (intro allI impI)
  fix n assume "w_fresh w' \<le> n"
  with assms(1,2,4) have "e_uuid E n \<notin> insert (e_uuid E (w_fresh w))
      (f_id ` set (features w) \<union> p_id ` set (permissions w) \<union> r_id ` set (roles w))"
    by (auto simp: fresh_ids_def)
  with assms(3) show "e_uuid E n \<notin> f_id ` set (features w') \<union> p_id ` set (permissions w') \<union> r_id ` set (roles w')"
    by blast
qed

lemma fresh_ids_grow:
  assumes "rbac_inv E w"
    and "f_id ` set (features w') \<union> p_id ` set (permissions w') \<union> r_id ` set (roles w') \<subseteq>
      insert (e_uuid E (w_fresh w)) (f_id ` set (features w) \<union> p_id ` set (permissions w) \<union> r_id ` set (roles w))"
    and "w_fresh w' = Suc (w_fresh w)"
  shows "fresh_ids E w'"
  using assms(1) by (intro fresh_ids_grow_tables [OF _ _ assms(2,3)]) (simp_all add: rbac_inv_def)

lemma inserted_feature:
  assumes "rbac_inv E w" and "f_id row = e_uuid E (w_fresh w)"
  shows "rbac_inv E (snd (insert_feature row (w\<lparr>w_fresh := Suc (w_fresh w)\<rparr>)))"
proof -
  let ?w1 = "w\<lparr>w_fresh := Suc (w_fresh w)\<rparr>"
  note fr = insert_fresh [OF assms(1)]
  have fk: "foreign_keys (w_db w)" using assms(1) by (simp add: rbac_inv_def rbac_db_ok_def)
  show ?thesis
  proof (cases "f_key row \<in> f_key ` set (features w)")
    case True
    then show ?thesis
      using unchanged_inv [OF assms(1) fr(1,2)] by (simp add: insert_feature_def find_key_None)
  next
    case False
    then have eq: "snd (insert_feature row ?w1) = modify_db (\<lambda>d. d\<lparr>db_features := db_features d @ [row]\<rparr>) ?w1"
      by (simp add: insert_feature_def find_key_None)
    have "same_grants w (snd (insert_feature row ?w1))"
      unfolding eq same_grants_def using grants_append(1) [OF fk] fr(3) assms(2) by simp
    moreover have "rbac_db_ok (w_db (snd (insert_feature row ?w1)))"
      using assms fr(3) by (intro insert_feature_ok) (simp_all add: rbac_inv_def)
    moreover have "fresh_ids E (snd (insert_feature row ?w1))"
      unfolding eq using assms by (intro fresh_ids_grow [OF assms(1)]) auto
    ultimately show ?thesis
      by (intro unchanged_inv [OF assms(1)]) (simp_all add: changed_def eq)
  qed
qed

lemma inserted_permission:
  assumes "rbac_inv E w" and "p_id row = e_uuid E (w_fresh w)"
  shows "rbac_inv E (snd (insert_permission row (w\<lparr>w_fresh := Suc (w_fresh w)\<rparr>)))"
proof -
  let ?w1 = "w\<lparr>w_fresh := Suc (w_fresh w)\<rparr>"
  note fr = insert_fresh [OF assms(1)]
  have fk: "foreign_keys (w_db w)" using assms(1) by (simp add: rbac_inv_def rbac_db_ok_def)
  show ?thesis
  proof (cases "isl (fst (insert_permission row ?w1))")
    case True
    then have "snd (insert_permission row ?w1) = ?w1" by (auto simp: insert_permission_def split: if_splits)
    then show ?thesis using unchanged_inv [OF assms(1) fr(1,2)] by simp
  next
    case False
    then have eq: "snd (insert_permission row ?w1) = modify_db (\<lambda>d. d\<lparr>db_permissions := db_permissions d @ [row]\<rparr>) ?w1"
      by (auto simp: insert_permission_def split: if_splits)
    have "same_grants w (snd (insert_permission row ?w1))"
      unfolding eq same_grants_def using grants_append(2) [OF fk] fr(4) assms(2) by simp
    moreover have "rbac_db_ok (w_db (snd (insert_permission row ?w1)))"
      using assms fr(4) by (intro insert_permission_ok) (simp_all add: rbac_inv_def)
    moreover have "fresh_ids E (snd (insert_permission row ?w1))"
      unfolding eq using assms by (intro fresh_ids_grow [OF assms(1)]) auto
    ultimately show ?thesis
      by (intro unchanged_inv [OF assms(1)]) (simp_all add: changed_def eq)
  qed
qed

lemma inserted_role:
  assumes "rbac_inv E w" and "r_id row = e_uuid E (w_fresh w)"
  shows "rbac_inv E (snd (insert_role row (w\<lparr>w_fresh := Suc (w_fresh w)\<rparr>)))"
proof -
  let ?w1 = "w\<lparr>w_fresh := Suc (w_fresh w)\<rparr>"
  note fr = insert_fresh [OF assms(1)]
  show ?thesis
  proof (cases "isl (fst (insert_role row ?w1))")
    case True
    then have "snd (insert_role row ?w1) = ?w1" by (auto simp: insert_role_def split: if_splits)
    then show ?thesis using unchanged_inv [OF assms(1) fr(1,2)] by simp
  next
    case False
    then have eq: "snd (insert_role row ?w1) = modify_db (\<lambda>d. d\<lparr>db_roles := db_roles d @ [row]\<rparr>) ?w1"
      by (auto simp: insert_role_def split: if_splits)
    have "same_grants w (snd (insert_role row ?w1))"
      unfolding eq same_grants_def by (simp add: set_eq_iff in_fetch_iff)
    moreover have "rbac_db_ok (w_db (snd (insert_role row ?w1)))"
      using assms fr(5) by (intro insert_role_ok) (simp_all add: rbac_inv_def)
    moreover have "fresh_ids E (snd (insert_role row ?w1))"
      unfolding eq using assms by (intro fresh_ids_grow [OF assms(1)]) auto
    ultimately show ?thesis
      by (intro unchanged_inv [OF assms(1)]) (simp_all add: changed_def eq)
  qed
qed

section \<open>The operations keep the invariant\<close>

lemma snd_catching_throw: "snd (catching m (\<lambda>e. throw (h e)) w) = snd (m w)"
  by (auto simp: catching_def split: prod.splits sum.splits)

lemma feature_create_inv: "rbac_inv E w \<Longrightarrow> rbac_inv E (snd (feature_create E dto w))"
  using inserted_feature [of E w "new_feature dto (e_uuid E (w_fresh w)) (w_now w)"]
    unchanged_inv [OF _ insert_fresh(1,2)]
  by (auto simp: feature_create_def snd_catching_throw andThen_def genUuid_def new_feature_def)

lemma permission_create_inv: "rbac_inv E w \<Longrightarrow> rbac_inv E (snd (permission_create E dto w))"
  using inserted_permission [of E w "new_permission dto (e_uuid E (w_fresh w)) (w_now w)"]
  by (simp add: permission_create_def snd_catching_throw andThen_def genUuid_def new_permission_def)

lemma role_create_inv: "rbac_inv E w \<Longrightarrow> rbac_inv E (snd (role_create E dto w))"
  using inserted_role [of E w "new_role dto (e_uuid E (w_fresh w)) (w_now w)"]
    unchanged_inv [OF _ insert_fresh(1,2)]
  by (auto simp: role_create_def snd_catching_throw andThen_def genUuid_def new_role_def)

text \<open>The reads that end an update leave the state alone.\<close>

lemma findOne_state [simp]:
  "snd (feature_findOne i w) = w" "snd (permission_findOne i w) = w" "snd (role_findOne i w) = w"
  by (simp_all add: feature_findOne_def permission_findOne_def role_findOne_def assertFound_def split: option.splits)

lemma feature_update_inv:
  assumes "rbac_inv E w"
  shows "rbac_inv E (snd (feature_update E fid dto w))"
proof -
  obtain r w1 where u: "update_feature fid dto w = (r, w1)" by fastforce
  have c: "changed E w w1" using changed_update_feature [OF assms, of fid dto] u by simp
  show ?thesis
  proof (cases "r = Inr 0 \<or> isl r")
    case True
    then have "w1 = w" using u by (auto simp: update_feature_def affected_0 find_row_None_iff split: if_splits)
    with True u assms show ?thesis by (cases r) (auto simp: feature_update_def andThen_def ensureAffected_def)
  next
    case False
    then obtain n where "r = Inr n" "n \<noteq> 0" by (cases r) auto
    with u invalidated_inv(1) [OF assms c] show ?thesis
      by (auto simp: feature_update_def andThen_def ensureAffected_def)
  qed
qed

lemma safeDelete_state:
  "snd (safeDelete delete i l m w) = snd (delete w)"
  by (auto simp: safeDelete_def catching_def andThen_def ensureAffected_def split: prod.splits sum.splits)

lemma safeDelete_returns:
  "fst (safeDelete delete i l m w) = Inr () \<longleftrightarrow> (\<exists>n. fst (delete w) = Inr n \<and> n \<noteq> 0)"
  by (auto simp: safeDelete_def catching_def andThen_def ensureAffected_def split: prod.splits sum.splits)

text \<open>A delete and the invalidation that follows it, when it deleted something.\<close>

lemma delete_then:
  assumes inv: "rbac_inv E w" and d: "delete w = (Inr n, w1)" and c: "changed E w w1"
    and none: "n = 0 \<Longrightarrow> w1 = w" and k: "\<exists>v. k w1 = (Inr (), v) \<and> rbac_inv E v"
  shows "rbac_inv E (snd (andThen (safeDelete delete i l m) (\<lambda>_. k) w))"
proof (cases n)
  case 0
  with d none inv show ?thesis
    by (simp add: andThen_def safeDelete_def catching_def ensureAffected_def split: prod.splits sum.splits)
next
  case (Suc n')
  with d k show ?thesis by (auto simp: andThen_def safeDelete_cases(1))
qed

lemma feature_remove_inv:
  assumes "rbac_inv E w" shows "rbac_inv E (snd (feature_remove E fid w))"
proof -
  let ?w1 = "snd (delete_feature fid w)"
  have c: "changed E w ?w1"
    using changed_cascades(1) [OF assms] changed_refl [OF assms] by (simp add: delete_feature_def)
  have d: "delete_feature fid w = (Inr (affected (\<lambda>f. f_id f = fid) (features w)), ?w1)"
    by (simp add: delete_feature_def)
  have k: "\<exists>v. invalidateAllRoles E ?w1 = (Inr (), v) \<and> rbac_inv E v"
    using invalidated_inv(1) [OF assms c] by blast
  show ?thesis
    unfolding feature_remove_def
    by (rule delete_then, rule assms, rule d, rule c)
       (simp add: delete_feature_def affected_0 find_row_None_iff, rule k)
qed

lemma unassigned_same_grants:
  "fetchRoleIdsForPermission pid (w_db w) = [] \<Longrightarrow> same_grants w (modify_db (cascade_permission pid) w)"
  by (force simp: same_grants_def set_eq_iff in_fetch_iff cascade_permission_def fetchRoleIdsForPermission_def
      filter_empty_conv)

lemma permission_remove_inv:
  assumes "rbac_inv E w" shows "rbac_inv E (snd (permission_remove E pid w))"
proof -
  let ?w1 = "snd (delete_permission pid w)" and ?rs = "fetchRoleIdsForPermission pid (w_db w)"
  have c: "changed E w ?w1"
    using changed_cascades(2) [OF assms] changed_refl [OF assms] by (simp add: delete_permission_def)
  have "?rs \<noteq> [] \<or> same_grants w ?w1"
    using unassigned_same_grants [of pid w] by (auto simp: delete_permission_def)
  from invalidated_inv(3) [OF assms c this]
  have k: "\<exists>v. invalidateRoles E ?rs ?w1 = (Inr (), v) \<and> rbac_inv E v" by blast
  have d: "delete_permission pid w = (Inr (affected (\<lambda>p. p_id p = pid) (permissions w)), ?w1)"
    by (simp add: delete_permission_def)
  have "rbac_inv E (snd (andThen (safeDelete (delete_permission pid) pid l m) (\<lambda>_. invalidateRoles E ?rs) w))" for l m
    by (rule delete_then, rule assms, rule d, rule c)
       (simp add: delete_permission_def affected_0 find_row_None_iff, rule k)
  then show ?thesis
    by (simp add: permission_remove_def role_ids_for_permission_def andThen_read)
qed

lemma update_permission_same_grants:
  assumes "\<And>p. p_id (f p) = p_id p" "\<And>p. p_featureId (f p) = p_featureId p" "\<And>p. p_action (f p) = p_action p"
  shows "set (fetchPermissionStringsForRole r (d\<lparr>db_permissions := update_where P f (db_permissions d)\<rparr>)) =
    set (fetchPermissionStringsForRole r d)"
proof -
  have str: "permission_string g (f p) = permission_string g p" for g p
    by (simp add: permission_string_def assms(3))
  have ex: "(\<exists>p \<in> set (update_where P f ps). Q p) \<longleftrightarrow> (\<exists>p \<in> set ps. Q p)"
    if "\<And>p. Q (f p) = Q p" for Q ps
    using that by (auto simp: set_update_where)
  show ?thesis
    unfolding set_eq_iff in_fetch_iff using assms(1,2) by (simp add: ex str)
qed

lemma permission_update_inv:
  assumes "rbac_inv E w" shows "rbac_inv E (snd (permission_update E pid dto w))"
proof -
  obtain r w1 where u: "update_permission pid dto w = (r, w1)" by fastforce
  have c: "changed E w w1" using changed_update_permission [OF assms, of pid dto] u by simp
  show ?thesis
  proof (cases "r = Inr 0 \<or> isl r")
    case True
    then have "w1 = w" using u by (auto simp: update_permission_def affected_0 find_row_None_iff split: if_splits)
    with True u assms show ?thesis by (cases r) (auto simp: permission_update_def andThen_def ensureAffected_def)
  next
    case False
    then obtain n where n: "r = Inr n" "n \<noteq> 0" by (cases r) auto
    with u have "w1 = modify_db (\<lambda>d. d\<lparr>db_permissions := update_where (\<lambda>p. p_id p = pid)
        (apply_permission dto (w_now w)) (db_permissions d)\<rparr>) w"
      by (auto simp: update_permission_def split: if_splits)
    then have "same_grants w w1"
      using update_permission_same_grants [of "apply_permission dto (w_now w)"]
      by (simp add: same_grants_def apply_permission_def)
    with n u invalidated_inv(3) [OF assms c, of "fetchRoleIdsForPermission pid (w_db w1)"] show ?thesis
      by (auto simp: permission_update_def andThen_def ensureAffected_def role_ids_for_permission_def)
  qed
qed

lemma save_role_same_grants: "same_grants w (snd (save_role row w))"
  by (simp add: save_role_def same_grants_def Let_def set_eq_iff in_fetch_iff)

lemma changed_save_role:
  assumes "rbac_inv E w" and "r_id row \<in> r_id ` set (roles w)"
  shows "changed E w (snd (save_role row w))"
proof -
  have "r_id ` set (update_where (\<lambda>r. r_id r = r_id row) (\<lambda>_. row\<lparr>r_updatedAt := t\<rparr>) (roles w)) \<subseteq> r_id ` set (roles w)" for t
    using assms(2) by (auto simp: set_update_where)
  moreover have "rbac_db_ok (w_db (snd (save_role row w)))"
    using assms by (intro save_role_ok) (simp_all add: rbac_inv_def)
  ultimately have "changed E w (modify_db f w)" if "snd (save_role row w) = modify_db f w"
      and "f = (\<lambda>d. d\<lparr>db_roles := update_where (\<lambda>r. r_id r = r_id row) (\<lambda>_. row\<lparr>r_updatedAt := w_now w\<rparr>) (db_roles d)\<rparr>)" for f
    using that by (intro changed_modify assms(1)) auto
  with changed_refl [OF assms(1)] show ?thesis
    by (auto simp: save_role_def Let_def)
qed

lemma role_update_inv:
  assumes "rbac_inv E w" shows "rbac_inv E (snd (role_update E rid dto w))"
proof (cases "find_row (\<lambda>r. r_id r = rid) (roles w)")
  case None
  then show ?thesis using assms by (simp add: role_update_def role_findOne_def assertFound_def andThen_def)
next
  case (Some role)
  then have "r_id role \<in> r_id ` set (roles w)" by (auto dest: find_row_SomeD)
  then have in_roles: "r_id (assign_role dto role) \<in> r_id ` set (roles w)" by (simp add: assign_role_def)
  let ?w1 = "snd (save_role (assign_role dto role) w)"
  note c = changed_save_role [OF assms in_roles]
  have "rbac_inv E ?w1" by (rule unchanged_inv [OF assms c save_role_same_grants])
  moreover obtain r w1 where s: "save_role (assign_role dto role) w = (r, w1)" by fastforce
  moreover have "\<exists>v. invalidateRoleCache E rid ?w1 = (Inr (), v) \<and> rbac_inv E v"
    using invalidated_inv(2) [OF assms c] by blast
  ultimately show ?thesis
    using assms Some
    by (cases r) (auto simp: role_update_def role_findOne_def assertFound_def andThen_def snd_catching_throw
        [unfolded andThen_def])
qed

lemma role_remove_inv:
  assumes "rbac_inv E w" shows "rbac_inv E (snd (role_remove E rid w))"
proof -
  have "changed E w (snd (delete_role rid w))"
    using changed_cascades(3) [OF assms] changed_refl [OF assms] by (simp add: delete_role_def)
  from invalidated_inv(2) [OF assms this, of rid] assms show ?thesis
    by (auto simp: role_remove_def andThen_def delete_role_def Let_def)
qed

section \<open>Assigning permissions\<close>

text \<open>The rows the INSERTs add, one per id, and what makes them succeed.\<close>

fun assignment_rows :: "env \<Rightarrow> uuid \<Rightarrow> uuid list \<Rightarrow> nat \<Rightarrow> time \<Rightarrow> role_permission list" where
  "assignment_rows E rid [] n t = []"
| "assignment_rows E rid (pid # pids) n t =
     \<lparr>rp_id = e_uuid E n, rp_roleId = rid, rp_permissionId = pid, rp_createdAt = t\<rparr> #
     assignment_rows E rid pids (Suc n) t"

lemma assignment_rows_keys [simp]:
  "map rp_permissionId (assignment_rows E rid pids n t) = pids"
  "map (\<lambda>rp. (rp_roleId rp, rp_permissionId rp)) (assignment_rows E rid pids n t) = map (Pair rid) pids"
  by (induction pids arbitrary: n) auto

lemma assignment_rows_in:
  "rp \<in> set (assignment_rows E rid pids n t) \<Longrightarrow> rp_roleId rp = rid \<and> rp_permissionId rp \<in> set pids"
  by (induction pids arbitrary: n) auto

definition assigned :: "env \<Rightarrow> uuid \<Rightarrow> uuid list \<Rightarrow> world \<Rightarrow> world" where
  "assigned E rid pids w = (modify_db (\<lambda>d. d\<lparr>db_rolePermissions :=
      db_rolePermissions d @ assignment_rows E rid pids (w_fresh w) (w_now w)\<rparr>) w)\<lparr>w_fresh := w_fresh w + length pids\<rparr>"

lemma insert_assignments_ok:
  assumes "distinct pids" and "set pids \<subseteq> p_id ` set (permissions w)" and "rid \<in> r_id ` set (roles w)"
    and "\<forall>rp \<in> set (rolePermissions w). rp_roleId rp = rid \<longrightarrow> rp_permissionId rp \<notin> set pids"
  shows "insert_assignments E rid pids w = (Inr (), assigned E rid pids w)"
  using assms
proof (induction pids arbitrary: w)
  case Nil
  then show ?case by (simp add: assigned_def modify_db_def)
next
  case (Cons pid pids)
  let ?row = "\<lparr>rp_id = e_uuid E (w_fresh w), rp_roleId = rid, rp_permissionId = pid, rp_createdAt = w_now w\<rparr>"
  let ?w1 = "modify_db (\<lambda>d. d\<lparr>db_rolePermissions := db_rolePermissions d @ [?row]\<rparr>) (w\<lparr>w_fresh := Suc (w_fresh w)\<rparr>)"
  have "find_row (\<lambda>rp. rp_roleId rp = rid \<and> rp_permissionId rp = pid) (rolePermissions w) = None"
    using Cons.prems(4) by (auto simp: find_row_None_iff)
  then have "insert_role_permission ?row (w\<lparr>w_fresh := Suc (w_fresh w)\<rparr>) = (Inr (), ?w1)"
    using Cons.prems(2,3) by (simp add: insert_role_permission_def find_key_None)
  moreover have "insert_assignments E rid pids ?w1 = (Inr (), assigned E rid pids ?w1)"
    using Cons.prems by (intro Cons.IH) auto
  moreover have "assigned E rid pids ?w1 = assigned E rid (pid # pids) w"
    by (simp add: assigned_def modify_db_def)
  ultimately show ?case by (simp add: andThen_def genUuid_def)
qed

lemma insert_assignments_unknown:
  assumes "pid \<in> set pids" and "pid \<notin> p_id ` set (permissions w)"
  shows "isl (fst (insert_assignments E rid pids w))"
  using assms
proof (induction pids arbitrary: w)
  case (Cons q pids)
  show ?case
  proof (cases "q = pid")
    case True
    with Cons.prems show ?thesis
      by (simp add: andThen_def genUuid_def insert_role_permission_def find_key_None)
  next
    case False
    with Cons show ?thesis
      by (simp add: andThen_def genUuid_def insert_role_permission_def)
  qed
qed simp

lemma insert_assignments_fresh: "w_fresh w \<le> w_fresh (snd (insert_assignments E rid pids w))"
proof (induction pids arbitrary: w)
  case (Cons q pids)
  show ?case
    using Cons.IH by (auto simp: andThen_def genUuid_def insert_role_permission_def intro: order_trans [OF _ Cons.IH])
qed simp

lemma insert_assignments_frame:
  "w_cache (snd (insert_assignments E rid pids w)) = w_cache w \<and>
   w_redisEpoch (snd (insert_assignments E rid pids w)) = w_redisEpoch w \<and>
   w_invalidationEpoch (snd (insert_assignments E rid pids w)) = w_invalidationEpoch w \<and>
   w_faults (snd (insert_assignments E rid pids w)) = w_faults w"
proof (induction pids arbitrary: w)
  case (Cons q pids)
  then show ?case by (simp add: andThen_def genUuid_def insert_role_permission_def)
qed simp

lemma js_unique_props [simp]: "set (js_unique xs) = set xs" "distinct (js_unique xs)"
  by (simp_all add: js_unique_def)

text \<open>The two outcomes of the transaction.\<close>

definition cleared :: "uuid \<Rightarrow> world \<Rightarrow> world" where
  "cleared rid = modify_db (\<lambda>d. d\<lparr>db_rolePermissions := delete_where (\<lambda>rp. rp_roleId rp = rid) (db_rolePermissions d)\<rparr>)"

lemma assign_ok:
  assumes "rid \<in> r_id ` set (roles w)" and "set ids \<subseteq> p_id ` set (permissions w)"
  shows "assignPermissions E rid ids w =
    andThen (invalidateRoleCache E rid) (\<lambda>_. ret (js_unique ids)) (assigned E rid (js_unique ids) (cleared rid w))"
proof -
  have "insert_assignments E rid (js_unique ids) (cleared rid w) = (Inr (), assigned E rid (js_unique ids) (cleared rid w))"
    using assms by (intro insert_assignments_ok) (auto simp: cleared_def)
  then have "andThen (delete_role_permissions rid) (\<lambda>_. let permissionIds = js_unique ids in
      andThen (insert_assignments E rid permissionIds) (\<lambda>_. ret permissionIds)) w =
      (Inr (js_unique ids), assigned E rid (js_unique ids) (cleared rid w))"
    by (simp add: andThen_def delete_role_permissions_def cleared_def Let_def)
  with assms(1) show ?thesis
    by (simp add: assignPermissions_def find_key_None transaction_then Let_def)
qed

lemma assign_unknown:
  assumes "rid \<in> r_id ` set (roles w)" and "pid \<in> set ids" and "pid \<notin> p_id ` set (permissions w)"
  shows "\<exists>e w'. assignPermissions E rid ids w = (Inl e, w') \<and> w_db w' = w_db w \<and> w_fresh w \<le> w_fresh w' \<and>
    w_cache w' = w_cache w \<and> w_redisEpoch w' = w_redisEpoch w \<and>
    w_invalidationEpoch w' = w_invalidationEpoch w \<and> w_faults w' = w_faults w"
proof -
  have "isl (fst (insert_assignments E rid (js_unique ids) (cleared rid w)))"
    using assms by (intro insert_assignments_unknown [of pid]) (simp_all add: cleared_def)
  then obtain e w1 where i: "insert_assignments E rid (js_unique ids) (cleared rid w) = (Inl e, w1)"
    by (cases "insert_assignments E rid (js_unique ids) (cleared rid w)") (auto simp: isl_def)
  then have "andThen (delete_role_permissions rid) (\<lambda>_. let permissionIds = js_unique ids in
      andThen (insert_assignments E rid permissionIds) (\<lambda>_. ret permissionIds)) w = (Inl e, w1)"
    by (simp add: andThen_def delete_role_permissions_def cleared_def Let_def)
  with assms(1) i insert_assignments_fresh [of "cleared rid w" E rid "js_unique ids"]
    insert_assignments_frame [of E rid "js_unique ids" "cleared rid w"] show ?thesis
    by (simp add: assignPermissions_def find_key_None transaction_then Let_def cleared_def)
qed

lemma assigned_tables_ok:
  assumes ok: "rbac_db_ok (w_db w)" and "rid \<in> r_id ` set (roles w)" and "set pids \<subseteq> p_id ` set (permissions w)" "distinct pids"
  shows "rbac_db_ok (w_db (assigned E rid pids (cleared rid w)))"
proof -
  let ?rows = "assignment_rows E rid pids (w_fresh w) (w_now w)"
  have sets: "(\<lambda>rp. (rp_roleId rp, rp_permissionId rp)) ` set (assignment_rows E rid ps n t) = Pair rid ` set ps"
    "rp_permissionId ` set (assignment_rows E rid ps n t) = set ps" for ps n t
    by (induction ps arbitrary: n) (simp_all del: assignment_rows_keys)
  have keys: "(\<lambda>rp. (rp_roleId rp, rp_permissionId rp)) ` set ?rows = Pair rid ` set pids"
    "rp_permissionId ` set ?rows = set pids" by (rule sets)+
  have dist: "distinct (map (\<lambda>rp. (rp_roleId rp, rp_permissionId rp)) ?rows)"
    unfolding assignment_rows_keys(2) using assms(4) by (simp add: distinct_map inj_on_def)
  have roles: "rp_roleId ` set ?rows \<subseteq> {rid}" by (auto dest: assignment_rows_in)
  with assms(2) have roles': "rp_roleId ` set ?rows \<subseteq> r_id ` set (roles w)" by blast
  have "unique_keys (w_db (assigned E rid pids (cleared rid w)))"
    using ok keys dist
    by (auto simp: rbac_db_ok_def unique_keys_def assigned_def cleared_def distinct_map_delete_where
        simp del: assignment_rows_keys)
  moreover have "foreign_keys (w_db (assigned E rid pids (cleared rid w)))"
    using ok keys(2) roles' assms(3)
    by (simp add: rbac_db_ok_def foreign_keys_def assigned_def cleared_def image_Un subset_delete_left
        del: set_delete_where)
  ultimately show ?thesis by (simp add: rbac_db_ok_def)
qed

lemma assigned_rows_ok:
  assumes "rbac_inv E w" and "rid \<in> r_id ` set (roles w)" and "set pids \<subseteq> p_id ` set (permissions w)" "distinct pids"
  shows "changed E w (assigned E rid pids (cleared rid w))"
proof -
  have "rbac_db_ok (w_db (assigned E rid pids (cleared rid w)))"
    using assms by (intro assigned_tables_ok) (simp_all add: rbac_inv_def)
  moreover have "fresh_ids E (assigned E rid pids (cleared rid w))"
    by (rule fresh_ids_sub [of E w]) (use assms(1) in \<open>auto simp: rbac_inv_def assigned_def cleared_def\<close>)
  ultimately show ?thesis
    by (simp add: changed_def) (simp add: assigned_def cleared_def)
qed

lemma assignPermissions_inv:
  assumes "rbac_inv E w" shows "rbac_inv E (snd (assignPermissions E rid ids w))"
proof (cases "rid \<in> r_id ` set (roles w)")
  case False
  with assms show ?thesis by (simp add: assignPermissions_def find_key_None)
next
  case role: True
  show ?thesis
  proof (cases "set ids \<subseteq> p_id ` set (permissions w)")
    case True
    have "changed E w (assigned E rid (js_unique ids) (cleared rid w))"
      using assms role True by (intro assigned_rows_ok) simp_all
    from invalidated_inv(2) [OF assms this, of rid] obtain v where
      "invalidateRoleCache E rid (assigned E rid (js_unique ids) (cleared rid w)) = (Inr (), v)" "rbac_inv E v"
      by blast
    then show ?thesis unfolding assign_ok [OF role True] by (simp add: andThen_def)
  next
    case False
    then obtain pid where "pid \<in> set ids" "pid \<notin> p_id ` set (permissions w)" by blast
    then obtain e w' where
      w': "assignPermissions E rid ids w = (Inl e, w')" "w_db w' = w_db w" "w_fresh w \<le> w_fresh w'"
      "w_cache w' = w_cache w" "w_redisEpoch w' = w_redisEpoch w"
      "w_invalidationEpoch w' = w_invalidationEpoch w" "w_faults w' = w_faults w"
      using assign_unknown [OF role, of pid ids E] by (elim meta_impE exE conjE) assumption+
    have "changed E w w'"
      using w' assms fresh_ids_sub [of E w w'] by (simp add: changed_def rbac_inv_def)
    then have "rbac_inv E w'" using w'(2) by (intro unchanged_inv [OF assms]) (simp_all add: same_grants_def)
    with w'(1) show ?thesis by simp
  qed
qed

lemma check_inv: "rbac_inv E w \<Longrightarrow> rbac_inv E (snd (getPermissionsForRole E r w))"
proof -
  assume inv: "rbac_inv E w"
  then have ok: "epoch_ok E w" by (simp add: rbac_inv_def coherent_def)
  have "w_fresh (snd (getPermissionsForRole E r w)) = w_fresh w"
  proof (cases rule: read_cached_cases [OF ok, of r])
    case (1 e w1)
    then show ?thesis by (simp add: getPermissionsForRole_def andThen_def fetch_and_cache_eq store_permissions_eq)
  next
    case (2 e w1 ps x)
    then show ?thesis by (simp add: getPermissionsForRole_def andThen_def)
  qed
  with inv getPermissionsForRole_coherent [of E w r] show ?thesis
    by (auto simp: rbac_inv_def fresh_ids_def)
qed

section \<open>Steps\<close>

text \<open>
  \<open>other_instance\<close> is a mutation that another instance of the application made and announced
  by INCR on the shared counter; \<open>faults_step\<close> is any change of the faults after which INCR
  still works.
\<close>

inductive rbac_step :: "env \<Rightarrow> world \<Rightarrow> world \<Rightarrow> bool" for E where
  check_step: "rbac_step E w (snd (checkPermissions E r req w))"
| feature_create_step: "rbac_step E w (snd (feature_create E cf w))"
| feature_update_step: "rbac_step E w (snd (feature_update E i uf w))"
| feature_remove_step: "rbac_step E w (snd (feature_remove E i w))"
| permission_create_step: "rbac_step E w (snd (permission_create E cp w))"
| permission_update_step: "rbac_step E w (snd (permission_update E i up w))"
| permission_remove_step: "rbac_step E w (snd (permission_remove E i w))"
| role_create_step: "rbac_step E w (snd (role_create E cr w))"
| role_update_step: "rbac_step E w (snd (role_update E i ur w))"
| role_remove_step: "rbac_step E w (snd (role_remove E i w))"
| assign_step: "rbac_step E w (snd (assignPermissions E i ids w))"
| other_instance: "e_redisConfigured E \<Longrightarrow> rbac_db_ok d \<Longrightarrow> fresh_ids E (w\<lparr>w_db := d\<rparr>) \<Longrightarrow>
    rbac_step E w (w\<lparr>w_db := d, w_redisEpoch := Some (shared_epoch E w + 1)\<rparr>)"
| rbac_tick: "0 \<le> dt \<Longrightarrow> rbac_step E w (w\<lparr>w_now := w_now w + dt\<rparr>)"
| rbac_faults: "\<not> redisIncrFails f \<Longrightarrow> rbac_step E w (w\<lparr>w_faults := f\<rparr>)"

inductive rbac_run :: "env \<Rightarrow> world \<Rightarrow> world \<Rightarrow> bool" for E where
  rbac_refl: "rbac_run E w w"
| rbac_more: "rbac_run E w w' \<Longrightarrow> rbac_step E w' w'' \<Longrightarrow> rbac_run E w w''"

text \<open>A start: well-formed tables, nothing cached, the local epoch not ahead of Redis'.\<close>

definition rbac_start :: "env \<Rightarrow> world \<Rightarrow> bool" where
  "rbac_start E w \<longleftrightarrow> uuid_ok E \<and> rbac_db_ok (w_db w) \<and> fresh_ids E w \<and> epoch_ok E w \<and>
     w_cache w = Map.empty \<and> \<not> redisIncrFails (w_faults w)"

lemma other_instance_inv:
  assumes "rbac_inv E w" "e_redisConfigured E" "rbac_db_ok d" "fresh_ids E (w\<lparr>w_db := d\<rparr>)"
  shows "rbac_inv E (w\<lparr>w_db := d, w_redisEpoch := Some (shared_epoch E w + 1)\<rparr>)"
proof -
  let ?w' = "w\<lparr>w_db := d, w_redisEpoch := Some (shared_epoch E w + 1)\<rparr>"
  from assms(1) have ok: "epoch_ok E w" "entries_ok E w" by (simp_all add: rbac_inv_def coherent_def)
  have sh: "shared_epoch E ?w' = shared_epoch E w + 1" using assms(2) by (simp add: shared_epoch_def)
  have "epoch < shared_epoch E w + 1"
    if "w_cache w (rolePermissionCacheKey r) = Some (CPerms epoch ps, x)" for r epoch ps x
    using ok(2) that by (fastforce simp: entries_ok_def)
  then have "entries_ok E ?w'" unfolding entries_ok_def sh by fastforce
  moreover have "epoch_ok E ?w'"
    using ok(1) assms(2) by (auto simp: epoch_ok_def shared_epoch_def split: option.splits)
  moreover have "fresh_ids E ?w'" using assms(4) by (simp add: fresh_ids_def)
  ultimately show ?thesis using assms(1,3) by (simp add: rbac_inv_def coherent_def)
qed

lemma rbac_step_inv: "rbac_step E w w' \<Longrightarrow> rbac_inv E w \<Longrightarrow> rbac_inv E w'"
proof (induction rule: rbac_step.induct)
  case (rbac_tick dt w)
  then show ?case
    using epoch_cong [of "w\<lparr>w_now := w_now w + dt\<rparr>" w E]
    by (simp add: rbac_inv_def coherent_def entries_ok_def fresh_ids_def)
next
  case (rbac_faults f w)
  then show ?case
    using epoch_cong [of "w\<lparr>w_faults := f\<rparr>" w E]
    by (simp add: rbac_inv_def coherent_def entries_ok_def fresh_ids_def)
qed (simp_all add: checkPermissions_state check_inv feature_create_inv feature_update_inv feature_remove_inv
  permission_create_inv permission_update_inv permission_remove_inv role_create_inv role_update_inv
  role_remove_inv assignPermissions_inv other_instance_inv)

lemma rbac_run_inv: "rbac_run E w w' \<Longrightarrow> rbac_inv E w \<Longrightarrow> rbac_inv E w'"
  by (induction rule: rbac_run.induct) (auto intro: rbac_step_inv)

lemma rbac_start_inv: "rbac_start E w \<Longrightarrow> rbac_inv E w"
  by (simp add: rbac_start_def rbac_inv_def coherent_def entries_ok_def)

end
