(* ===== verification/Rbac_Properties.thy ===== *)
theory Rbac_Properties
  imports Rbac_Machine
begin

text \<open>
  What the RBAC module guarantees: decisions follow the tables, whatever is cached; the guard
  fails closed; assignments are atomic and exact; deletions cascade; and where an invalidation
  can be lost.
\<close>

section \<open>A small policy\<close>

text \<open>One feature with two permissions, of which the role Viewer has one, and a user of it.\<close>

definition policy_db :: database where
  "policy_db = demo_db\<lparr>
     db_features := [\<lparr>f_id = ''f-1'', f_key = ''rbac'', f_name = ''RBAC'', f_description = None,
       f_isActive = True, f_createdAt = 0, f_updatedAt = 0\<rparr>],
     db_permissions := [
       \<lparr>p_id = ''p-1'', p_featureId = ''f-1'', p_action = ''view'', p_name = ''v'',
        p_description = None, p_createdAt = 0, p_updatedAt = 0\<rparr>,
       \<lparr>p_id = ''p-2'', p_featureId = ''f-1'', p_action = ''edit'', p_name = ''e'',
        p_description = None, p_createdAt = 0, p_updatedAt = 0\<rparr>],
     db_rolePermissions := [\<lparr>rp_id = ''rp-1'', rp_roleId = ''u-r'', rp_permissionId = ''p-1'', rp_createdAt = 0\<rparr>]\<rparr>"

definition policy_world :: world where
  "policy_world = demo_world\<lparr>w_db := policy_db\<rparr>"

lemma policy_world_simps [simp]:
  "w_db policy_world = policy_db" "w_cache policy_world = Map.empty" "w_faults policy_world = no_faults"
  "w_fresh policy_world = 0" "w_redisEpoch policy_world = None" "w_invalidationEpoch policy_world = 0"
  by (simp_all add: policy_world_def demo_world_def)

lemma policy_start: "rbac_start demo_env policy_world"
proof -
  have "demo_uuid n \<noteq> ''f-1''" "demo_uuid n \<noteq> ''p-1''" "demo_uuid n \<noteq> ''p-2''" "demo_uuid n \<noteq> ''u-r''" for n
  proof -
    have "bits (int n) = [] \<or> hd (bits (int n)) \<in> {CHR ''0'', CHR ''1''}"
      by (simp add: bits.simps [of "int n"])
    then show "demo_uuid n \<noteq> ''f-1''" "demo_uuid n \<noteq> ''p-1''" "demo_uuid n \<noteq> ''p-2''" "demo_uuid n \<noteq> ''u-r''"
      by (auto simp: demo_uuid_def)
  qed
  then have "fresh_ids demo_env policy_world"
    by (simp add: fresh_ids_def policy_db_def demo_db_def demo_env_def)
  then show ?thesis
    by (simp add: rbac_start_def demo_uuid_ok rbac_db_ok_defs policy_db_def demo_db_def demo_user_def
        epoch_ok_def no_faults_def)
qed

lemma policy_inv: "rbac_inv demo_env policy_world"
  by (rule rbac_start_inv [OF policy_start])

section \<open>Decisions\<close>

text \<open>
  C2. Permission checks follow the tables as they are now: after any sequence of administration
  calls, checks, cache faults, clock ticks and announced mutations of other instances, a check
  grants exactly the permissions assigned to the role, never fewer and never stale ones, as long
  as the shared epoch and the table can be read now and no INCR on the epoch has failed on the way.
\<close>

theorem decisions_follow_tables:
  assumes "rbac_start E w0" and "rbac_run E w0 w"
    and "\<not> e_redisConfigured E \<or> \<not> redisReadFails (w_faults w)" and "\<not> rbacQueryFails (w_faults w)"
  shows "fst (checkPermissions E roleId req w) = Inr (roleId \<noteq> [] \<and> req \<noteq> [] \<and>
    (\<forall>perm \<in> set req. \<exists>rp \<in> set (rolePermissions w). \<exists>p \<in> set (permissions w). \<exists>f \<in> set (features w).
       rp_roleId rp = roleId \<and> p_id p = rp_permissionId rp \<and> f_id f = p_featureId p \<and>
       perm = f_key f @ '':'' @ p_action p))"
proof -
  have "rbac_inv E w" by (rule rbac_run_inv [OF assms(2) rbac_start_inv [OF assms(1)]])
  with assms(3,4) have "rbac_ready E w" by (simp add: rbac_ready_def rbac_inv_def epoch_readable_def)
  from rbac.check_answers [OF this, of roleId req] show ?thesis
    by (auto simp: granted_def subset_iff in_fetch_iff permission_string_def)
qed

theorem decisions_follow_tables_witness:
  "fst (checkPermissions demo_env ''u-r'' [''rbac:view''] policy_world) = Inr True \<and>
   fst (checkPermissions demo_env ''u-r'' [''rbac:edit''] policy_world) = Inr False"
  using decisions_follow_tables [OF policy_start rbac_refl, of "''u-r''"]
  by (simp add: no_faults_def policy_db_def)

text \<open>
  C19. The tables stay well-formed along any run (in which no INCR on the epoch fails): unique keys,
  names and pairs, and no reference to a row that is gone.
\<close>

theorem tables_stay_well_formed:
  assumes "rbac_start E w0" and "rbac_run E w0 w"
  shows "rbac_db_ok (w_db w)"
  using rbac_run_inv [OF assms(2) rbac_start_inv [OF assms(1)]] by (simp add: rbac_inv_def)

theorem tables_stay_well_formed_witness:
  "rbac_db_ok (w_db (snd (role_remove demo_env ''u-r'' policy_world)))"
  by (rule tables_stay_well_formed [OF policy_start rbac_more [OF rbac_refl role_remove_step]])

text \<open>
  C13. The permission guard lets a request through exactly when the endpoint requires nothing or
  the user has a role that is granted everything required; otherwise it answers 401 for a user
  without role and 403 for one that lacks a permission. As above, no INCR on the epoch has failed.
\<close>

theorem guard_decides:
  assumes "rbac_start E w0" and "rbac_run E w0 w"
    and "\<not> e_redisConfigured E \<or> \<not> redisReadFails (w_faults w)" and "\<not> rbacQueryFails (w_faults w)"
  shows "fst (permission_canActivate E required user w) = (case required of
      None \<Rightarrow> Inr True
    | Some req \<Rightarrow> (case Option.bind user u_roleId of
        None \<Rightarrow> Inl (Unauthorized ''User does not have a role assigned'')
      | Some roleId \<Rightarrow>
          if roleId = [] then Inl (Unauthorized ''User does not have a role assigned'')
          else if req \<noteq> [] \<and> set req \<subseteq> granted roleId (w_db w) then Inr True
          else Inl (Forbidden (''User does not have required permissions: '' @ join_strings '', '' req))))"
proof -
  have "rbac_inv E w" by (rule rbac_run_inv [OF assms(2) rbac_start_inv [OF assms(1)]])
  with assms(3,4) have "rbac_ready E w" by (simp add: rbac_ready_def rbac_inv_def epoch_readable_def)
  then show ?thesis
    by (auto simp: permission_canActivate_def rbac.andThen_check split: option.splits)
qed

theorem guard_decides_witness:
  "fst (permission_canActivate demo_env (Some [''rbac:edit'']) (Some (demo_user ''u-a'' ''ana'' ''pa'')) policy_world) =
     Inl (Forbidden (''User does not have required permissions: '' @ join_strings '', '' [''rbac:edit'']))"
proof -
  have "''rbac:edit'' \<notin> granted ''u-r'' policy_db" by code_simp
  moreover have "u_roleId (demo_user ''u-a'' ''ana'' ''pa'') = Some ''u-r''" by (simp add: demo_user_def)
  ultimately show ?thesis
    using guard_decides [OF policy_start rbac_refl, of "Some [''rbac:edit'']" "Some (demo_user ''u-a'' ''ana'' ''pa'')"]
    by (simp add: no_faults_def)
qed

text \<open>
  What a check goes by, in any state and with any faults: the epoch it reads, and the cached set it
  trusts, which is one that could be read, has not expired, and has that epoch.
\<close>

definition current_epoch :: "env \<Rightarrow> world \<Rightarrow> int" where
  "current_epoch E w = (if \<not> e_redisConfigured E \<or> redisReadFails (w_faults w) then w_invalidationEpoch w
     else case w_redisEpoch w of Some n \<Rightarrow> n | None \<Rightarrow> w_invalidationEpoch w)"

definition trusted_set :: "env \<Rightarrow> uuid \<Rightarrow> world \<Rightarrow> string list option" where
  "trusted_set E roleId w = (if cacheGetFails (w_faults w) (rolePermissionCacheKey roleId) then None
     else case cached_perms (cache_get (w_now w) (rolePermissionCacheKey roleId) (w_cache w)) of
       None \<Rightarrow> None
     | Some (epoch, ps) \<Rightarrow> if epoch = current_epoch E w then Some ps else None)"

lemma getGlobalEpoch_current:
  "getGlobalEpoch E w = (Inr (current_epoch E w), w\<lparr>w_invalidationEpoch := current_epoch E w\<rparr>)"
  by (auto simp: getGlobalEpoch_def readRbacGlobalEpoch_def local_epoch_def set_local_epoch_def andThen_def
      catching_def current_epoch_def split: option.splits)

lemma read_cached_trusted:
  "read_cached E roleId w =
     (Inr (Some (current_epoch E w), trusted_set E roleId w), w\<lparr>w_invalidationEpoch := current_epoch E w\<rparr>)"
  by (simp add: read_cached_def catching_def andThen_def getGlobalEpoch_current cacheGet_def trusted_set_def
      split: option.split)

lemma check_decides:
  "\<exists>b w'. checkPermissions E roleId req w = (Inr b, w') \<and> w_db w' = w_db w \<and>
     (b \<longleftrightarrow> roleId \<noteq> [] \<and> req \<noteq> [] \<and> (case trusted_set E roleId w of
        Some ps \<Rightarrow> set req \<subseteq> set ps
      | None \<Rightarrow> \<not> rbacQueryFails (w_faults w) \<and> set req \<subseteq> set (fetchPermissionStringsForRole roleId (w_db w))))"
proof (cases "roleId = [] \<or> req = []")
  case True
  then show ?thesis by (auto simp: checkPermissions_def)
next
  case False
  show ?thesis
  proof (cases "trusted_set E roleId w")
    case None
    with False show ?thesis
      by (simp add: checkPermissions_def catching_def andThen_def getPermissionsForRole_def read_cached_trusted
          fetch_and_cache_eq store_permissions_eq list_all_iff subset_eq)
  next
    case (Some ps)
    with False show ?thesis
      by (simp add: checkPermissions_def catching_def andThen_def getPermissionsForRole_def read_cached_trusted
          list_all_iff subset_eq)
  qed
qed

text \<open>
  C22. A permission check never throws, whatever fails and whatever is cached, and leaves the tables
  alone. It grants only a role that is given and a requirement that is not empty, and then only what
  the cached set it trusts contains or, without one, what the tables grant; so with neither
  a trusted set nor an answer of the table it denies.
\<close>

theorem check_fails_closed:
  "\<exists>b w'. checkPermissions E roleId req w = (Inr b, w') \<and> w_db w' = w_db w \<and>
     (b \<longleftrightarrow> roleId \<noteq> [] \<and> req \<noteq> [] \<and> (case trusted_set E roleId w of
        Some ps \<Rightarrow> set req \<subseteq> set ps
      | None \<Rightarrow> \<not> rbacQueryFails (w_faults w) \<and> set req \<subseteq> set (fetchPermissionStringsForRole roleId (w_db w))))"
  by (rule check_decides)

theorem check_fails_closed_witness:
  "fst (checkPermissions demo_env ''u-r'' [''rbac:view'']
     (policy_world\<lparr>w_faults := no_faults\<lparr>rbacQueryFails := True\<rparr>\<rparr>)) = Inr False"
proof -
  let ?w = "policy_world\<lparr>w_faults := no_faults\<lparr>rbacQueryFails := True\<rparr>\<rparr>"
  have "trusted_set demo_env ''u-r'' ?w = None" by (simp add: trusted_set_def cache_get_def)
  then show ?thesis using check_fails_closed [of demo_env "''u-r''" "[''rbac:view'']" ?w] by auto
qed

section \<open>Administration\<close>

lemma grants_assigned:
  assumes "distinct pids"
  shows "set (fetchPermissionStringsForRole r (w_db (assigned E rid pids (cleared rid w)))) =
    (if r = rid then {permission_string f p | p f. p \<in> set (permissions w) \<and> f \<in> set (features w) \<and>
        p_id p \<in> set pids \<and> f_id f = p_featureId p}
     else set (fetchPermissionStringsForRole r (w_db w)))"
proof -
  let ?rows = "assignment_rows E rid pids (w_fresh w) (w_now w)"
  have mem: "rp \<in> set ?rows \<Longrightarrow> rp_roleId rp = rid \<and> rp_permissionId rp \<in> set pids" for rp
    by (rule assignment_rows_in)
  have ex: "pid \<in> set pids \<Longrightarrow> \<exists>rp \<in> set ?rows. rp_permissionId rp = pid" for pid
    using arg_cong [OF assignment_rows_keys(1), of set E rid pids "w_fresh w" "w_now w"]
    by (metis imageE set_map)
  have rows: "db_rolePermissions (w_db (assigned E rid pids (cleared rid w))) =
      delete_where (\<lambda>rp. rp_roleId rp = rid) (rolePermissions w) @ ?rows"
    and others: "permissions (assigned E rid pids (cleared rid w)) = permissions w"
      "features (assigned E rid pids (cleared rid w)) = features w"
    by (simp_all add: assigned_def cleared_def)
  then show ?thesis
  proof (cases "r = rid")
    case True
    let ?d = "w_db (assigned E rid pids (cleared rid w))"
    have "x \<in> set (fetchPermissionStringsForRole rid ?d) \<longleftrightarrow> (\<exists>p f. x = permission_string f p \<and>
        p \<in> set (permissions w) \<and> f \<in> set (features w) \<and> p_id p \<in> set pids \<and> f_id f = p_featureId p)" for x
    proof
      assume "x \<in> set (fetchPermissionStringsForRole rid ?d)"
      then obtain rp p f where "rp \<in> set (db_rolePermissions ?d)" "p \<in> set (permissions w)" "f \<in> set (features w)"
        "rp_roleId rp = rid" "p_id p = rp_permissionId rp" "f_id f = p_featureId p" "x = permission_string f p"
        using others by (auto simp: in_fetch_iff)
      moreover from this(1,4) rows have "rp \<in> set ?rows" by auto
      ultimately show "\<exists>p f. x = permission_string f p \<and> p \<in> set (permissions w) \<and> f \<in> set (features w) \<and>
          p_id p \<in> set pids \<and> f_id f = p_featureId p" using mem by metis
    next
      assume "\<exists>p f. x = permission_string f p \<and> p \<in> set (permissions w) \<and> f \<in> set (features w) \<and>
          p_id p \<in> set pids \<and> f_id f = p_featureId p"
      then obtain p f rp where "x = permission_string f p" "p \<in> set (permissions w)" "f \<in> set (features w)"
          "f_id f = p_featureId p" "rp \<in> set ?rows" "rp_permissionId rp = p_id p"
        using ex by metis
      with mem [of rp] rows others show "x \<in> set (fetchPermissionStringsForRole rid ?d)"
        unfolding in_fetch_iff by (intro bexI [of _ rp] bexI [of _ p] bexI [of _ f]) auto
    qed
    with True show ?thesis by auto
  next
    case False
    with rows others mem show ?thesis
      by (auto simp: set_eq_iff in_fetch_iff)
  qed
qed

text \<open>
  C18. Assigning permissions replaces a role's set, all or nothing: on success the role is granted
  exactly the listed permissions, each once, and other roles keep theirs; on failure, an unknown
  permission or role, the tables are untouched. No INCR on the epoch fails on the way to \<open>w\<close> or in the call.
\<close>

theorem assign_all_or_nothing:
  assumes "rbac_start E w0" and "rbac_run E w0 w"
  shows "case assignPermissions E roleId ids w of
      (Inl e, w') \<Rightarrow> w_db w' = w_db w \<and>
        (roleId \<notin> r_id ` set (roles w) \<or> \<not> set ids \<subseteq> p_id ` set (permissions w))
    | (Inr out, w') \<Rightarrow> set out = set ids \<and> distinct out \<and>
        (\<forall>r. set (fetchPermissionStringsForRole r (w_db w')) =
          (if r = roleId then {permission_string f p | p f. p \<in> set (permissions w) \<and> f \<in> set (features w) \<and>
             p_id p \<in> set ids \<and> f_id f = p_featureId p}
           else set (fetchPermissionStringsForRole r (w_db w))))"
proof -
  have inv: "rbac_inv E w" by (rule rbac_run_inv [OF assms(2) rbac_start_inv [OF assms(1)]])
  consider (norole) "roleId \<notin> r_id ` set (roles w)"
    | (ok) "roleId \<in> r_id ` set (roles w)" "set ids \<subseteq> p_id ` set (permissions w)"
    | (unknown) pid where "roleId \<in> r_id ` set (roles w)" "pid \<in> set ids" "pid \<notin> p_id ` set (permissions w)"
    by blast
  then show ?thesis
  proof cases
    case norole
    then show ?thesis by (simp add: assignPermissions_def find_key_None)
  next
    case ok
    have "changed E w (assigned E roleId (js_unique ids) (cleared roleId w))"
      using inv ok by (intro assigned_rows_ok) simp_all
    from invalidated_inv(2) [OF inv this, of roleId] obtain v where
      v: "invalidateRoleCache E roleId (assigned E roleId (js_unique ids) (cleared roleId w)) = (Inr (), v)"
        "w_db v = w_db (assigned E roleId (js_unique ids) (cleared roleId w))" by blast
    then have r: "assignPermissions E roleId ids w = (Inr (js_unique ids), v)"
      unfolding assign_ok [OF ok] by (simp add: andThen_def)
    show ?thesis unfolding r v(2) prod.case sum.case using grants_assigned [of "js_unique ids"] by simp
  next
    case unknown
    from assign_unknown [OF this, of E] obtain e w' where
      "assignPermissions E roleId ids w = (Inl e, w')" "w_db w' = w_db w" by (elim exE conjE) (rule that)
    with unknown show ?thesis by auto
  qed
qed

theorem assign_all_or_nothing_witness:
  "\<exists>out w'. assignPermissions demo_env ''u-r'' [''p-2'', ''p-2''] policy_world = (Inr out, w') \<and>
     distinct out \<and> set (fetchPermissionStringsForRole ''u-r'' (w_db w')) = {''rbac:edit''}"
proof -
  have "\<not> isl (fst (assignPermissions demo_env ''u-r'' [''p-2'', ''p-2''] policy_world))" by code_simp
  then obtain out w' where r: "assignPermissions demo_env ''u-r'' [''p-2'', ''p-2''] policy_world = (Inr out, w')"
    using Inr_pair by blast
  have edit: "{permission_string f p | p f. p \<in> set (permissions policy_world) \<and> f \<in> set (features policy_world) \<and>
      p_id p \<in> set [''p-2'', ''p-2''] \<and> f_id f = p_featureId p} = {''rbac:edit''}"
    by (auto simp: policy_db_def permission_string_def)
       (simp add: ex_disj_distrib conj_disj_distribL conj_disj_distribR)
  from assign_all_or_nothing [OF policy_start rbac_refl, of "''u-r''" "[''p-2'', ''p-2'']", unfolded r prod.case sum.case edit]
  have "distinct out \<and> set (fetchPermissionStringsForRole ''u-r'' (w_db w')) = {''rbac:edit''}" by simp
  with r show ?thesis by blast
qed

text \<open>
  C21. A role with users that are not deleted cannot be removed, and nothing changes; a role
  without such users goes, with its assignments, and no user refers to it any more (while no INCR on the epoch fails).
\<close>

theorem role_removal:
  assumes "rbac_start E w0" and "rbac_run E w0 w" and "roleId \<in> r_id ` set (roles w)"
  shows "if \<exists>u \<in> set (users w). u_roleId u = Some roleId \<and> u_deletedAt u = None
    then \<exists>m. role_remove E roleId w = (Inl (Conflict m), w)
    else \<exists>w'. role_remove E roleId w = (Inr (), w') \<and> roleId \<notin> r_id ` set (roles w') \<and>
      roleId \<notin> rp_roleId ` set (rolePermissions w') \<and> (\<forall>u \<in> set (users w'). u_roleId u \<noteq> Some roleId) \<and>
      (\<forall>r. r \<noteq> roleId \<longrightarrow> set (fetchPermissionStringsForRole r (w_db w')) = set (fetchPermissionStringsForRole r (w_db w)))"
proof (cases "\<exists>u \<in> set (users w). u_roleId u = Some roleId \<and> u_deletedAt u = None")
  case True
  then have "affected (\<lambda>u. u_roleId u = Some roleId \<and> u_deletedAt u = None) (users w) \<noteq> 0"
    by (simp add: affected_0)
  with True assms(3) show ?thesis by (simp add: role_remove_def find_key_None Let_def)
next
  case False
  have inv: "rbac_inv E w" by (rule rbac_run_inv [OF assms(2) rbac_start_inv [OF assms(1)]])
  let ?w1 = "modify_db (cascade_role roleId) w"
  from invalidated_inv(2) [OF inv changed_cascades(3) [OF inv]] obtain v where
    v: "invalidateRoleCache E roleId ?w1 = (Inr (), v)" "w_db v = cascade_role roleId (w_db w)"
    by (metis modify_db_simps(1))
  have "affected (\<lambda>u. u_roleId u = Some roleId \<and> u_deletedAt u = None) (users w) = 0"
    using False by (simp add: affected_0)
  with v assms(3) have r: "role_remove E roleId w = (Inr (), v)"
    by (simp add: role_remove_def find_key_None Let_def andThen_def delete_role_def)
  have "set (fetchPermissionStringsForRole r (w_db v)) = set (fetchPermissionStringsForRole r (w_db w))" if "r \<noteq> roleId" for r
    using that by (auto simp: set_eq_iff in_fetch_iff v(2) cascade_role_def)
  moreover have "roleId \<notin> r_id ` set (roles v)" "roleId \<notin> rp_roleId ` set (rolePermissions v)"
    "\<forall>u \<in> set (users v). u_roleId u \<noteq> Some roleId"
    by (auto simp: v(2) cascade_role_def set_update_where)
  ultimately show ?thesis using False r by auto
qed

theorem role_removal_witness:
  "\<exists>m. role_remove demo_env ''u-r'' policy_world = (Inl (Conflict m), policy_world)"
  using role_removal [OF policy_start rbac_refl, of "''u-r''"]
  by (simp add: policy_db_def demo_db_def demo_user_def)

text \<open>
  Deleting a feature that exists always succeeds: its permissions and their assignments go with
  it, so no role is granted anything of it. The conflict that the call could report for a
  feature with assigned permissions does not occur.
\<close>

theorem feature_removal_cascades:
  assumes "rbac_start E w0" and "rbac_run E w0 w" and "f_id feature = fid" and "feature \<in> set (features w)"
  shows "\<exists>w'. feature_remove E fid w = (Inr (), w') \<and> fid \<notin> f_id ` set (features w') \<and>
    fid \<notin> p_featureId ` set (permissions w') \<and>
    (\<forall>roleId. set (fetchPermissionStringsForRole roleId (w_db w')) =
      {permission_string f p | rp p f. rp \<in> set (rolePermissions w) \<and> p \<in> set (permissions w) \<and>
        f \<in> set (features w) \<and> rp_roleId rp = roleId \<and> p_id p = rp_permissionId rp \<and>
        f_id f = p_featureId p \<and> f_id f \<noteq> fid})"
proof -
  have inv: "rbac_inv E w" by (rule rbac_run_inv [OF assms(2) rbac_start_inv [OF assms(1)]])
  then have pid: "distinct (map p_id (permissions w))" by (simp add: rbac_inv_def rbac_db_ok_defs)
  let ?w1 = "modify_db (cascade_feature fid) w"
  from invalidated_inv(1) [OF inv changed_cascades(1) [OF inv]] obtain v where
    v: "invalidateAllRoles E ?w1 = (Inr (), v)" "w_db v = cascade_feature fid (w_db w)"
    by (metis modify_db_simps(1))
  have "affected (\<lambda>f. f_id f = fid) (features w) \<noteq> 0" "find_row (\<lambda>f. f_id f = fid) (features w) \<noteq> None"
    using assms(3,4) by (auto simp: affected_0 find_row_None_iff)
  then have d: "delete_feature fid w = (Inr (affected (\<lambda>f. f_id f = fid) (features w)), ?w1)"
    by (auto simp: delete_feature_def)
  from safeDelete_cases(1) [where delete = "delete_feature fid", OF d \<open>affected _ _ \<noteq> 0\<close>] v(1)
  have r: "feature_remove E fid w = (Inr (), v)" by (simp add: feature_remove_def andThen_def)
  have kept: "i \<notin> p_id ` {q \<in> set (permissions w). p_featureId q = fid}"
    if "p \<in> set (permissions w)" "p_id p = i" "p_featureId p \<noteq> fid" for p i
    using pid that by (auto simp: distinct_map inj_on_def)
  have "set (fetchPermissionStringsForRole roleId (w_db v)) =
      {permission_string f p | rp p f. rp \<in> set (rolePermissions w) \<and> p \<in> set (permissions w) \<and>
        f \<in> set (features w) \<and> rp_roleId rp = roleId \<and> p_id p = rp_permissionId rp \<and>
        f_id f = p_featureId p \<and> f_id f \<noteq> fid}" for roleId
  proof (intro subset_antisym subsetI)
    fix x assume "x \<in> {permission_string f p | rp p f. rp \<in> set (rolePermissions w) \<and> p \<in> set (permissions w) \<and>
        f \<in> set (features w) \<and> rp_roleId rp = roleId \<and> p_id p = rp_permissionId rp \<and>
        f_id f = p_featureId p \<and> f_id f \<noteq> fid}"
    then obtain rp p f where "rp \<in> set (rolePermissions w)" "p \<in> set (permissions w)" "f \<in> set (features w)"
      "rp_roleId rp = roleId" "p_id p = rp_permissionId rp" "f_id f = p_featureId p" "f_id f \<noteq> fid"
      "x = permission_string f p" by blast
    with kept [of p "rp_permissionId rp"] show "x \<in> set (fetchPermissionStringsForRole roleId (w_db v))"
      unfolding v(2) in_fetch_iff
      by (intro bexI [of _ rp] bexI [of _ p] bexI [of _ f]) (auto simp: cascade_feature_def Let_def)
  qed (auto simp: v(2) in_fetch_iff cascade_feature_def Let_def)
  moreover have "fid \<notin> f_id ` set (features v)" "fid \<notin> p_featureId ` set (permissions v)"
    by (auto simp: v(2) cascade_feature_def Let_def)
  ultimately show ?thesis using r by blast
qed

theorem feature_removal_cascades_witness:
  "\<exists>w'. feature_remove demo_env ''f-1'' policy_world = (Inr (), w') \<and> ''f-1'' \<notin> f_id ` set (features w')"
  using feature_removal_cascades [OF policy_start rbac_refl, of "hd (features policy_world)" "''f-1''"]
  by (auto simp: policy_db_def)

text \<open>
  Creating a role: a taken name is reported as a conflict and nothing is written; otherwise
  the role is added with the given name, active unless the request says otherwise, and without
  permissions.
\<close>

theorem role_creation:
  assumes "rbac_start E w0" and "rbac_run E w0 w" and "cr_isActive dto \<noteq> Null"
  shows "if cr_name dto \<in> r_name ` set (roles w)
    then role_create E dto w = (Inl (Conflict (role_exists_message (cr_name dto))), w)
    else \<exists>role w'. role_create E dto w = (Inr role, w') \<and> roles w' = roles w @ [role] \<and>
      r_name role = cr_name dto \<and> r_isActive role = (cr_isActive dto \<noteq> Val False) \<and>
      r_id role \<notin> r_id ` set (roles w) \<and> granted (r_id role) (w_db w') = {}"
proof (cases "cr_name dto \<in> r_name ` set (roles w)")
  case False
  have inv: "rbac_inv E w" by (rule rbac_run_inv [OF assms(2) rbac_start_inv [OF assms(1)]])
  let ?row = "new_role dto (e_uuid E (w_fresh w)) (w_now w)"
  have new: "r_id ?row \<notin> r_id ` set (roles w)" using insert_fresh(5) [OF inv] by (simp add: new_role_def)
  moreover have "rp_roleId ` set (rolePermissions w) \<subseteq> r_id ` set (roles w)"
    using inv by (simp add: rbac_inv_def rbac_db_ok_def foreign_keys_def)
  ultimately have "\<forall>rp \<in> set (rolePermissions w). rp_roleId rp \<noteq> r_id ?row" by (metis imageI subsetD)
  then have "x \<notin> set (fetchPermissionStringsForRole (r_id ?row) ((w_db w)\<lparr>db_roles := roles w @ [?row]\<rparr>))" for x
    unfolding in_fetch_iff by simp
  then have "set (fetchPermissionStringsForRole (r_id ?row) ((w_db w)\<lparr>db_roles := roles w @ [?row]\<rparr>)) = {}"
    by (intro equals0I) simp
  then have "granted (r_id ?row) ((w_db w)\<lparr>db_roles := roles w @ [?row]\<rparr>) = {}"
    by (simp add: granted_def)
  moreover have "r_isActive ?row = (cr_isActive dto \<noteq> Val False)"
    using assms(3) by (cases "cr_isActive dto") (auto simp: new_role_def)
  ultimately show ?thesis
    using False new assms(3)
    by (auto simp: role_create_def find_key_None catching_def andThen_def genUuid_def insert_role_def new_role_def)
qed (simp add: role_create_def find_key_None)

theorem role_creation_witness:
  "role_create demo_env \<lparr>cr_name = ''Viewer'', cr_description = Null, cr_isActive = Undefined\<rparr> policy_world =
     (Inl (Conflict (role_exists_message ''Viewer'')), policy_world)"
  using role_creation [OF policy_start rbac_refl,
      of "\<lparr>cr_name = ''Viewer'', cr_description = Null, cr_isActive = Undefined\<rparr>"]
  by (simp add: policy_db_def demo_db_def)

text \<open>
  Deactivating a role has no effect on what it grants: an update of a role's name, description
  or \<open>isActive\<close> leaves the permission strings of every role as they were.
\<close>

theorem role_update_keeps_grants:
  assumes "rbac_start E w0" and "rbac_run E w0 w" and "role_update E rid dto w = (r, w')"
  shows "granted roleId (w_db w') = granted roleId (w_db w)"
proof -
  have inv: "rbac_inv E w" by (rule rbac_run_inv [OF assms(2) rbac_start_inv [OF assms(1)]])
  show ?thesis
  proof (cases "find_row (\<lambda>r. r_id r = rid) (roles w)")
    case None
    with assms(3) show ?thesis by (simp add: role_update_def role_findOne_def assertFound_def andThen_def)
  next
    case (Some role)
    then have "r_id (assign_role dto role) \<in> r_id ` set (roles w)"
      by (auto simp: assign_role_def dest: find_row_SomeD)
    note c = changed_save_role [OF inv this]
    obtain x w1 where s: "save_role (assign_role dto role) w = (x, w1)" by fastforce
    with save_role_same_grants [of w "assign_role dto role"] have "same_grants w w1" by simp
    moreover obtain v where "invalidateRoleCache E rid w1 = (Inr (), v)" "w_db v = w_db w1"
      using invalidated_inv(2) [OF inv c, of rid] s by auto
    ultimately have "same_grants w w'"
      using assms(3) Some s
      by (cases x) (auto simp: role_update_def role_findOne_def assertFound_def andThen_def catching_def
          same_grants_def split: if_splits)
    then show ?thesis by (simp add: granted_def same_grants_def)
  qed
qed

theorem role_update_keeps_grants_witness:
  "\<exists>w'. role_update demo_env ''u-r'' \<lparr>ur_name = Undefined, ur_description = Undefined, ur_isActive = Val False\<rparr>
       policy_world = (Inr (hd (roles w')), w') \<and> \<not> r_isActive (hd (roles w')) \<and>
     granted ''u-r'' (w_db w') = granted ''u-r'' policy_db"
proof -
  let ?u = "role_update demo_env ''u-r'' \<lparr>ur_name = Undefined, ur_description = Undefined, ur_isActive = Val False\<rparr> policy_world"
  have "fst ?u = Inr (hd (roles (snd ?u))) \<and> \<not> r_isActive (hd (roles (snd ?u)))" by code_simp
  moreover have "granted ''u-r'' (w_db (snd ?u)) = granted ''u-r'' policy_db"
    using role_update_keeps_grants [OF policy_start rbac_refl, of "''u-r''" _ "fst ?u" "snd ?u"] by simp
  ultimately show ?thesis by (metis prod.collapse)
qed

section \<open>A lost invalidation\<close>

text \<open>
  When INCR fails, the epoch is raised in this instance only, and the next check reads Redis' old
  epoch over it: the entry of before the mutation is trusted again.
\<close>

definition incr_outage :: "world \<Rightarrow> world" where
  "incr_outage w = w\<lparr>w_faults := (w_faults w)\<lparr>redisIncrFails := True\<rparr>\<rparr>"

lemma bump_in_outage:
  assumes "redisIncrFails (w_faults w)"
  shows "bumpGlobalEpoch E w = (Inr (w_invalidationEpoch w + 1), w\<lparr>w_invalidationEpoch := w_invalidationEpoch w + 1\<rparr>)"
  using assms by (simp add: bumpGlobalEpoch_def bump_local_def incrementRbacGlobalEpoch_def local_epoch_def
      set_local_epoch_def andThen_def catching_def)

lemma assign_in_outage:
  assumes "roleId \<in> r_id ` set (roles w)" and "set ids \<subseteq> p_id ` set (permissions w)"
  shows "\<exists>w1. assignPermissions E roleId ids (incr_outage w) = (Inr (js_unique ids), w1) \<and>
    w_cache w1 = w_cache w \<and> w_redisEpoch w1 = w_redisEpoch w \<and>
    w_db w1 = w_db (assigned E roleId (js_unique ids) (cleared roleId w))"
  using assms assign_ok [of roleId "incr_outage w" ids E]
  by (simp add: incr_outage_def andThen_def invalidateRoleCache_def bump_in_outage assigned_def cleared_def
      clearRoleCacheKey_def)

text \<open>
  C23. An invalidation can be lost. Let a role's set be cached at the shared epoch, in any state that
  administration and checks lead to, and let its permissions be replaced while INCR on the epoch
  fails: the call succeeds and the tables grant the new set, but once Redis answers, every check
  until the entry expires decides by what the role was granted before.
\<close>

theorem invalidation_lost_when_incr_fails:
  assumes "rbac_start E w0" and "rbac_run E w0 w"
    and "roleId \<in> r_id ` set (roles w)" and "set ids \<subseteq> p_id ` set (permissions w)"
    and "e_redisConfigured E" and "w_redisEpoch w = Some n"
    and "cache_get t (rolePermissionCacheKey roleId) (w_cache w) = Some (CPerms n ps)"
    and "\<not> redisReadFails f" and "\<not> cacheGetFails f (rolePermissionCacheKey roleId)"
  shows "\<exists>w1. assignPermissions E roleId ids (incr_outage w) = (Inr (js_unique ids), w1) \<and>
    set (fetchPermissionStringsForRole roleId (w_db w1)) = {permission_string q p | p q.
      p \<in> set (permissions w) \<and> q \<in> set (features w) \<and> p_id p \<in> set ids \<and> f_id q = p_featureId p} \<and>
    fst (checkPermissions E roleId req (w1\<lparr>w_faults := f, w_now := t\<rparr>)) = Inr (roleId \<noteq> [] \<and> req \<noteq> [] \<and>
      set req \<subseteq> set (fetchPermissionStringsForRole roleId (w_db w)))"
proof -
  have inv: "rbac_inv E w" by (rule rbac_run_inv [OF assms(2) rbac_start_inv [OF assms(1)]])
  obtain w1 where w1: "assignPermissions E roleId ids (incr_outage w) = (Inr (js_unique ids), w1)"
    "w_cache w1 = w_cache w" "w_redisEpoch w1 = w_redisEpoch w"
    "w_db w1 = w_db (assigned E roleId (js_unique ids) (cleared roleId w))"
    using assign_in_outage [OF assms(3,4), of E] by blast
  have "set (fetchPermissionStringsForRole roleId (w_db w1)) = {permission_string q p | p q.
      p \<in> set (permissions w) \<and> q \<in> set (features w) \<and> p_id p \<in> set ids \<and> f_id q = p_featureId p}"
    unfolding w1(4) using grants_assigned [of "js_unique ids" roleId E roleId w] by simp
  moreover have "set ps = set (fetchPermissionStringsForRole roleId (w_db w))"
  proof -
    obtain x where "w_cache w (rolePermissionCacheKey roleId) = Some (CPerms n ps, x)"
      using assms(7) by (auto simp: cache_get_def split: option.splits prod.splits if_splits)
    moreover have "shared_epoch E w = n" using assms(5,6) by (simp add: shared_epoch_def)
    ultimately show ?thesis using inv by (auto simp: rbac_inv_def coherent_def entries_ok_def)
  qed
  moreover
  have "trusted_set E roleId (w1\<lparr>w_faults := f, w_now := t\<rparr>) = Some ps"
    using assms(5-9) w1(2,3) by (simp add: trusted_set_def current_epoch_def)
  then have "fst (checkPermissions E roleId req (w1\<lparr>w_faults := f, w_now := t\<rparr>)) =
      Inr (roleId \<noteq> [] \<and> req \<noteq> [] \<and> set req \<subseteq> set ps)"
    using check_decides [of E roleId req "w1\<lparr>w_faults := f, w_now := t\<rparr>"] by auto
  ultimately show ?thesis using w1(1) by simp
qed

text \<open>A check caches Viewer's \<open>rbac:view\<close>; then the role is given the other permission instead.\<close>

definition shared_epoch_world :: world where
  "shared_epoch_world = policy_world\<lparr>w_redisEpoch := Some 1\<rparr>"

definition cached_world :: world where
  "cached_world = snd (checkPermissions demo_env ''u-r'' [''rbac:view''] shared_epoch_world)"

theorem invalidation_lost_when_incr_fails_witness:
  "\<exists>w1. assignPermissions demo_env ''u-r'' [''p-2''] (incr_outage cached_world) = (Inr [''p-2''], w1) \<and>
     fst (checkPermissions demo_env ''u-r'' [''rbac:view''] (w1\<lparr>w_faults := no_faults, w_now := 1000000\<rparr>)) = Inr True"
proof -
  have start: "rbac_start demo_env shared_epoch_world"
    using policy_start by (simp add: rbac_start_def shared_epoch_world_def epoch_ok_def fresh_ids_def)
  have run: "rbac_run demo_env shared_epoch_world cached_world"
    unfolding cached_world_def by (rule rbac_more [OF rbac_refl check_step])
  have facts: "map r_id (roles cached_world) = [''u-r'']" "map p_id (permissions cached_world) = [''p-1'', ''p-2'']"
    "w_redisEpoch cached_world = Some 1" "js_unique [''p-2''] = [''p-2'']"
    "cache_get 1000000 (rolePermissionCacheKey ''u-r'') (w_cache cached_world) = Some (CPerms 1 [''rbac:view''])"
    "fetchPermissionStringsForRole ''u-r'' (w_db cached_world) = [''rbac:view'']" "e_redisConfigured demo_env"
    by code_simp+
  have "''u-r'' \<in> r_id ` set (roles cached_world)" "set [''p-2''] \<subseteq> p_id ` set (permissions cached_world)"
    using facts(1,2) by (metis list.set_intros(1) list.set_map, metis list.set_map list.set_intros empty_subsetI insert_subset list.simps(15) set_empty)
  from invalidation_lost_when_incr_fails [OF start run this facts(7,3,5), of no_faults "[''rbac:view'']"] facts(4,6)
  show ?thesis by (auto simp: no_faults_def)
qed

end
