(* ===== verification/Endpoint_Properties.thy ===== *)
theory Endpoint_Properties
  imports Endpoint_Audit Rbac_Properties
begin

text \<open>
  What the composition of middleware, guards, interceptor and handlers guarantees of every
  request: who can change anything, and what is recorded of it.
\<close>

section \<open>Who can change anything\<close>

text \<open>The endpoints that act on the caller's own account and require no permission.\<close>

fun own_account :: "endpoint \<Rightarrow> bool" where
  "own_account (Auth (Logout _)) = True"
| "own_account (Auth LogoutAll) = True"
| "own_account (Auth ListSessions) = True"
| "own_account (Auth (ChangePassword _ _)) = True"
| "own_account _ = False"

lemma route_cases:
  "rt_public (route_of ep) \<or> own_account ep \<or>
     (\<exists>perm. rt_permissions (route_of ep) = Some [perm] \<and> rt_permissionGuard (route_of ep))"
proof (cases ep)
  case (App a) then show ?thesis by (cases a) (simp add: public_route_def)
next
  case (Health h) then show ?thesis by (cases h) (simp_all add: public_route_def)
next
  case (Auth a) then show ?thesis by (cases a) (simp_all add: public_route_def)
next
  case (Features f) then show ?thesis by (cases f) (simp_all add: RbacEndpoint_def)
next
  case (Permissions p) then show ?thesis by (cases p) (simp_all add: RbacEndpoint_def)
next
  case (Roles r) then show ?thesis by (cases r) (simp_all add: RbacEndpoint_def)
next
  case (Users u) then show ?thesis by (cases u) (simp add: RbacEndpoint_def)
qed

lemma public_cases:
  assumes "rt_public (route_of ep)"
  obtains a where "ep = App a" | h where "ep = Health h"
  | email pw where "ep = Auth (Login email pw)" | tok where "ep = Auth (Refresh tok)"
proof (cases ep)
  case (Auth a)
  with assms that show ?thesis by (cases a) (simp_all add: login_route_def)
next
  case (Features f) with assms show ?thesis by (cases f) (simp_all add: RbacEndpoint_def)
next
  case (Permissions p) with assms show ?thesis by (cases p) (simp_all add: RbacEndpoint_def)
next
  case (Roles r) with assms show ?thesis by (cases r) (simp_all add: RbacEndpoint_def)
next
  case (Users u) with assms show ?thesis by (cases u) (simp add: RbacEndpoint_def)
qed (use that in blast)+

text \<open>The public endpoints other than login and refresh change nothing.\<close>

lemma app_health_quiet:
  "snd (andThen (validationPipe S (App a)) (\<lambda>_. handle E S req user (App a)) w) = w"
  "snd (andThen (validationPipe S (Health h)) (\<lambda>_. handle E S req user (Health h)) w) = w"
  by (cases a, simp add: validationPipe_def)
     (cases h, simp_all add: validationPipe_def split: sum.splits)

lemma middleware_cache:
  "correlationId_use E req w = (Inr x, w1) \<Longrightarrow> w_cache w1 = w_cache w"
  by (auto simp: correlationId_use_def andThen_def genUuid_def rc_run_def split: if_splits)

lemma guard_view_eqs:
  assumes "guard_view w' = guard_view w"
  shows "w_now w' = w_now w \<and> w_faults w' = w_faults w \<and> w_db w' = w_db w \<and> w_queue w' = w_queue w"
  using assms by (simp add: guard_view_def)

text \<open>
  C28. No request changes a row unless it is a login, a refresh, or one with an accepted access
  token: unexpired, not denylisted, of an active, unlocked user who is its subject. Unless it
  acts on the caller's own account, the endpoint then requires one permission and the tables
  grant it to the user's role. Every other request leaves all tables as they are.
\<close>

theorem changes_are_authorized:
  assumes "rbac_ready E w" and "user_cache_ok w"
    and "serve E S req bearer ep w = (r, w')" and "w_db w' \<noteq> w_db w"
  shows "(\<exists>email pw. ep = Auth (Login email pw)) \<or> (\<exists>tok. ep = Auth (Refresh tok)) \<or>
    (\<exists>tok p u. bearer = Some tok \<and> e_verify E tok (w_now w) = Some p \<and> jp_tokenType p = ''access'' \<and>
       (\<forall>j. jp_jti p = Some j \<and> j \<noteq> [] \<longrightarrow> \<not> truthy_cached (cache_get (w_now w) (jti_key j) (w_cache w))) \<and>
       u_id u = jp_sub p \<and> u_isActive u \<and> \<not> locked_at (w_now w) u \<and>
       (own_account ep \<or> (\<exists>perm roleId. rt_permissions (route_of ep) = Some [perm] \<and>
          u_roleId u = Some roleId \<and> perm \<in> granted roleId (w_db w))))"
  using assms(3)
proof (cases rule: serveE)
  case (refused e)
  with assms(4) guard_view_eqs [OF refused(2)] show ?thesis by simp
next
  case (served req' cid w1 user w2)
  note w1 = guard_view_eqs [OF served(4) [unfolded rbac_view_def prod.inject, THEN conjunct1]]
  note w2 = guard_view_eqs [OF served(5)]
  note cache = middleware_cache [OF served(1)]
  show ?thesis
  proof (cases "rt_public (route_of ep)")
    case True
    then show ?thesis
    proof (cases rule: public_cases)
      case (1 a)
      have "rt_auditable (route_of ep) = None" by (cases a) (simp add: 1 public_route_def)
      with served(3) app_health_quiet(1) [of S a E req' user w2] 1 w2 assms(4) show ?thesis
        by (metis intercept_None snd_conv)
    next
      case (2 h)
      have "rt_auditable (route_of ep) = None" by (cases h) (simp_all add: 2 public_route_def)
      with served(3) app_health_quiet(2) [of S h E req' user w2] 2 w2 assms(4) show ?thesis
        by (metis intercept_None snd_conv)
    qed auto
  next
    case False
    obtain tok p u w3 where tok: "bearer = Some tok" "e_verify E tok (w_now w1) = Some p"
      and v: "validate p w1 = (Inr (u, jp_jti p), w3)"
      and g: "rt_permissionGuard (route_of ep) \<Longrightarrow>
        permission_canActivate E (rt_permissions (route_of ep)) (Some u) w3 = (Inr True, w2)"
      using authorizeE [OF served(2) False] by metis
    from v obtain w4 where c: "check_denylist (jp_jti p) w1 = (Inr (), w1)"
      "load_user (jp_sub p) w1 = (Inr u, w4)" "jp_tokenType p = ''access''" by (rule validateE)
    have "user_cache_ok w1" using assms(2) cache by (simp add: user_cache_ok_def)
    from load_user_sound [OF this c(2)] validated_user [OF v] check_denylist_ok [OF c(1)] w1 cache
    have user: "u_id u = jp_sub p" "u_isActive u" "\<not> locked_at (w_now w) u"
      "\<forall>j. jp_jti p = Some j \<and> j \<noteq> [] \<longrightarrow> \<not> truthy_cached (cache_get (w_now w) (jti_key j) (w_cache w))"
      by auto
    have "own_account ep \<or> (\<exists>perm roleId. rt_permissions (route_of ep) = Some [perm] \<and>
        u_roleId u = Some roleId \<and> perm \<in> granted roleId (w_db w))"
    proof (cases "own_account ep")
      case own: False
      with False route_cases [of ep] obtain perm where perm: "rt_permissions (route_of ep) = Some [perm]"
        "rt_permissionGuard (route_of ep)" by blast
      have view3: "rbac_view w3 = rbac_view w"
        using preservesD [OF preserves_validate served(4) v] by simp
      with assms(1) have ready: "rbac_ready E w3" by (simp add: rbac_ready_view [OF view3])
      from view3 have "w_db w3 = w_db w" by (simp add: rbac_view_def guard_view_def)
      with permission_guard_granted [OF ready g [OF perm(2), unfolded perm(1)]] perm show ?thesis by simp
    qed simp
    with tok user c(3) w1 show ?thesis
      by (intro disjI2 exI [of _ tok] exI [of _ p] exI [of _ u]) simp
  qed
qed

section \<open>A request of the demo world\<close>

text \<open>A site that accepts everything, and the access token of the user ana.\<close>

definition demo_site :: "nat site" where
  "demo_site = \<lparr>st_isEmail = (\<lambda>_. True), st_isUUID = (\<lambda>_. True), st_isUUID4 = (\<lambda>_. True),
     st_collation = length, st_lower = (\<lambda>c. c), st_readiness = Inr []\<rparr>"

definition ana_token :: string where
  "ana_token = demo_sign \<lparr>jp_sub = ''u-a'', jp_email = ''ana'', jp_roleId = Some ''u-r'',
     jp_tokenType = ''access'', jp_jti = Some ''u-j''\<rparr> 900 1000000"

definition demo_request :: request where
  "demo_request = \<lparr>rq_ip = Some ''::1'', rq_remoteAddress = None, rq_userAgentHeader = None,
     rq_correlationHeader = Some ''u-corr'', rq_id = None, rq_correlationId = None, rq_body = []\<rparr>"

text \<open>The Viewer role, granted the right to delete roles.\<close>

definition deleting_world :: world where
  "deleting_world = policy_world\<lparr>w_db := policy_db\<lparr>
     db_permissions := [\<lparr>p_id = ''p-1'', p_featureId = ''f-1'', p_action = ''delete'', p_name = ''d'',
        p_description = None, p_createdAt = 0, p_updatedAt = 0\<rparr>],
     db_roles := [\<lparr>r_id = ''u-r'', r_name = ''Viewer'', r_description = None, r_isActive = True,
        r_createdAt = 0, r_updatedAt = 0\<rparr>,
       \<lparr>r_id = ''u-old'', r_name = ''Old'', r_description = None, r_isActive = True,
        r_createdAt = 0, r_updatedAt = 0\<rparr>]\<rparr>, w_queue := Some []\<rparr>"

definition demo_deletion :: "(http_error + json) \<times> world" where
  "demo_deletion = serve demo_env demo_site demo_request (Some ana_token) (Roles (RemoveRole ''u-old'')) deleting_world"

lemma demo_deletion_facts:
  "fst demo_deletion = Inr JUndefined"
  "map r_id (roles (snd demo_deletion)) = [''u-r'']"
  "map r_id (roles deleting_world) = [''u-r'', ''u-old'']"
  by code_simp+

lemma deleting_ready: "rbac_ready demo_env deleting_world" "user_cache_ok deleting_world"
  by (simp_all add: rbac_ready_def coherent_def entries_ok_def epoch_ok_def epoch_readable_def
      deleting_world_def policy_world_def demo_world_def no_faults_def user_cache_ok_def cached_users_def)

theorem changes_are_authorized_witness:
  "\<exists>tok p (u :: user). Some ana_token = Some tok \<and> e_verify demo_env tok 1000000 = Some p \<and> u_id u = jp_sub p \<and>
     (\<exists>perm roleId. rt_permissions (route_of (Roles (RemoveRole ''u-old''))) = Some [perm] \<and>
        u_roleId u = Some roleId \<and> perm \<in> granted roleId (w_db deleting_world))"
proof -
  have eq: "serve demo_env demo_site demo_request (Some ana_token) (Roles (RemoveRole ''u-old'')) deleting_world =
      (fst demo_deletion, snd demo_deletion)" by (simp add: demo_deletion_def)
  have "w_db (snd demo_deletion) \<noteq> w_db deleting_world" using demo_deletion_facts(2,3) by auto
  moreover have "w_now deleting_world = 1000000"
    by (simp add: deleting_world_def policy_world_def demo_world_def)
  ultimately show ?thesis
    using changes_are_authorized [OF deleting_ready eq]
    by (auto simp del: route_of.simps simp: RbacEndpoint_def)
qed

section \<open>What is recorded\<close>

text \<open>The id the request is given: the client's, or the next uuid.\<close>

definition request_id :: "env \<Rightarrow> request \<Rightarrow> world \<Rightarrow> string" where
  "request_id E req w =
     (if truthy (rq_correlationHeader req) then the (rq_correlationHeader req) else e_uuid E (w_fresh w))"

lemma middleware_effect:
  assumes "correlationId_use E req w = (Inr (req', cid), w1)"
  shows "cid = request_id E req w \<and> rq_id req' = Some cid \<and> w_queue w1 = w_queue w \<and>
    w_faults w1 = w_faults w \<and> w_cache w1 = w_cache w \<and>
    w_ctx w1 = Some \<lparr>rc_correlationId = cid, rc_userId = None\<rparr>"
  using assms
  by (auto simp: correlationId_use_def andThen_def genUuid_def rc_run_def request_id_def split: if_splits)

lemma validate_inputs:
  assumes "validate p w = (Inr (u, j), w')" and "w_ctx w = Some d"
  shows "audit_inputs w' = (w_queue w, w_faults w, Some (d\<lparr>rc_userId := Some (u_id u)\<rparr>))"
proof -
  from assms(1) obtain w1 where l: "load_user (jp_sub p) w = (Inr u, w1)" and w': "w' = rc_setUser (u_id u) w1"
    by (rule validateE)
  from l have "audit_inputs w1 = audit_inputs w"
    by (auto simp: load_user_def andThen_def cacheGet_def cacheSet_def audit_inputs_def
        split: if_splits option.splits)
  with assms(2) w' show ?thesis by (simp add: audit_inputs_def rc_setUser_def)
qed

text \<open>What the audited endpoints give the interceptor to name the entity with.\<close>

fun recorded_entity :: "endpoint \<Rightarrow> json \<Rightarrow> string \<Rightarrow> uuid \<Rightarrow> string option" where
  "recorded_entity (Roles (RemoveRole i)) v cid self = Some cid"
| "recorded_entity (Roles (AssignPermissions i ids)) v cid self = Some cid"
| "recorded_entity (Roles (UpdateRole i dto)) v cid self = Some i"
| "recorded_entity (Users (SetUserActive i b)) v cid self = Some i"
| "recorded_entity (Auth (ChangePassword a b)) v cid self = Some self"
| "recorded_entity (Auth (Register dto)) v cid self = as_string (js_property ''userId'' v)"
| "recorded_entity ep v cid self = as_string (js_property ''id'' v)"

lemma changePassword_gives_uid: "changePassword E i a b w = (Inr x, w') \<Longrightarrow> x = i"
  by (auto simp: changePassword_def andThen_def split: option.splits prod.splits sum.splits if_splits)

lemma setUserActive_gives_uid: "setUserActive i b w = (Inr x, w') \<Longrightarrow> x = (i, b)"
  by (auto simp: setUserActive_def andThen_def split: option.splits prod.splits sum.splits if_splits)

lemma giving_Inr:
  "giving f m w = (Inr v, w') \<longleftrightarrow> (\<exists>x. m w = (Inr x, w') \<and> v = f x)"
  by (auto simp: giving_def andThen_def split: prod.splits sum.splits)

lemma saved_role_id: "save_role ro w = (Inr x, w') \<Longrightarrow> r_id x = r_id ro"
  by (auto simp: save_role_def Let_def split: if_splits)

lemma role_findOne_id: "role_findOne i w = (Inr (ro, as), w') \<Longrightarrow> r_id ro = i"
  by (auto simp: role_findOne_def assertFound_def find_row_def find_Some_iff split: option.splits)

lemma role_update_gives_id:
  assumes "role_update E i dto w = (Inr x, w')"
  shows "r_id x = i"
proof -
  obtain ro as w1 where f: "role_findOne i w = (Inr (ro, as), w1)"
    using assms by (cases "role_findOne i w") (auto simp: role_update_def andThen_def split: sum.splits)
  have "r_id (assign_role dto ro) = i" using role_findOne_id [OF f] by (simp add: assign_role_def)
  then have "r_id y = i" if "save_role (assign_role dto ro) v = (Inr y, v')" for y v v'
    using saved_role_id [OF that] by simp
  with assms f show ?thesis
    by (auto simp: role_update_def andThen_def catching_def split: prod.splits sum.splits if_splits)
qed

lemma entity_recorded:
  assumes "rt_auditable (route_of ep) = Some opts" and "handle E S req' (Some (u, j)) ep w = (Inr v, w')"
    and "rq_id req' = Some cid"
  shows "resolveEntityId (http_args req') opts v = recorded_entity ep v cid (u_id u)"
proof (cases ep)
  case (App a) with assms(1) show ?thesis by (cases a) (simp add: public_route_def)
next
  case (Health h) with assms(1) show ?thesis by (cases h) (simp_all add: public_route_def)
next
  case (Auth a)
  with assms show ?thesis
    by (cases a) (auto simp: public_route_def login_route_def giving_Inr Auditable_def resolveEntityId_def
        id_from_result_def split: prod.splits dest: changePassword_gives_uid)
next
  case (Features f) with assms(1) show ?thesis by (cases f) (simp_all add: RbacEndpoint_def)
next
  case (Permissions p) with assms(1) show ?thesis by (cases p) (simp_all add: RbacEndpoint_def)
next
  case (Roles r)
  with assms show ?thesis
    by (cases r) (auto simp: RbacEndpoint_def giving_Inr Auditable_def resolveEntityId_def id_from_result_def
        own_id_def id_from_args_def http_args_def role_object_def dest: role_update_gives_id)
next
  case (Users user)
  with assms show ?thesis
    by (cases user) (auto simp: RbacEndpoint_def giving_Inr Auditable_def resolveEntityId_def
        id_from_result_def own_id_def dest: setUserActive_gives_uid)
qed

text \<open>
  C29. Every request that succeeds on an audited endpoint leaves exactly one job on the audit queue,
  with the action and the entity type of the endpoint, the subject of the access token as the
  actor, and the request's correlation id. The entity is the one the endpoint changed, except
  that deleting a role and assigning permissions record the correlation id in its place.
\<close>

theorem audited_requests_recorded:
  assumes "serve E S req bearer ep w = (Inr v, w')" and "rt_auditable (route_of ep) = Some opts"
    and "w_queue w = Some jobs" and "\<not> auditQueueFails (w_faults w)" and "user_cache_ok w"
  shows "\<exists>tok p job. bearer = Some tok \<and> e_verify E tok (w_now w) = Some p \<and>
    w_queue w' = Some (jobs @ [job]) \<and> ap_action job = ao_action opts \<and>
    ap_entityType job = ao_entityType opts \<and> ap_actorUserId job = Val (jp_sub p) \<and>
    ap_correlationId job = Val (request_id E req w) \<and>
    ap_entityId job = recorded_entity ep v (request_id E req w) (jp_sub p)"
  using assms(1)
proof (cases rule: serveE)
  case (served req' cid w1 user w2)
  have "\<not> rt_public (route_of ep)"
  proof
    assume "rt_public (route_of ep)"
    then show False
    proof (cases rule: public_cases)
      case (1 a) with assms(2) show ?thesis by (cases a) (simp add: public_route_def)
    next
      case (2 h) with assms(2) show ?thesis by (cases h) (simp_all add: public_route_def)
    qed (use assms(2) in \<open>simp_all add: public_route_def\<close>)
  qed
  then obtain tok p u w3 where tok: "bearer = Some tok" "e_verify E tok (w_now w1) = Some p"
    and v: "validate p w1 = (Inr (u, jp_jti p), w3)" and user: "user = Some (u, jp_jti p)"
    and g: "rt_permissionGuard (route_of ep) \<Longrightarrow>
      permission_canActivate E (rt_permissions (route_of ep)) (Some u) w3 = (Inr True, w2)"
    and ng: "\<not> rt_permissionGuard (route_of ep) \<Longrightarrow> w2 = w3"
    using authorizeE [OF served(2)] by metis
  note m = middleware_effect [OF served(1)]
  note now = guard_view_eqs [OF served(4) [unfolded rbac_view_def prod.inject, THEN conjunct1], THEN conjunct1]
  have in3: "audit_inputs w3 = (Some jobs, w_faults w, Some \<lparr>rc_correlationId = cid, rc_userId = Some (u_id u)\<rparr>)"
    using validate_inputs [OF v] m assms(3) by simp
  have in2: "audit_inputs w2 = audit_inputs w3"
    using keeps_inputsD [OF keeps_inputs_permission_guard g] ng
    by (cases "rt_permissionGuard (route_of ep)") simp_all
  have sub: "u_id u = jp_sub p"
  proof -
    from v obtain w4 where "load_user (jp_sub p) w1 = (Inr u, w4)" by (rule validateE)
    moreover have "user_cache_ok w1" using assms(5) m by (simp add: user_cache_ok_def)
    ultimately show ?thesis using load_user_sound by blast
  qed
  let ?body = "andThen (validationPipe S ep) (\<lambda>_. handle E S req' user ep)"
  obtain r w4 where body: "?body w2 = (r, w4)" by fastforce
  from served(3) assms(2) body obtain x where r: "r = Inr x"
    by (cases r) (simp_all add: intercept_error)
  from served(3) [unfolded assms(2)] intercept_success [of ?body w2 x w4 E req' opts] body r
  have vx: "x = v" and w': "w' = snd (auditLog E (interceptor_entry req' opts v) w4)" by auto
  have in4: "audit_inputs w4 = audit_inputs w3"
    using keeps_inputsD [OF keeps_inputs_audited [OF assms(2)] body] in2 by simp
  with in3 have q: "w_queue w4 = Some jobs" "\<not> auditQueueFails (w_faults w4)"
    "w_ctx w4 = Some \<lparr>rc_correlationId = cid, rc_userId = Some (u_id u)\<rparr>"
    using assms(4) by (auto simp: audit_inputs_def)
  have "handle E S req' (Some (u, jp_jti p)) ep w2 = (Inr v, w4)"
    using body r vx user by (auto simp: validationPipe_def split: if_splits)
  from entity_recorded [OF assms(2) this] m
  have ent: "resolveEntityId (http_args req') opts v = recorded_entity ep v cid (u_id u)" by simp
  have "w_queue w' = Some (jobs @ [buildPayload (interceptor_entry req' opts v) w4])"
    using w' q by (simp add: auditLog_def catching_def queue_add_def Let_def)
  with tok now ent sub m q show ?thesis
    by (intro exI [of _ tok] exI [of _ p] exI [of _ "buildPayload (interceptor_entry req' opts v) w4"])
       (simp add: buildPayload_def interceptor_entry_def rc_getUserId_def rc_getCorrelationId_def
         opt_or_undefined_def opt_or_null_def)
qed simp

theorem audited_requests_recorded_witness:
  "\<exists>job. w_queue (snd demo_deletion) = Some [job] \<and> ap_action job = ''role.delete'' \<and>
     ap_actorUserId job = Val ''u-a'' \<and> ap_entityId job = Some ''u-corr''"
proof -
  have eq: "serve demo_env demo_site demo_request (Some ana_token) (Roles (RemoveRole ''u-old'')) deleting_world =
      (Inr JUndefined, snd demo_deletion)"
    using demo_deletion_facts(1) by (simp add: demo_deletion_def prod_eq_iff)
  have "map_option jp_sub (e_verify demo_env ana_token 1000000) = Some ''u-a''" by code_simp
  then have "e_verify demo_env ana_token 1000000 = Some p \<Longrightarrow> jp_sub p = ''u-a''" for p by simp
  then show ?thesis
    using audited_requests_recorded [OF eq, of "Auditable ''role.delete'' ''Role'' (Some (Inl 0)) None" "[]"]
      deleting_ready(2)
    by (auto simp: RbacEndpoint_def Auditable_def deleting_world_def policy_world_def demo_world_def
        no_faults_def request_id_def demo_request_def)
qed

end
