(* ===== verification/Throttling_Properties.thy ===== *)
theory Throttling_Properties
  imports Throttling Endpoint_Properties
begin

text \<open>What the rate limits come to, and what becomes of a request that they refuse.\<close>

section \<open>Limits\<close>

lemma login_handler: "handler_of ep = (''AuthController'', ''login'') \<longleftrightarrow> (\<exists>e p. ep = Auth (Login e p))"
proof (cases ep)
  case (Auth a)
  then show ?thesis by (cases a) simp_all
qed simp_all

lemma other_throttle: "handler_of ep \<noteq> (''AuthController'', ''login'') \<Longrightarrow> throttle_of ep = \<lparr>tr_skip = [], tr_throttle = []\<rparr>"
proof (cases ep)
  case (Auth a)
  then show "handler_of ep \<noteq> (''AuthController'', ''login'') \<Longrightarrow> ?thesis" by (cases a) simp_all
qed simp_all

lemma throttle_config:
  assumes "th \<in> set throttlers"
  shows "limit_for th v = th_limit th" "ttl_for th v = 60000"
proof -
  have "limit_for th v = th_limit th \<and> ttl_for th v = 60000"
  proof (cases "handler_of (vt_endpoint v) = (''AuthController'', ''login'')")
    case True
    with assms show ?thesis by (auto simp: login_handler throttlers_def limit_for_def ttl_for_def)
  next
    case False
    from other_throttle [OF this] assms show ?thesis by (auto simp: throttlers_def limit_for_def ttl_for_def)
  qed
  then show "limit_for th v = th_limit th" "ttl_for th v = 60000" by simp_all
qed

text \<open>The longest of two counts has the larger interval.\<close>

lemma counted_le:
  assumes "\<And>v p. (v, p) \<in> set past \<Longrightarrow> t0 < vt_at v \<Longrightarrow> vt_at v \<le> t1 \<Longrightarrow> s0 < vt_at v \<and> vt_at v \<le> s1"
  shows "counted dk th k t0 t1 past \<le> counted dk th k s0 s1 past"
  using assms unfolding counted_def
  by (induction past) (fastforce simp: le_Suc_eq)+

definition within_limits :: "key_maker \<Rightarrow> (visit \<times> bool) list \<Rightarrow> bool" where
  "within_limits dk past \<longleftrightarrow> (\<forall>th \<in> set throttlers. \<forall>k t. counted dk th k (t - 60000) t past \<le> th_limit th)"

text \<open>One more visit, later than all before.\<close>

lemma visit_within_limits:
  assumes "guard_ok G dk" "within_limits dk past" "\<forall>p \<in> set past. vt_at (fst p) \<le> vt_at v"
  shows "within_limits dk (past @ [(v, G throttlers past v = Inr True)])"
  unfolding within_limits_def
proof (intro ballI allI)
  fix th k t assume th: "th \<in> set throttlers"
  let ?new = "[(v, G throttlers past v = Inr True)]"
  have split: "counted dk th k (t - 60000) t (past @ ?new) =
      counted dk th k (t - 60000) t past + counted dk th k (t - 60000) t ?new"
    by (simp add: counted_def)
  show "counted dk th k (t - 60000) t (past @ ?new) \<le> th_limit th"
  proof (cases "counted dk th k (t - 60000) t ?new = 0")
    case True
    with assms(2) th split show ?thesis by (simp add: within_limits_def)
  next
    case False
    then have v: "G throttlers past v = Inr True" "\<not> skipped th v" "key_of dk th v = Inr k" "t - 60000 < vt_at v" "vt_at v \<le> t"
      and one: "counted dk th k (t - 60000) t ?new = 1"
      by (auto simp: counted_def split: if_splits)
    from assms(1) v(1-3) th have "counted dk th k (vt_at v - ttl_for th v) (vt_at v) past < limit_for th v"
      unfolding guard_ok_def by fastforce
    moreover have "counted dk th k (t - 60000) t past \<le> counted dk th k (vt_at v - 60000) (vt_at v) past"
      using assms(3) v(4,5) by (intro counted_le) auto
    ultimately show ?thesis using split one throttle_config [OF th] by simp
  qed
qed

lemma visits_within_limits:
  assumes "guard_ok G dk"
  shows "within_limits dk past \<Longrightarrow> sorted (map vt_at vs) \<Longrightarrow>
    \<forall>p \<in> set past. \<forall>v \<in> set vs. vt_at (fst p) \<le> vt_at v \<Longrightarrow> within_limits dk (visits G past vs)"
proof (induction vs arbitrary: past)
  case (Cons v vs)
  from Cons.prems visit_within_limits [OF assms Cons.prems(1)] show ?case
    by (simp, intro Cons.IH) auto
qed simp

abbreviation login_throttler :: throttler where
  "login_throttler \<equiv> \<lparr>th_name = ''login'', th_ttl = 60000, th_limit = 10\<rparr>"

text \<open>Under which key the throttler \<open>login\<close> counts.\<close>

lemma default_key_counts:
  assumes "handler_of (vt_endpoint v) \<noteq> (''AuthController'', ''login'')"
  shows "\<not> skipped login_throttler v \<and>
    key_of dk login_throttler v = Inr (dk (handler_of (vt_endpoint v)) ''login'' (vt_req v))"
  by (simp add: other_throttle [OF assms] skipped_def key_of_def)

lemma login_key_counts:
  assumes "handler_of (vt_endpoint v) = (''AuthController'', ''login'')"
    and "map_of (rq_body (vt_req v)) ''email'' = Some (JStr e)" "toLowerCase e = toLowerCase email"
  shows "\<not> skipped login_throttler v \<and>
    key_of dk login_throttler v = Inr (buildLoginThrottleKey (Some (getClientIp (vt_req v))) (Some email))"
proof -
  from assms(1) obtain em p where "vt_endpoint v = Auth (Login em p)" unfolding login_handler by blast
  with assms(2) throttle_key_case_insensitive [OF assms(3)] show ?thesis
    by (simp add: skipped_def key_of_def login_key_def)
qed

lemma counted_covers:
  assumes "\<And>v. P v \<Longrightarrow> \<not> skipped th v \<and> key_of dk th v = Inr k \<and> t0 < vt_at v \<and> vt_at v \<le> t1"
  shows "length (filter (\<lambda>(v, passed). passed \<and> P v) past) \<le> counted dk th k t0 t1 past"
  using assms unfolding counted_def by (induction past) (auto simp: le_SucI)

text \<open>
  C31. In any minute at most ten requests of a client (by the key the library makes of it) to one
  handler pass the guard, and at most ten logins of a client to one account, in whatever
  letters the address is written. (The limit of a hundred is never the one that counts: the throttler
  \<open>login\<close> applies to every handler, for none skips it.)
\<close>

theorem requests_limited:
  assumes "guard_ok G dk" "sorted (map vt_at vs)"
  shows "(h \<noteq> (''AuthController'', ''login'') \<longrightarrow> length (filter (\<lambda>(v, passed). passed \<and> handler_of (vt_endpoint v) = h \<and>
      dk h ''login'' (vt_req v) = k \<and> t - 60000 < vt_at v \<and> vt_at v \<le> t) (visits G [] vs)) \<le> 10) \<and>
    length (filter (\<lambda>(v, passed). passed \<and> handler_of (vt_endpoint v) = (''AuthController'', ''login'') \<and>
      getClientIp (vt_req v) = ip \<and> (\<exists>e. map_of (rq_body (vt_req v)) ''email'' = Some (JStr e) \<and>
        toLowerCase e = toLowerCase email) \<and> t - 60000 < vt_at v \<and> vt_at v \<le> t) (visits G [] vs)) \<le> 10"
proof -
  have "within_limits dk (visits G [] vs)"
    using assms(2) by (intro visits_within_limits [OF assms(1)]) (simp_all add: within_limits_def counted_def)
  then have ten: "counted dk login_throttler k (t - 60000) t (visits G [] vs) \<le> 10" for k t
    by (auto simp: within_limits_def throttlers_def dest: bspec [of _ _ login_throttler])
  have "length (filter (\<lambda>(v, passed). passed \<and> handler_of (vt_endpoint v) = h \<and>
      dk h ''login'' (vt_req v) = k \<and> t - 60000 < vt_at v \<and> vt_at v \<le> t) (visits G [] vs)) \<le> 10"
    if "h \<noteq> (''AuthController'', ''login'')"
    by (rule order_trans [OF counted_covers ten [of k t]]) (use that default_key_counts in auto)
  moreover have "length (filter (\<lambda>(v, passed). passed \<and> handler_of (vt_endpoint v) = (''AuthController'', ''login'') \<and>
      getClientIp (vt_req v) = ip \<and> (\<exists>e. map_of (rq_body (vt_req v)) ''email'' = Some (JStr e) \<and>
        toLowerCase e = toLowerCase email) \<and> t - 60000 < vt_at v \<and> vt_at v \<le> t) (visits G [] vs)) \<le> 10"
    by (rule order_trans [OF counted_covers ten [of "buildLoginThrottleKey (Some ip) (Some email)" t]])
       (use login_key_counts in blast)
  ultimately show ?thesis by blast
qed


text \<open>A guard that keeps the promise, and eleven requests at once.\<close>

definition demo_key :: key_maker where
  "demo_key h name req = fst h @ ''.'' @ snd h @ ''-'' @ name @ ''-'' @ getClientIp req"

definition demo_guard :: throttler_guard where
  "demo_guard ths past v = Inr (\<forall>th \<in> set ths. \<not> skipped th v \<longrightarrow> (case key_of demo_key th v of
     Inl e \<Rightarrow> False
   | Inr k \<Rightarrow> counted demo_key th k (vt_at v - ttl_for th v) (vt_at v) past < limit_for th v))"

lemma demo_guard_ok: "guard_ok demo_guard demo_key"
  unfolding guard_ok_def
proof (intro allI impI ballI)
  fix ths past v th
  assume "demo_guard ths past v = Inr True" "th \<in> set ths" "\<not> skipped th v"
  then show "\<exists>k. key_of demo_key th v = Inr k \<and>
      counted demo_key th k (vt_at v - ttl_for th v) (vt_at v) past < limit_for th v"
    by (cases "key_of demo_key th v") (auto simp: demo_guard_def)
qed

definition demo_visit :: visit where
  "demo_visit = \<lparr>vt_at = 1000, vt_req = \<lparr>rq_ip = Some ''10.0.0.1'', rq_remoteAddress = None, rq_userAgentHeader = None,
     rq_correlationHeader = None, rq_id = None, rq_correlationId = None, rq_body = []\<rparr>, vt_endpoint = Health Liveness\<rparr>"

lemma requests_limited_witness:
  "length (filter (\<lambda>(v, passed). passed \<and> handler_of (vt_endpoint v) = (''HealthController'', ''liveness'') \<and>
     demo_key (''HealthController'', ''liveness'') ''login'' (vt_req v) = ''HealthController.liveness-login-10.0.0.1'' \<and>
     60000 - 60000 < vt_at v \<and> vt_at v \<le> 60000) (visits demo_guard [] (replicate 11 demo_visit))) \<le> 10 \<and>
   map snd (visits demo_guard [] (replicate 11 demo_visit)) = replicate 10 True @ [False]"
proof
  have "sorted (map vt_at (replicate 11 demo_visit))" by (simp add: eval_nat_numeral)
  from requests_limited [OF demo_guard_ok this, of "(''HealthController'', ''liveness'')"
      "''HealthController.liveness-login-10.0.0.1''" 60000]
  show "length (filter (\<lambda>(v, passed). passed \<and> handler_of (vt_endpoint v) = (''HealthController'', ''liveness'') \<and>
     demo_key (''HealthController'', ''liveness'') ''login'' (vt_req v) = ''HealthController.liveness-login-10.0.0.1'' \<and>
     60000 - 60000 < vt_at v \<and> vt_at v \<le> 60000) (visits demo_guard [] (replicate 11 demo_visit))) \<le> 10" by simp
  show "map snd (visits demo_guard [] (replicate 11 demo_visit)) = replicate 10 True @ [False]"
    by code_simp
qed

section \<open>Refused requests\<close>

lemma middleware_keeps:
  obtains req' header w1 where "correlationId_use E req w = (Inr (req', header), w1)"
    "w_db w1 = w_db w" "w_cache w1 = w_cache w" "w_queue w1 = w_queue w" "getClientIp req' = getClientIp req"
proof -
  let ?r = "\<lambda>cid. req\<lparr>rq_correlationId := Some cid, rq_id := Some cid\<rparr>"
  let ?w = "\<lambda>cid v. v\<lparr>w_ctx := Some \<lparr>rc_correlationId = cid, rc_userId = None\<rparr>\<rparr>"
  have ip: "getClientIp (?r cid) = getClientIp req" for cid
    by (simp add: getClientIp_def extractRequestContext_def split: option.split)
  show ?thesis
  proof (cases "truthy (rq_correlationHeader req)")
    case True
    then have "correlationId_use E req w =
        (Inr (?r (the (rq_correlationHeader req)), the (rq_correlationHeader req)), ?w (the (rq_correlationHeader req)) w)"
      by (simp add: correlationId_use_def andThen_def rc_run_def)
    from that [OF this _ _ _ ip] show ?thesis by simp
  next
    case False
    then have "correlationId_use E req w =
        (Inr (?r (e_uuid E (w_fresh w)), e_uuid E (w_fresh w)), ?w (e_uuid E (w_fresh w)) (w\<lparr>w_fresh := Suc (w_fresh w)\<rparr>))"
      by (simp add: correlationId_use_def andThen_def genUuid_def rc_run_def)
    from that [OF this _ _ _ ip] show ?thesis by simp
  qed
qed

text \<open>
  A request that the guard lets pass is served as without it; one that it refuses gets an error, and
  no table, no cache entry and no audit job is touched.
\<close>

lemma throttled_or_served:
  "\<exists>v. vt_endpoint v = ep \<and> vt_at v = w_now w \<and> getClientIp (vt_req v) = getClientIp req \<and>
     (if G throttlers past v = Inr True then serve_throttled G past E S req bearer ep w = serve E S req bearer ep w
      else isl (fst (serve_throttled G past E S req bearer ep w)) \<and>
        w_db (snd (serve_throttled G past E S req bearer ep w)) = w_db w \<and>
        w_cache (snd (serve_throttled G past E S req bearer ep w)) = w_cache w \<and>
        w_queue (snd (serve_throttled G past E S req bearer ep w)) = w_queue w)"
proof -
  obtain req' header w1 where c: "correlationId_use E req w = (Inr (req', header), w1)"
    and frame: "w_db w1 = w_db w" "w_cache w1 = w_cache w" "w_queue w1 = w_queue w"
    and ip: "getClientIp req' = getClientIp req"
    by (rule middleware_keeps)
  let ?v = "\<lparr>vt_at = w_now w, vt_req = req', vt_endpoint = ep\<rparr>"
  have "serve_throttled G past E S req bearer ep w = (if G throttlers past ?v = Inr True then serve E S req bearer ep w
      else (Inl (case G throttlers past ?v of Inl e \<Rightarrow> e
        | Inr _ \<Rightarrow> TooManyRequests ''ThrottlerException: Too Many Requests''), w1))"
    using c
    by (auto simp: serve_throttled_def serve_def andThen_def throttle_def throw_def ret_def split: sum.split)
  with frame ip show ?thesis by (intro exI [of _ ?v]) auto
qed

text \<open>The body of a login is read by the guard before it is validated.\<close>

lemma login_body_not_text:
  "map_of (rq_body req) ''email'' = Some (JNum n) \<Longrightarrow>
     login_key req = Inl (InternalServerError ''toLowerCase is not a function'')"
  by (simp add: login_key_def)

end
