(* ===== verification/Responses.thy ===== *)
theory Responses
  imports Endpoint_Properties Auth_Properties
begin

text \<open>
  The documented responses: the response classes of the DTOs, as the types of their fields, and that
  what the handlers return has them.
\<close>

section \<open>Response classes\<close>

text \<open>The types of fields; a field of an optional type may be missing or null.\<close>

datatype response_type = TText | TFlag | TTime | TCount | TOptional response_type | TList response_class
and response_class = Response "(string \<times> response_type) list"

definition FeatureResponseDto :: response_class where
  "FeatureResponseDto = Response
     [(''id'', TText), (''key'', TText), (''name'', TText), (''description'', TOptional TText),
      (''isActive'', TFlag), (''createdAt'', TTime), (''updatedAt'', TTime)]"

definition PaginatedFeatureResponseDto :: response_class where
  "PaginatedFeatureResponseDto = Response [(''data'', TList FeatureResponseDto), (''total'', TCount)]"

definition RoleResponseDto :: response_class where
  "RoleResponseDto = Response
     [(''id'', TText), (''name'', TText), (''description'', TOptional TText),
      (''isActive'', TFlag), (''createdAt'', TTime), (''updatedAt'', TTime)]"

definition PaginatedRoleResponseDto :: response_class where
  "PaginatedRoleResponseDto = Response [(''data'', TList RoleResponseDto), (''total'', TCount)]"

definition SessionResponseDto :: response_class where
  "SessionResponseDto = Response
     [(''id'', TText), (''ip'', TOptional TText), (''userAgent'', TOptional TText),
      (''createdAt'', TTime), (''expiresAt'', TTime)]"

text \<open>\<open>@ApiOkResponse\<close> and \<open>@ApiCreatedResponse\<close> with a type: one object, or a list of them.\<close>

fun documented :: "endpoint \<Rightarrow> (response_class + response_class) option" where
  "documented (Features (CreateFeature _)) = Some (Inl FeatureResponseDto)"
| "documented (Features (FindFeatures _)) = Some (Inl PaginatedFeatureResponseDto)"
| "documented (Features (FindFeature _)) = Some (Inl FeatureResponseDto)"
| "documented (Features (UpdateFeature _ _)) = Some (Inl FeatureResponseDto)"
| "documented (Roles (CreateRole _)) = Some (Inl RoleResponseDto)"
| "documented (Roles (FindRoles _)) = Some (Inl PaginatedRoleResponseDto)"
| "documented (Roles (FindRole _)) = Some (Inl RoleResponseDto)"
| "documented (Roles (UpdateRole _ _)) = Some (Inl RoleResponseDto)"
| "documented (Auth ListSessions) = Some (Inr SessionResponseDto)"
| "documented _ = None"

section \<open>Values of a type\<close>

fun has_type :: "response_type \<Rightarrow> json option \<Rightarrow> bool" and has_class :: "response_class \<Rightarrow> json \<Rightarrow> bool"
  and has_fields :: "(string \<times> response_type) list \<Rightarrow> (string \<times> json) list \<Rightarrow> bool" where
  "has_type TText v = (case v of Some (JStr s) \<Rightarrow> True | _ \<Rightarrow> False)"
| "has_type TFlag v = (case v of Some (JBool b) \<Rightarrow> True | _ \<Rightarrow> False)"
| "has_type TTime v = (case v of Some (JDate t) \<Rightarrow> True | _ \<Rightarrow> False)"
| "has_type TCount v = (case v of Some (JNum n) \<Rightarrow> 0 \<le> n | _ \<Rightarrow> False)"
| "has_type (TOptional ty) v = (v = None \<or> v = Some JNull \<or> has_type ty v)"
| "has_type (TList c) v = (case v of Some (JArr vs) \<Rightarrow> list_all (has_class c) vs | _ \<Rightarrow> False)"
| "has_class (Response fts) v = (case v of JObj values \<Rightarrow> has_fields fts values | _ \<Rightarrow> False)"
| "has_fields [] values = True"
| "has_fields ((name, ty) # fts) values = (has_type ty (map_of values name) \<and> has_fields fts values)"

fun conforms :: "(response_class + response_class) option \<Rightarrow> json \<Rightarrow> bool" where
  "conforms None v = True"
| "conforms (Some (Inl c)) v = has_class c v"
| "conforms (Some (Inr c)) v = (case v of JArr vs \<Rightarrow> list_all (has_class c) vs | _ \<Rightarrow> False)"

section \<open>What the handlers return\<close>

lemma feature_class: "has_class FeatureResponseDto (JObj (feature_object f @ rest))"
  by (simp add: FeatureResponseDto_def feature_object_def opt_str_def split: option.split)

lemma role_class: "has_class RoleResponseDto (JObj (role_object r @ rest))"
  by (simp add: RoleResponseDto_def role_object_def opt_str_def split: option.split)

lemmas object_classes = feature_class feature_class [of _ "[]", simplified] role_class role_class [of _ "[]", simplified]

lemma page_classes:
  "has_class PaginatedFeatureResponseDto (page_object feature_object p)"
  "has_class PaginatedRoleResponseDto (page_object role_object q)"
  by (simp_all add: PaginatedFeatureResponseDto_def PaginatedRoleResponseDto_def page_object_def
      list.pred_map comp_def list_all_iff object_classes)

lemma session_class: "has_class SessionResponseDto (session_object s)"
  by (simp add: SessionResponseDto_def session_object_def opt_str_def split: option.split)

lemma giving_returns: "giving f m w = (Inr v, w') \<Longrightarrow> \<exists>x. v = f x"
  by (auto simp: giving_def andThen_def ret_def split: prod.splits sum.splits)

lemma handle_conforms:
  assumes "handle E S req user ep w = (Inr v, w')"
  shows "conforms (documented ep) v"
proof (cases ep rule: documented.cases)
qed (use assms in \<open>auto simp: reading_def feature_with_permissions_def role_with_assignments_def object_classes
    page_classes session_class list_all_iff dest!: giving_returns\<close>)

text \<open>
  C32. Every endpoint that documents the class of its response answers with it: a response has all
  the fields of the class, with values of their types.
\<close>

theorem responses_documented:
  assumes "serve E S req bearer ep w = (Inr v, w')"
  shows "conforms (documented ep) v"
  using assms
proof (rule serveE)
  fix req' cid w1 user w2
  assume i: "intercept E req' (rt_auditable (route_of ep))
    (andThen (validationPipe S ep) (\<lambda>_. handle E S req' user ep)) w2 = (Inr v, w')"
  then have "fst (andThen (validationPipe S ep) (\<lambda>_. handle E S req' user ep) w2) = Inr v"
    by (metis fst_conv intercept_result)
  then have "fst (handle E S req' user ep w2) = Inr v"
    by (auto simp: validationPipe_def andThen_def ret_def throw_def split: if_splits)
  then have "handle E S req' user ep w2 = (Inr v, snd (handle E S req' user ep w2))" by (metis prod.collapse)
  then show ?thesis by (rule handle_conforms)
qed simp


text \<open>Ana, logged in, lists her sessions.\<close>

definition demo_listing :: "(http_error + json) \<times> world" where
  "demo_listing = serve demo_env demo_site demo_request (Some (ar_access_token (projr (fst demo_login))))
     (Auth ListSessions) (snd demo_login)"

lemma demo_listing_returns:
  "\<not> isl (fst demo_listing) \<and> projr (fst demo_listing) = JArr (map session_object (listSessions ''u-a'' (snd demo_login)))
     \<and> length (listSessions ''u-a'' (snd demo_login)) = 1"
  by code_simp

lemma responses_documented_witness:
  "\<exists>v w'. demo_listing = (Inr v, w') \<and> conforms (Some (Inr SessionResponseDto)) v"
proof -
  have eq: "demo_listing = (Inr (projr (fst demo_listing)), snd demo_listing)"
    by (rule Inr_pair) (use demo_listing_returns in blast)
  from responses_documented [OF eq [unfolded demo_listing_def]] eq show ?thesis
    unfolding demo_listing_def documented.simps by blast
qed

end
