(* ===== verification/Logging.thy ===== *)
theory Logging
  imports Audit_Interceptor Auth_Service
begin

text \<open>
  \<open>logger/logger.module.ts\<close>: what pino is told to write of a request, and that it is the correlation id
  that the response carries and the audit log records.
\<close>

section \<open>The options\<close>

text \<open>The level, and whether lines are written for the eye, by \<open>NODE_ENV\<close>.\<close>

definition pino_level :: "string option \<Rightarrow> string" where
  "pino_level NODE_ENV = (if NODE_ENV \<noteq> Some ''production'' then ''debug'' else ''info'')"

definition pino_pretty :: "string option \<Rightarrow> bool" where
  "pino_pretty NODE_ENV \<longleftrightarrow> NODE_ENV \<noteq> Some ''production''"

text \<open>\<open>a || b\<close> on optional strings: the empty string is falsy.\<close>

definition js_or :: "string option \<Rightarrow> string option \<Rightarrow> string option" where
  "js_or a b = (if truthy a then a else b)"

definition genReqId :: "env \<Rightarrow> request \<Rightarrow> (world, string) act" where
  "genReqId E req = (case js_or (rq_correlationId req) (rq_id req) of
     Some i \<Rightarrow> if i \<noteq> [] then ret i else genUuid E
   | None \<Rightarrow> genUuid E)"

text \<open>The serializer of \<open>req\<close> with the method and the URL, and the properties added to each line.\<close>

definition serialize_req :: "request \<Rightarrow> string \<Rightarrow> string \<Rightarrow> (string \<times> json) list" where
  "serialize_req req http_method url =
     [(''id'', opt_json (js_or (rq_correlationId req) (rq_id req))),
      (''method'', JStr http_method), (''url'', JStr url)]"

definition customProps :: "request \<Rightarrow> user option \<Rightarrow> (string \<times> json) list" where
  "customProps req user =
     [(''correlationId'', opt_json (js_or (rq_correlationId req) (rq_id req))),
      (''userId'', opt_json (map_option u_id user))]"

section \<open>Correlation\<close>

text \<open>
  After the middleware a request has one id: pino's, the one of every line, the header's of the response,
  and the one of the context from which the audit log takes it.
\<close>

lemma logged_id_is_correlation_id:
  assumes "correlationId_use E req w = (Inr (req', header), w')" "header \<noteq> []"
  shows "genReqId E req' w' = (Inr header, w') \<and>
    map_of (serialize_req req' http_method url) ''id'' = Some (JStr header) \<and>
    map_of (customProps req' user) ''correlationId'' = Some (JStr header) \<and>
    rc_getCorrelationId w' = Some header"
  using correlationId_use_agrees [OF assms(1)] assms(2)
  by (auto simp: genReqId_def serialize_req_def customProps_def js_or_def opt_json_def truthy_def ret_def)

end
