(* ===== verification/Purge_Properties.thy ===== *)
theory Purge_Properties
  imports Purge Demo_Env
begin

text \<open>
  The two purge jobs end, remove exactly what their retention allows them to remove, and leave
  everything else alone, whatever the configured batch size (at least one row).
\<close>

section \<open>Sessions\<close>

text \<open>
  C30. The session purge ends and deletes the sessions that expired more than the configured days of
  grace ago, and only those: every other session is there afterwards with all its data but for
  the link to a deleted predecessor. A failing DELETE ends the job early, and a disabled job
  does nothing; in each case users and audit rows stay as they were.
\<close>

theorem session_purge_keeps_unexpired:
  assumes "session_ids_distinct w" and "1 \<le> pc_batchSize cfg"
  shows "\<exists>w'. runSessionPurge cfg w = Some w' \<and> session_ids_distinct w' \<and>
    users w' = users w \<and> auditLogs w' = auditLogs w \<and>
    (let cutoff = w_now w - pc_sessionGraceDays cfg * (24 * 60 * 60 * 1000);
         live = \<lambda>s. cutoff \<le> s_expiresAt s in
     map unlinked (filter live (sessions w')) = map unlinked (filter live (sessions w)) \<and>
     (pc_purgeEnabled cfg \<and> \<not> purgeFails (w_faults w) \<longrightarrow> (\<forall>s \<in> set (sessions w'). live s)) \<and>
     (\<not> pc_purgeEnabled cfg \<longrightarrow> w' = w))"
proof (cases "pc_purgeEnabled cfg")
  case False
  with assms show ?thesis by (simp add: runSessionPurge_def Let_def)
next
  case True
  let ?cutoff = "daysAgo (pc_sessionGraceDays cfg) w"
  obtain b where b: "pc_batchSize cfg = Suc b" using assms(2) by (cases "pc_batchSize cfg") simp_all
  have live: "(\<lambda>s. \<not> expired_before ?cutoff s) =
      (\<lambda>s. w_now w - pc_sessionGraceDays cfg * (24 * 60 * 60 * 1000) \<le> s_expiresAt s)"
    by (simp add: fun_eq_iff expired_before_def daysAgo_def not_less)
  obtain r w' where loop: "deleteInBatches (delete_expired_sessions ?cutoff (Suc b)) (Suc b) 0 w = Some (r, w')"
    and kept: "map unlinked (filter (\<lambda>s. \<not> expired_before ?cutoff s) (sessions w')) =
        map unlinked (filter (\<lambda>s. \<not> expired_before ?cutoff s) (sessions w))"
      "users w' = users w" "auditLogs w' = auditLogs w" and inv: "session_ids_distinct w'"
    using session_purge.loop_ends [OF assms(1), where cutoff = ?cutoff and b = b and t = 0] by auto
  have "\<not> expired_before ?cutoff s" if "\<not> purgeFails (w_faults w)" "s \<in> set (sessions w')" for s
  proof -
    have "\<exists>w'. deleteInBatches (delete_expired_sessions ?cutoff (Suc b)) (Suc b) 0 w =
        Some (Inr (0 + length (filter (expired_before ?cutoff) (sessions w))), w') \<and>
        filter (expired_before ?cutoff) (sessions w') = []"
      using session_purge.loop_succeeds [OF assms(1), where cutoff = ?cutoff and b = b and t = 0
          and ok = "\<lambda>(_, _, _, f). \<not> purgeFails f"] that(1)
      by (auto simp: delete_expired_sessions_def Let_def)
    with loop that(2) show ?thesis by (auto simp: filter_empty_conv)
  qed
  with True loop kept inv b live show ?thesis
    by (auto simp: runSessionPurge_def Let_def fun_eq_iff)
qed

text \<open>Three sessions of user a, the first and the second expired for three days and for an hour.\<close>

definition aged_session :: "uuid \<Rightarrow> time \<Rightarrow> session" where
  "aged_session i t = \<lparr>s_id = i, s_userId = ''u-a'', s_refreshTokenHash = i, s_ip = None,
     s_userAgent = None, s_createdAt = 0, s_expiresAt = t, s_revokedAt = None,
     s_rotatedFromSessionId = (if i = ''u1'' then None else Some ''u1''), s_jti = None,
     s_accessJti = None, s_rotatedToSessionId = None\<rparr>"

definition aged_world :: world where
  "aged_world = set_sessions [aged_session ''u1'' (1000000 - 3 * 86400000),
     aged_session ''u2'' (1000000 - 3600000), aged_session ''u3'' 2000000] demo_world"

definition purge_daily :: purge_config where
  "purge_daily = \<lparr>pc_purgeEnabled = True, pc_sessionGraceDays = 1, pc_auditRetentionDays = 90,
     pc_batchSize = 1\<rparr>"

lemma aged_world_ok: "session_ids_distinct aged_world" "1 \<le> pc_batchSize purge_daily"
  by (simp_all add: aged_world_def session_ids_distinct_def aged_session_def purge_daily_def)

theorem session_purge_keeps_unexpired_witness:
  "\<exists>w'. runSessionPurge purge_daily aged_world = Some w' \<and>
     map unlinked (sessions w') = map unlinked [aged_session ''u2'' (1000000 - 3600000), aged_session ''u3'' 2000000]"
proof -
  obtain w' where w': "runSessionPurge purge_daily aged_world = Some w'"
    and kept: "map unlinked (filter (\<lambda>s. 1000000 - 1 * (24 * 60 * 60 * 1000) \<le> s_expiresAt s) (sessions w')) =
      map unlinked (filter (\<lambda>s. 1000000 - 1 * (24 * 60 * 60 * 1000) \<le> s_expiresAt s) (sessions aged_world))"
    and gone: "\<forall>s \<in> set (sessions w'). 1000000 - 1 * (24 * 60 * 60 * 1000) \<le> s_expiresAt s"
    using session_purge_keeps_unexpired [OF aged_world_ok]
    by (auto simp: Let_def purge_daily_def aged_world_def demo_world_def no_faults_def)
  from gone have "filter (\<lambda>s. 1000000 - 1 * (24 * 60 * 60 * 1000) \<le> s_expiresAt s) (sessions w') = sessions w'"
    by (simp add: filter_id_conv)
  with w' kept show ?thesis by (simp add: aged_world_def aged_session_def)
qed

section \<open>Audit rows\<close>

text \<open>
  The audit purge ends and never deletes a row younger than the retention; the rows it keeps
  are the same rows in the same order. With no failing DELETE no older row is left.
\<close>

theorem audit_purge_keeps_retention:
  assumes "audit_ids_distinct w" and "1 \<le> pc_batchSize cfg"
  shows "\<exists>w'. runAuditPurge cfg w = Some w' \<and> audit_ids_distinct w' \<and>
    users w' = users w \<and> sessions w' = sessions w \<and>
    (let cutoff = w_now w - pc_auditRetentionDays cfg * (24 * 60 * 60 * 1000);
         young = \<lambda>l. cutoff \<le> al_createdAt l in
     filter young (auditLogs w') = filter young (auditLogs w) \<and>
     (pc_purgeEnabled cfg \<and> \<not> purgeFails (w_faults w) \<longrightarrow> auditLogs w' = filter young (auditLogs w)) \<and>
     (\<not> pc_purgeEnabled cfg \<longrightarrow> w' = w))"
proof (cases "pc_purgeEnabled cfg")
  case False
  with assms show ?thesis by (simp add: runAuditPurge_def Let_def)
next
  case True
  let ?cutoff = "daysAgo (pc_auditRetentionDays cfg) w"
  obtain b where b: "pc_batchSize cfg = Suc b" using assms(2) by (cases "pc_batchSize cfg") simp_all
  have young: "(\<lambda>l. \<not> older_than ?cutoff l) =
      (\<lambda>l. w_now w - pc_auditRetentionDays cfg * (24 * 60 * 60 * 1000) \<le> al_createdAt l)"
    by (simp add: fun_eq_iff older_than_def daysAgo_def not_less)
  obtain r w' where loop: "deleteInBatches (delete_old_audit_logs ?cutoff (Suc b)) (Suc b) 0 w = Some (r, w')"
    and kept: "filter (\<lambda>l. \<not> older_than ?cutoff l) (auditLogs w') =
        filter (\<lambda>l. \<not> older_than ?cutoff l) (auditLogs w)"
      "users w' = users w" "sessions w' = sessions w" and inv: "audit_ids_distinct w'"
    using audit_purge.loop_ends [OF assms(1), where cutoff = ?cutoff and b = b and t = 0] by auto
  have "\<not> older_than ?cutoff l" if "\<not> purgeFails (w_faults w)" "l \<in> set (auditLogs w')" for l
  proof -
    have "\<exists>w'. deleteInBatches (delete_old_audit_logs ?cutoff (Suc b)) (Suc b) 0 w =
        Some (Inr (0 + length (filter (older_than ?cutoff) (auditLogs w))), w') \<and>
        filter (older_than ?cutoff) (auditLogs w') = []"
      using audit_purge.loop_succeeds [OF assms(1), where cutoff = ?cutoff and b = b and t = 0
          and ok = "\<lambda>(_, _, _, f). \<not> purgeFails f"] that(1)
      by (auto simp: delete_old_audit_logs_def Let_def)
    with loop that(2) show ?thesis by (auto simp: filter_empty_conv)
  qed
  then have "\<not> purgeFails (w_faults w) \<Longrightarrow> filter (\<lambda>l. \<not> older_than ?cutoff l) (auditLogs w') = auditLogs w'"
    by (simp add: filter_id_conv)
  with True loop kept inv b young show ?thesis by (auto simp: runAuditPurge_def Let_def)
qed

definition old_row :: "uuid \<Rightarrow> time \<Rightarrow> audit_log" where
  "old_row i t = \<lparr>al_id = i, al_actorUserId = None, al_action = ''auth.login_success'',
     al_entityType = ''User'', al_entityId = None, al_correlationId = None, al_metadata = [],
     al_ip = None, al_userAgent = None, al_createdAt = t\<rparr>"

theorem audit_purge_keeps_retention_witness:
  "\<exists>w'. runAuditPurge purge_daily
      (set_auditLogs [old_row ''u1'' 0, old_row ''u2'' (- 100 * 86400000)] demo_world) = Some w' \<and>
    auditLogs w' = [old_row ''u1'' 0]"
proof -
  let ?w = "set_auditLogs [old_row ''u1'' 0, old_row ''u2'' (- 100 * 86400000)] demo_world"
  have "audit_ids_distinct ?w" by (simp add: audit_ids_distinct_def old_row_def)
  from audit_purge_keeps_retention [OF this aged_world_ok(2)]
  show ?thesis by (auto simp: Let_def purge_daily_def demo_world_def no_faults_def old_row_def)
qed

end
