(* ===== verification/Pagination_Properties.thy ===== *)
theory Pagination_Properties
  imports Pagination Demo_Env "HOL-Library.List_Lexorder" "HOL-Library.Char_ord"
begin

text \<open>What the paginated lists return, page by page and over all pages.\<close>

section \<open>Searching\<close>

text \<open>
  A search text without wildcards, looked up with \<open>ILIKE\<close>, is a substring up to case, if
  lower-casing leaves the wildcards alone and introduces none.
\<close>

definition contains_text :: "(char \<Rightarrow> char) \<Rightarrow> string \<Rightarrow> string \<Rightarrow> bool" where
  "contains_text lower s search \<longleftrightarrow> (\<exists>a b. map lower s = a @ map lower search @ b)"

lemma ilike_contains:
  assumes "lower (CHR ''%'') = CHR ''%''" and "plain_pattern (map lower search)"
  shows "ilike lower s (search_pattern search) \<longleftrightarrow> contains_text lower s search"
  using sql_like_infix [OF assms(2)] assms(1)
  by (simp add: ilike_def search_pattern_def contains_text_def)

lemma contains_text_empty [simp]: "contains_text lower s []"
  by (simp add: contains_text_def) (metis append_Nil)

lemma sorted_distinct_strict:
  "sorted (map k xs) \<Longrightarrow> distinct (map k xs) \<Longrightarrow> sorted_wrt (<) (map k xs)"
  using strict_sorted_iff by blast

text \<open>
  C33. The role list, for a request the validation accepts: a page has at most \<open>limit\<close> rows, which
  is at most 100, and \<open>total\<close> counts the matching roles, the ones whose name contains the
  search text (no wildcards in it) and whose flag is the one asked for. The pages one after
  the other are all matching roles, each once, in strictly ascending order of their names.
\<close>

theorem role_pages_partition:
  assumes "pagination_valid q" and "distinct (map r_name (roles w))" and "inj collation"
    and "lower (CHR ''%'') = CHR ''%''"
    and "\<forall>s. pq_search q = Some s \<longrightarrow> plain_pattern (map lower s)"
  shows "length (fst (role_findAll collation lower q w)) \<le> limit_of q \<and> limit_of q \<le> 100 \<and>
    (\<forall>n. snd (role_findAll collation lower q w) \<le> n * limit_of q \<longrightarrow>
      (let pages = concat (map (\<lambda>i. fst (role_findAll collation lower (q\<lparr>pq_page := Some (Suc i)\<rparr>) w)) [0..<n]) in
       sorted_wrt (<) (map (\<lambda>r. collation (r_name r)) pages) \<and>
       length pages = snd (role_findAll collation lower q w) \<and>
       (\<forall>r. r \<in> set pages \<longleftrightarrow> r \<in> set (roles w) \<and>
          (case pq_search q of None \<Rightarrow> True | Some s \<Rightarrow> contains_text lower (r_name r) s) \<and>
          (case pq_isActive q of None \<Rightarrow> True | Some b \<Rightarrow> r_isActive r = b))))"
proof -
  let ?all = "filter (role_matches lower q) (roles w)"
  let ?key = "\<lambda>r. collation (r_name r)"
  have same: "role_matches lower (q\<lparr>pq_page := p\<rparr>) = role_matches lower q" for p
    by (simp add: role_matches_def fun_eq_iff)
  have matches: "role_matches lower q r \<longleftrightarrow>
      (case pq_search q of None \<Rightarrow> True | Some s \<Rightarrow> contains_text lower (r_name r) s) \<and>
      (case pq_isActive q of None \<Rightarrow> True | Some b \<Rightarrow> r_isActive r = b)" for r
    using assms(4,5) by (auto simp: role_matches_def active_filter_def truthy_def ilike_contains
        split: option.splits)
  have "distinct (map ?key ?all)"
    using distinct_map_filter [OF assms(2)] assms(3)
    by (simp add: distinct_map comp_inj_on comp_def inj_on_def)
  then have "distinct (map ?key (sort_key ?key ?all))"
    by (simp add: distinct_map)
  then have strict: "sorted_wrt (<) (map ?key (sort_key ?key ?all))"
    by (intro sorted_distinct_strict sorted_sort_key)
  have "length (fst (role_findAll collation lower q w)) \<le> limit_of q"
    by (simp add: role_findAll_def Let_def length_applyPagination)
  moreover have "concat (map (\<lambda>i. fst (role_findAll collation lower (q\<lparr>pq_page := Some (Suc i)\<rparr>) w)) [0..<n]) =
      sort_key ?key ?all" if "snd (role_findAll collation lower q w) \<le> n * limit_of q" for n
    using that pages_cover [OF refl, of ?all n q ?key] by (simp add: role_findAll_def Let_def same)
  moreover have "snd (role_findAll collation lower q w) = length ?all"
    by (simp add: role_findAll_def Let_def)
  ultimately show ?thesis
    using limit_valid [OF assms(1)] strict matches by (simp add: Let_def)
qed

text \<open>Three roles, read in pages of two.\<close>

definition demo_role :: "string \<Rightarrow> bool \<Rightarrow> role" where
  "demo_role name active = \<lparr>r_id = ''u-'' @ name, r_name = name, r_description = None,
     r_isActive = active, r_createdAt = 0, r_updatedAt = 0\<rparr>"

definition three_roles :: world where
  "three_roles = demo_world\<lparr>w_db := demo_db\<lparr>db_roles :=
     [demo_role ''x1a'' True, demo_role ''x1'' True, demo_role ''y'' True]\<rparr>\<rparr>"

definition search_x :: pagination_query where
  "search_x = \<lparr>pq_page = Some 1, pq_limit = Some 1, pq_search = Some ''x'', pq_isActive = Some True\<rparr>"

theorem role_pages_partition_witness:
  "length (fst (role_findAll (\<lambda>s. s) (\<lambda>c. c) search_x three_roles)) \<le> 1 \<and>
   map r_name (concat (map (\<lambda>i. fst (role_findAll (\<lambda>s. s) (\<lambda>c. c) (search_x\<lparr>pq_page := Some (Suc i)\<rparr>) three_roles))
     [0..<2])) = [''x1'', ''x1a'']"
proof -
  have hyps: "pagination_valid search_x" "distinct (map r_name (roles three_roles))" "inj (\<lambda>s::string. s)"
    "(\<lambda>c. c) (CHR ''%'') = CHR ''%''" "\<forall>s. pq_search search_x = Some s \<longrightarrow> plain_pattern (map (\<lambda>c. c) s)"
    by (simp_all add: pagination_valid_def search_x_def three_roles_def demo_role_def plain_pattern_def)
  from role_pages_partition [OF hyps]
  have "length (fst (role_findAll (\<lambda>s. s) (\<lambda>c. c) search_x three_roles)) \<le> 1"
    by (simp add: search_x_def limit_of_def)
  then show ?thesis by code_simp
qed

section \<open>The feature list\<close>

text \<open>
  The filter on \<open>isActive\<close> does not apply to features found by their name: whatever flag
  the request asks for, a feature whose name contains the search text is counted and is on
  one of the pages.
\<close>

theorem feature_search_ignores_flag:
  assumes "f \<in> set (features w)" and "pq_search q = Some s" and "s \<noteq> []"
    and "ilike lower (f_name f) (search_pattern s)"
  shows "0 < snd (feature_findAll lower q w) \<and>
    (\<forall>n. snd (feature_findAll lower q w) \<le> n * limit_of q \<longrightarrow>
      (\<exists>i < n. f \<in> set (fst (feature_findAll lower (q\<lparr>pq_page := Some (Suc i)\<rparr>) w))))"
proof -
  let ?all = "filter (feature_matches lower q) (features w)"
  have same: "feature_matches lower (q\<lparr>pq_page := p\<rparr>) = feature_matches lower q" for p
    by (simp add: feature_matches_def fun_eq_iff)
  have f: "f \<in> set ?all" using assms by (simp add: feature_matches_def)
  have "\<exists>i < n. f \<in> set (fst (feature_findAll lower (q\<lparr>pq_page := Some (Suc i)\<rparr>) w))"
    if "snd (feature_findAll lower q w) \<le> n * limit_of q" for n
  proof -
    have "f \<in> set (concat (map (\<lambda>i. fst (feature_findAll lower (q\<lparr>pq_page := Some (Suc i)\<rparr>) w)) [0..<n]))"
      using f that pages_cover [OF refl, of ?all n q "\<lambda>f. - f_createdAt f"]
      by (simp add: feature_findAll_def Let_def same)
    then show ?thesis by auto
  qed
  moreover have "0 < snd (feature_findAll lower q w)"
    using length_pos_if_in_set [OF f] by (simp add: feature_findAll_def Let_def)
  ultimately show ?thesis by blast
qed

definition retired_feature :: feature where
  "retired_feature = \<lparr>f_id = ''u-f'', f_key = ''old'', f_name = ''Reports'', f_description = None,
     f_isActive = False, f_createdAt = 0, f_updatedAt = 0\<rparr>"

definition retired_world :: world where
  "retired_world = demo_world\<lparr>w_db := demo_db\<lparr>db_features := [retired_feature]\<rparr>\<rparr>"

theorem feature_search_ignores_flag_witness:
  "\<exists>i < 1. retired_feature \<in> set (fst (feature_findAll (\<lambda>c. c)
     (\<lparr>pq_page = None, pq_limit = None, pq_search = Some ''Rep'', pq_isActive = Some True\<rparr>
       \<lparr>pq_page := Some (Suc i)\<rparr>) retired_world))"
proof -
  let ?q = "\<lparr>pq_page = None, pq_limit = None, pq_search = Some ''Rep'', pq_isActive = Some True\<rparr>"
  have "ilike (\<lambda>c. c) (f_name retired_feature) (search_pattern ''Rep'')"
    by (simp add: ilike_contains plain_pattern_def contains_text_def retired_feature_def)
       (metis append_Cons append_Nil)
  moreover have "retired_feature \<in> set (features retired_world)" by (simp add: retired_world_def)
  ultimately have "\<forall>n. snd (feature_findAll (\<lambda>c. c) ?q retired_world) \<le> n * limit_of ?q \<longrightarrow>
      (\<exists>i < n. retired_feature \<in> set (fst (feature_findAll (\<lambda>c. c) (?q\<lparr>pq_page := Some (Suc i)\<rparr>) retired_world)))"
    using feature_search_ignores_flag [of retired_feature retired_world ?q "''Rep''" "\<lambda>c. c"] by simp
  moreover have "snd (feature_findAll (\<lambda>c. c) ?q retired_world) \<le> 1 * limit_of ?q" by code_simp
  ultimately show ?thesis by blast
qed

end
