(* ===== verification/Rbac_Concurrent.thy ===== *)
theory Rbac_Concurrent
  imports Rbac_Machine
begin

text \<open>
  \<open>RbacService\<close> under concurrent requests. A call of \<open>getPermissionsForRole\<close> is interrupted at
  every \<open>await\<close>: what Redis, the cache or the database answers is fixed when they answer, and the
  code goes on later. Calls for one role share a fetch through \<open>pendingRequests\<close>; mutations
  commit first and bump the epoch after, in any instance. A configuration is one instance's view;
  a cluster is a family of them over the same database, Redis cache and counter.
\<close>

section \<open>Configurations\<close>

text \<open>
  Where a call stands: before the epoch was read, with Redis' answer (\<open>None\<close> when there was none),
  before the cache was read, with the cache's answer, waiting for a fetch, or done (\<open>None\<close> when
  the query failed).
\<close>

datatype call =
    ReadEpoch uuid
  | EpochAnswered uuid "int option"
  | ReadCache uuid int
  | CacheAnswered uuid int "string list option"
  | Waiting uuid nat
  | Done uuid "string list option"

text \<open>
  A fetch (\<open>fetchPromise\<close>) with its \<open>epochSnapshot\<close> and the \<open>currentEpoch\<close> of the call that
  started it: before the query was answered, after, and settled.
\<close>

datatype fetch =
    Querying uuid int int
  | Queried uuid int int "string list option"
  | Settled "string list option"

text \<open>
  \<open>cc_writes\<close> are the cache writes under way, which nothing awaits; \<open>cc_bumps\<close> the answers to INCR
  the code has not seen yet, with the roles it will forget; \<open>cc_memory\<close> is the memory tier in
  front of the Redis cache \<open>w_cache\<close> (without Redis, \<open>w_cache\<close> is the memory); \<open>cc_dirty\<close> counts the mutations, of any
  instance, that are committed and not yet announced by a bump.
\<close>

record conf =
  cc_world :: world
  cc_calls :: "nat \<rightharpoonup> call"
  cc_fetches :: "nat \<rightharpoonup> fetch"
  cc_pending :: "string \<rightharpoonup> nat"
  cc_memory :: cache
  cc_writes :: "(uuid \<times> int \<times> string list) list"
  cc_bumps :: "(int \<times> uuid set) list"
  cc_dirty :: nat

definition call_goes :: "nat \<Rightarrow> call \<Rightarrow> conf \<Rightarrow> conf" where
  "call_goes i k c = c\<lparr>cc_calls := (cc_calls c)(i \<mapsto> k)\<rparr>"

definition fetch_goes :: "nat \<Rightarrow> fetch \<Rightarrow> conf \<Rightarrow> conf" where
  "fetch_goes f s c = c\<lparr>cc_fetches := (cc_fetches c)(f \<mapsto> s)\<rparr>"

definition world_goes :: "(world \<Rightarrow> world) \<Rightarrow> conf \<Rightarrow> conf" where
  "world_goes g c = c\<lparr>cc_world := g (cc_world c)\<rparr>"

section \<open>The pieces between awaits\<close>

text \<open>What Redis says of the epoch: nothing when it is not configured, fails, or has no epoch.\<close>

definition redis_epoch_answer :: "env \<Rightarrow> world \<Rightarrow> int option" where
  "redis_epoch_answer E w = (if \<not> e_redisConfigured E \<or> redisReadFails (w_faults w) then None else w_redisEpoch w)"

text \<open>\<open>getGlobalEpoch\<close> going on: the answer becomes the local epoch, or the local epoch is used.\<close>

definition epoch_resumes :: "int option \<Rightarrow> world \<Rightarrow> int \<times> world" where
  "epoch_resumes stored w = (case stored of
     Some n \<Rightarrow> (n, w\<lparr>w_invalidationEpoch := n\<rparr>)
   | None \<Rightarrow> (w_invalidationEpoch w, w))"

text \<open>
  What the cache says, for a call whose \<open>currentEpoch\<close> is \<open>e\<close>: the memory tier when it has the
  key, else Redis.
\<close>

definition tiered_get :: "string \<Rightarrow> cache \<Rightarrow> world \<Rightarrow> cache_value option" where
  "tiered_get k memory w = (case cache_get (w_now w) k memory of
     Some v \<Rightarrow> Some v
   | None \<Rightarrow> cache_get (w_now w) k (w_cache w))"

definition cache_answer :: "uuid \<Rightarrow> int \<Rightarrow> cache \<Rightarrow> world \<Rightarrow> string list option" where
  "cache_answer r e memory w =
     (if cacheGetFails (w_faults w) (rolePermissionCacheKey r) then None
      else case cached_perms (tiered_get (rolePermissionCacheKey r) memory w) of
          Some (epoch, ps) \<Rightarrow> if epoch = e then Some ps else None
        | None \<Rightarrow> None)"

text \<open>
  The call going on after the cache's answer: a hit is the result; otherwise it joins the fetch
  of its key, or starts the fetch \<open>f\<close>, whose snapshot is the local epoch of this moment.
\<close>

definition cache_resumes :: "nat \<Rightarrow> nat \<Rightarrow> uuid \<Rightarrow> int \<Rightarrow> string list option \<Rightarrow> conf \<Rightarrow> conf" where
  "cache_resumes i f r e hit c = (case hit of
     Some ps \<Rightarrow> call_goes i (Done r (Some ps)) c
   | None \<Rightarrow> (case cc_pending c (rolePermissionCacheKey r) of
       Some g \<Rightarrow> call_goes i (Waiting r g) c
     | None \<Rightarrow> (fetch_goes f (Querying r (w_invalidationEpoch (cc_world c)) e)
           (call_goes i (Waiting r f) c))\<lparr>cc_pending := (cc_pending c)(rolePermissionCacheKey r \<mapsto> f)\<rparr>))"

definition query_answer :: "uuid \<Rightarrow> world \<Rightarrow> string list option" where
  "query_answer r w =
     (if rbacQueryFails (w_faults w) then None else Some (fetchPermissionStringsForRole r (w_db w)))"

text \<open>
  The fetch going on after the query: it sends the result to the cache under \<open>currentEpoch\<close> if the
  local epoch is still the snapshot, and in every case removes its key from \<open>pendingRequests\<close>.
\<close>

definition remember_key :: "uuid \<Rightarrow> world \<Rightarrow> world" where
  "remember_key r w =
     w\<lparr>w_cachedRoleKeys := List.insert (rolePermissionCacheKey r) (w_cachedRoleKeys w)\<rparr>"

definition fetch_resumes :: "nat \<Rightarrow> uuid \<Rightarrow> int \<Rightarrow> int \<Rightarrow> string list option \<Rightarrow> conf \<Rightarrow> conf" where
  "fetch_resumes f r snapshot e result c =
     (let c' = (case result of
          None \<Rightarrow> c
        | Some ps \<Rightarrow>
            if snapshot = w_invalidationEpoch (cc_world c)
            then (world_goes (remember_key r) c)\<lparr>cc_writes := cc_writes c @ [(r, e, ps)]\<rparr> else c) in
      (fetch_goes f (Settled result) c')\<lparr>cc_pending := (cc_pending c)(rolePermissionCacheKey r := None)\<rparr>)"

text \<open>A cache write that arrives: in Redis, unless that fails, and in the memory tier.\<close>

definition write_arrives :: "env \<Rightarrow> uuid \<Rightarrow> int \<Rightarrow> string list \<Rightarrow> conf \<Rightarrow> conf" where
  "write_arrives E r e ps c =
     (let w = cc_world c; k = rolePermissionCacheKey r in
      c\<lparr>cc_world := snd (cacheSet k (CPerms e ps) (e_rbacCacheTtl E) w),
        cc_memory := (if e_redisConfigured E
          then cache_put (w_now w) k (CPerms e ps) (e_rbacCacheTtl E) (cc_memory c) else cc_memory c)\<rparr>)"

text \<open>
  The bump: INCR in Redis, answered with the new epoch, or the local epoch without Redis; and the
  code going on with the answer, which forgets the pending fetches of the given roles.
\<close>

definition bump_answers :: "env \<Rightarrow> uuid set \<Rightarrow> conf \<Rightarrow> conf" where
  "bump_answers E rs c =
     (let n = shared_epoch E (cc_world c) + 1 in
      if e_redisConfigured E
      then (world_goes (\<lambda>w. w\<lparr>w_redisEpoch := Some n\<rparr>) c)\<lparr>cc_bumps := cc_bumps c @ [(n, rs)]\<rparr>
      else (world_goes (\<lambda>w. w\<lparr>w_invalidationEpoch := n\<rparr>) c)\<lparr>cc_bumps := cc_bumps c @ [(n, rs)]\<rparr>)"

definition bump_resumes :: "env \<Rightarrow> int \<Rightarrow> uuid set \<Rightarrow> conf \<Rightarrow> conf" where
  "bump_resumes E n rs c =
     (world_goes (\<lambda>w. w\<lparr>w_invalidationEpoch := if e_redisConfigured E then n else w_invalidationEpoch w,
          w_cachedRoleKeys := List.filter (\<lambda>k. k \<notin> rolePermissionCacheKey ` rs) (w_cachedRoleKeys w)\<rparr>) c)
       \<lparr>cc_pending := (\<lambda>k. if k \<in> rolePermissionCacheKey ` rs then None else cc_pending c k)\<rparr>"

section \<open>Steps\<close>

text \<open>
  \<open>commit\<close> is the commit of any mutation, and \<open>bump\<close> the INCR that announces one, which the
  steps take to succeed. The memory tier may lose entries and may take up those of Redis, with
  whatever expiry (\<open>memory_changes\<close>).
\<close>

inductive cstep :: "env \<Rightarrow> conf \<Rightarrow> conf \<Rightarrow> bool" for E where
  call_starts: "cc_calls c i = None \<Longrightarrow> cstep E c (call_goes i (ReadEpoch r) c)"
| epoch_answered: "cc_calls c i = Some (ReadEpoch r) \<Longrightarrow>
    cstep E c (call_goes i (EpochAnswered r (redis_epoch_answer E (cc_world c))) c)"
| epoch_resumed: "cc_calls c i = Some (EpochAnswered r stored) \<Longrightarrow>
    epoch_resumes stored (cc_world c) = (e, w) \<Longrightarrow>
    cstep E c (call_goes i (ReadCache r e) (c\<lparr>cc_world := w\<rparr>))"
| cache_answered: "cc_calls c i = Some (ReadCache r e) \<Longrightarrow>
    cstep E c (call_goes i (CacheAnswered r e (cache_answer r e (cc_memory c) (cc_world c))) c)"
| cache_resumed: "cc_calls c i = Some (CacheAnswered r e hit) \<Longrightarrow> cc_fetches c f = None \<Longrightarrow>
    cstep E c (cache_resumes i f r e hit c)"
| query_answered: "cc_fetches c f = Some (Querying r snapshot e) \<Longrightarrow>
    cstep E c (fetch_goes f (Queried r snapshot e (query_answer r (cc_world c))) c)"
| fetch_resumed: "cc_fetches c f = Some (Queried r snapshot e result) \<Longrightarrow>
    cstep E c (fetch_resumes f r snapshot e result c)"
| call_returns: "cc_calls c i = Some (Waiting r f) \<Longrightarrow> cc_fetches c f = Some (Settled result) \<Longrightarrow>
    cstep E c (call_goes i (Done r result) c)"
| commit: "cstep E c ((world_goes (\<lambda>w. w\<lparr>w_db := d\<rparr>) c)\<lparr>cc_dirty := Suc (cc_dirty c)\<rparr>)"
| bump: "cc_dirty c = Suc n \<Longrightarrow> cstep E c ((bump_answers E rs c)\<lparr>cc_dirty := n\<rparr>)"
| bump_resumed: "cc_bumps c = (n, rs) # bs \<Longrightarrow>
    cstep E c (bump_resumes E n rs (c\<lparr>cc_bumps := bs\<rparr>))"
| write_arrived: "cc_writes c = xs @ (r, e, ps) # ys \<Longrightarrow>
    cstep E c ((write_arrives E r e ps c)\<lparr>cc_writes := xs @ ys\<rparr>)"
| memory_changes: "e_redisConfigured E \<Longrightarrow>
    (\<And>k v x. memory k = Some (v, x) \<Longrightarrow> v \<in> fst ` (set_option (cc_memory c k) \<union> set_option (w_cache (cc_world c) k))) \<Longrightarrow>
    cstep E c (c\<lparr>cc_memory := memory\<rparr>)"
| time_and_faults: "cstep E c (world_goes (\<lambda>w. w\<lparr>w_now := t, w_faults := fl\<rparr>) c)"

text \<open>
  Another instance sees the database, the Redis cache and counter as they are after the step; its
  local epoch, its memory tier and the keys it remembers are its own. Without Redis there is one instance only.
\<close>

definition sees :: "conf \<Rightarrow> conf \<Rightarrow> conf" where
  "sees c' c = c\<lparr>cc_world := (cc_world c')\<lparr>w_invalidationEpoch := w_invalidationEpoch (cc_world c),
     w_cachedRoleKeys := w_cachedRoleKeys (cc_world c)\<rparr>, cc_dirty := cc_dirty c'\<rparr>"

definition runs :: "env \<Rightarrow> nat \<Rightarrow> bool" where
  "runs E p \<longleftrightarrow> e_redisConfigured E \<or> p = 0"

definition cluster_after :: "nat \<Rightarrow> conf \<Rightarrow> (nat \<Rightarrow> conf) \<Rightarrow> nat \<Rightarrow> conf" where
  "cluster_after p c' m = (\<lambda>q. if q = p then c' else sees c' (m q))"

inductive cluster_run :: "env \<Rightarrow> (nat \<Rightarrow> conf) \<Rightarrow> (nat \<Rightarrow> conf) \<Rightarrow> bool" for E m where
  run_none: "cluster_run E m m"
| run_step: "cluster_run E m m' \<Longrightarrow> runs E p \<Longrightarrow> cstep E (m' p) c' \<Longrightarrow>
    cluster_run E m (cluster_after p c' m')"

text \<open>A process at rest: no calls, no fetches, nothing to announce.\<close>

definition at_rest :: "world \<Rightarrow> conf" where
  "at_rest w = \<lparr>cc_world = w, cc_calls = Map.empty, cc_fetches = Map.empty, cc_pending = Map.empty,
     cc_memory = Map.empty, cc_writes = [], cc_bumps = [], cc_dirty = 0\<rparr>"

section \<open>The invariant\<close>

text \<open>
  A permission set labelled with the epoch \<open>e\<close>: the label is not ahead of the agreed epoch, and the
  set is what the tables grant, unless announcing the outstanding mutations will take the agreed
  epoch past the label.
\<close>

definition label_ok :: "env \<Rightarrow> world \<Rightarrow> nat \<Rightarrow> int \<Rightarrow> uuid \<Rightarrow> string list \<Rightarrow> bool" where
  "label_ok E w dirty e r ps \<longleftrightarrow> e \<le> shared_epoch E w \<and>
     (set ps = set (fetchPermissionStringsForRole r (w_db w)) \<or> e < shared_epoch E w + int dirty)"

text \<open>An epoch Redis gave out: Redis has one now, which is not smaller.\<close>

definition given_out :: "env \<Rightarrow> world \<Rightarrow> int \<Rightarrow> bool" where
  "given_out E w n \<longleftrightarrow> (\<exists>m. w_redisEpoch w = Some m \<and> n \<le> m)"

fun call_ok :: "env \<Rightarrow> world \<Rightarrow> nat \<Rightarrow> call \<Rightarrow> bool" where
  "call_ok E w dirty (EpochAnswered r (Some n)) = (e_redisConfigured E \<and> given_out E w n)"
| "call_ok E w dirty (ReadCache r e) = (e \<le> shared_epoch E w)"
| "call_ok E w dirty (CacheAnswered r e None) = (e \<le> shared_epoch E w)"
| "call_ok E w dirty (CacheAnswered r e (Some ps)) = label_ok E w dirty e r ps"
| "call_ok E w dirty _ = True"

fun fetch_ok :: "env \<Rightarrow> world \<Rightarrow> nat \<Rightarrow> fetch \<Rightarrow> bool" where
  "fetch_ok E w dirty (Querying r s e) = (e \<le> shared_epoch E w)"
| "fetch_ok E w dirty (Queried r s e (Some ps)) = label_ok E w dirty e r ps"
| "fetch_ok E w dirty _ = True"

definition tier_ok :: "env \<Rightarrow> world \<Rightarrow> nat \<Rightarrow> cache \<Rightarrow> bool" where
  "tier_ok E w dirty m \<longleftrightarrow> (\<forall>r e ps x.
     m (rolePermissionCacheKey r) = Some (CPerms e ps, x) \<longrightarrow> label_ok E w dirty e r ps)"

definition cache_ok :: "env \<Rightarrow> world \<Rightarrow> nat \<Rightarrow> bool" where
  "cache_ok E w dirty \<longleftrightarrow> tier_ok E w dirty (w_cache w)"

definition conc_inv :: "env \<Rightarrow> conf \<Rightarrow> bool" where
  "conc_inv E c \<longleftrightarrow> (let w = cc_world c; dirty = cc_dirty c in
     epoch_ok E w \<and> cache_ok E w dirty \<and> tier_ok E w dirty (cc_memory c) \<and>
     (\<forall>k \<in> ran (cc_calls c). call_ok E w dirty k) \<and>
     (\<forall>f \<in> ran (cc_fetches c). fetch_ok E w dirty f) \<and>
     (\<forall>(r, e, ps) \<in> set (cc_writes c). label_ok E w dirty e r ps) \<and>
     (\<forall>(n, rs) \<in> set (cc_bumps c). e_redisConfigured E \<longrightarrow> given_out E w n))"

text \<open>
  The world may move on: the agreed epoch does not fall, and a change of the tables makes the
  label bound strictly larger. Everything labelled before stays labelled right.
\<close>

definition moves_on :: "env \<Rightarrow> world \<Rightarrow> nat \<Rightarrow> world \<Rightarrow> nat \<Rightarrow> bool" where
  "moves_on E w d w' d' \<longleftrightarrow> shared_epoch E w \<le> shared_epoch E w' \<and>
     shared_epoch E w + int d \<le> shared_epoch E w' + int d' \<and>
     (w_db w' = w_db w \<or> shared_epoch E w + int d < shared_epoch E w' + int d') \<and>
     (\<forall>n. given_out E w n \<longrightarrow> given_out E w' n)"

lemma label_moves_on: "moves_on E w d w' d' \<Longrightarrow> label_ok E w d e r ps \<Longrightarrow> label_ok E w' d' e r ps"
  by (auto simp: moves_on_def label_ok_def)

lemma call_moves_on: "moves_on E w d w' d' \<Longrightarrow> call_ok E w d k \<Longrightarrow> call_ok E w' d' k"
  using label_moves_on [of E w d w' d']
  by (cases "(E, w, d, k)" rule: call_ok.cases) (simp_all add: moves_on_def)

lemma fetch_moves_on: "moves_on E w d w' d' \<Longrightarrow> fetch_ok E w d f \<Longrightarrow> fetch_ok E w' d' f"
  using label_moves_on [of E w d w' d']
  by (cases "(E, w, d, f)" rule: fetch_ok.cases) (simp_all add: moves_on_def)

lemma tier_moves_on: "moves_on E w d w' d' \<Longrightarrow> tier_ok E w d m \<Longrightarrow> tier_ok E w' d' m"
  unfolding tier_ok_def using label_moves_on by metis

lemma conc_inv_moves_on:
  assumes "conc_inv E c" and "moves_on E (cc_world c) (cc_dirty c) w' d'"
    and "epoch_ok E w'" and "cache_ok E w' d'"
  shows "conc_inv E (c\<lparr>cc_world := w', cc_dirty := d'\<rparr>)"
  using assms call_moves_on [OF assms(2)] fetch_moves_on [OF assms(2)] label_moves_on [OF assms(2)] tier_moves_on [OF assms(2)]
  by (fastforce simp: conc_inv_def Let_def moves_on_def)

lemma cache_moves_on:
  "moves_on E w d w' d' \<Longrightarrow> cache_ok E w d \<Longrightarrow> w_cache w' = w_cache w \<Longrightarrow> cache_ok E w' d'"
  unfolding cache_ok_def using tier_moves_on by metis

lemma moves_on_same:
  "w_redisEpoch w' = w_redisEpoch w \<Longrightarrow> w_invalidationEpoch w' = w_invalidationEpoch w \<Longrightarrow>
     w_db w' = w_db w \<Longrightarrow> moves_on E w d w' d"
  by (simp add: moves_on_def given_out_def shared_epoch_def split: option.split)

lemma epoch_ok_same:
  "w_redisEpoch w' = w_redisEpoch w \<Longrightarrow> w_invalidationEpoch w' = w_invalidationEpoch w \<Longrightarrow>
     epoch_ok E w' = epoch_ok E w"
  by (simp add: epoch_ok_def cong: option.case_cong)

lemma conc_inv_call:
  "conc_inv E c \<Longrightarrow> call_ok E (cc_world c) (cc_dirty c) k \<Longrightarrow> conc_inv E (call_goes i k c)"
  by (auto simp: conc_inv_def call_goes_def Let_def ran_def)

lemma conc_inv_fetch:
  "conc_inv E c \<Longrightarrow> fetch_ok E (cc_world c) (cc_dirty c) s \<Longrightarrow> conc_inv E (fetch_goes f s c)"
  by (auto simp: conc_inv_def fetch_goes_def Let_def ran_def)

lemma conc_inv_pending [simp]: "conc_inv E (c\<lparr>cc_pending := p\<rparr>) = conc_inv E c"
  by (simp add: conc_inv_def)

lemma conc_invD:
  assumes "conc_inv E c"
  shows "epoch_ok E (cc_world c)" "cache_ok E (cc_world c) (cc_dirty c)"
    "cc_calls c i = Some k \<Longrightarrow> call_ok E (cc_world c) (cc_dirty c) k"
    "cc_fetches c f = Some s \<Longrightarrow> fetch_ok E (cc_world c) (cc_dirty c) s"
    "(r, e, ps) \<in> set (cc_writes c) \<Longrightarrow> label_ok E (cc_world c) (cc_dirty c) e r ps"
    "(n, rs) \<in> set (cc_bumps c) \<Longrightarrow> e_redisConfigured E \<Longrightarrow> given_out E (cc_world c) n"
    "tier_ok E (cc_world c) (cc_dirty c) (cc_memory c)"
  using assms by (auto simp: conc_inv_def Let_def intro: ranI)

section \<open>Every step keeps the invariant\<close>

lemma conc_inv_same:
  assumes inv: "conc_inv E c" and same: "w_redisEpoch w = w_redisEpoch (cc_world c)"
    "w_invalidationEpoch w = w_invalidationEpoch (cc_world c)" "w_db w = w_db (cc_world c)"
    and cache: "cache_ok E w (cc_dirty c)"
  shows "conc_inv E (c\<lparr>cc_world := w\<rparr>)"
  using conc_inv_moves_on [OF inv moves_on_same [OF same] _ cache] conc_invD(1) [OF inv]
  by (simp add: epoch_ok_same [OF same(1,2)] conc_inv_def)

lemma cache_ok_same:
  "w_redisEpoch w' = w_redisEpoch w \<Longrightarrow> w_invalidationEpoch w' = w_invalidationEpoch w \<Longrightarrow>
     w_db w' = w_db w \<Longrightarrow> w_cache w' = w_cache w \<Longrightarrow> cache_ok E w d \<Longrightarrow> cache_ok E w' d"
  by (rule cache_moves_on [OF moves_on_same])

lemma inv_epoch_answered:
  assumes "conc_inv E c"
  shows "conc_inv E (call_goes i (EpochAnswered r (redis_epoch_answer E (cc_world c))) c)"
  by (rule conc_inv_call [OF assms])
    (cases "w_redisEpoch (cc_world c)"; simp add: redis_epoch_answer_def given_out_def)

text \<open>Redis' answer becomes the local epoch; or the local one is used, which is not ahead.\<close>

lemma local_epoch_le: "epoch_ok E w \<Longrightarrow> w_invalidationEpoch w \<le> shared_epoch E w"
  by (auto simp: epoch_ok_def shared_epoch_def split: option.splits)

lemma given_out_le: "given_out E w n \<Longrightarrow> e_redisConfigured E \<Longrightarrow> n \<le> shared_epoch E w"
  by (auto simp: given_out_def shared_epoch_def)

lemma set_local_ok:
  assumes "conc_inv E c" "given_out E (cc_world c) (w_invalidationEpoch w)" "e_redisConfigured E"
    and "w_redisEpoch w = w_redisEpoch (cc_world c)" "w_db w = w_db (cc_world c)" "w_cache w = w_cache (cc_world c)"
  shows "conc_inv E (c\<lparr>cc_world := w\<rparr>)" and "w_invalidationEpoch w \<le> shared_epoch E w"
proof -
  have same: "shared_epoch E w = shared_epoch E (cc_world c)"
    using assms(2-4) by (auto simp: given_out_def shared_epoch_def)
  then have mv: "moves_on E (cc_world c) (cc_dirty c) w (cc_dirty c)"
    using assms(4,5) by (simp add: moves_on_def given_out_def)
  have "conc_inv E (c\<lparr>cc_world := w, cc_dirty := cc_dirty c\<rparr>)"
    by (rule conc_inv_moves_on [OF assms(1) mv _ cache_moves_on [OF mv conc_invD(2) [OF assms(1)] assms(6)]])
      (use assms(2-4) in \<open>auto simp: given_out_def epoch_ok_def\<close>)
  then show "conc_inv E (c\<lparr>cc_world := w\<rparr>)" by (simp add: conc_inv_def)
  show "w_invalidationEpoch w \<le> shared_epoch E w"
    using assms(2,3) unfolding same by (auto simp: given_out_def shared_epoch_def)
qed

lemma inv_epoch_resumed:
  assumes inv: "conc_inv E c" and k: "cc_calls c i = Some (EpochAnswered r stored)"
    and w: "epoch_resumes stored (cc_world c) = (e, w)"
  shows "conc_inv E (call_goes i (ReadCache r e) (c\<lparr>cc_world := w\<rparr>))"
proof (cases stored)
  case None
  with w have "w = cc_world c" "e = w_invalidationEpoch (cc_world c)" by (auto simp: epoch_resumes_def)
  then show ?thesis using inv local_epoch_le [OF conc_invD(1) [OF inv]] by (auto intro: conc_inv_call)
next
  case (Some n)
  with conc_invD(3) [OF inv k] have g: "e_redisConfigured E" "given_out E (cc_world c) n" by simp_all
  from Some w have "w = (cc_world c)\<lparr>w_invalidationEpoch := n\<rparr>" "e = n"
    by (auto simp: epoch_resumes_def)
  with set_local_ok [OF inv _ g(1), of w] g(2) show ?thesis by (auto intro!: conc_inv_call)
qed

lemma cache_get_Some: "cache_get t k m = Some v \<Longrightarrow> \<exists>x. m k = Some (v, x)"
  by (auto simp: cache_get_def split: option.splits prod.splits if_splits)

lemma cache_answer_ok:
  assumes "cache_ok E w d" "tier_ok E w d m" and "e \<le> shared_epoch E w"
  shows "call_ok E w d (CacheAnswered r e (cache_answer r e m w))"
proof (cases "cache_answer r e m w")
  case None
  with assms show ?thesis by simp
next
  case (Some ps)
  then have "cached_perms (tiered_get (rolePermissionCacheKey r) m w) = Some (e, ps)"
    by (auto simp: cache_answer_def split: option.splits if_splits prod.splits)
  then have "tiered_get (rolePermissionCacheKey r) m w = Some (CPerms e ps)"
    by (auto elim!: cached_perms.elims)
  then obtain x where "m (rolePermissionCacheKey r) = Some (CPerms e ps, x) \<or>
      w_cache w (rolePermissionCacheKey r) = Some (CPerms e ps, x)"
    by (auto simp: tiered_get_def dest!: cache_get_Some split: option.splits)
  with assms Some show ?thesis by (auto simp: cache_ok_def tier_ok_def)
qed

lemma inv_cache_resumed:
  assumes inv: "conc_inv E c" and "cc_calls c i = Some (CacheAnswered r e hit)"
  shows "conc_inv E (cache_resumes i f r e hit c)"
  using conc_invD(3) [OF assms]
  by (cases hit) (auto simp: cache_resumes_def split: option.split
      intro!: conc_inv_call conc_inv_fetch inv, simp add: call_goes_def)

lemma inv_fetch_resumed:
  assumes inv: "conc_inv E c" and "cc_fetches c f = Some (Queried r snapshot e result)"
  shows "conc_inv E (fetch_resumes f r snapshot e result c)"
proof (cases "\<exists>ps. result = Some ps \<and> snapshot = w_invalidationEpoch (cc_world c)")
  case True
  then obtain ps where res: "result = Some ps" and snap: "snapshot = w_invalidationEpoch (cc_world c)" by blast
  let ?w = "remember_key r (cc_world c)"
  have mv: "moves_on E (cc_world c) (cc_dirty c) ?w (cc_dirty c)"
    by (rule moves_on_same) (simp_all add: remember_key_def)
  have "conc_inv E (c\<lparr>cc_world := ?w\<rparr>)"
    by (rule conc_inv_same [OF inv _ _ _ cache_ok_same [OF _ _ _ _ conc_invD(2) [OF inv]]])
      (simp_all add: remember_key_def)
  moreover have "label_ok E ?w (cc_dirty c) e r ps"
    using conc_invD(4) [OF inv assms(2)] res by (simp add: label_moves_on [OF mv])
  ultimately have "conc_inv E ((world_goes (remember_key r) c)\<lparr>cc_writes := cc_writes c @ [(r, e, ps)]\<rparr>)"
    by (auto simp: conc_inv_def world_goes_def Let_def)
  with res snap show ?thesis by (simp add: fetch_resumes_def Let_def conc_inv_fetch)
qed (use conc_inv_fetch [OF inv] in \<open>auto simp: fetch_resumes_def Let_def split: option.splits\<close>)

lemma inv_query_answered:
  assumes inv: "conc_inv E c" and f: "cc_fetches c f = Some (Querying r snapshot e)"
  shows "conc_inv E (fetch_goes f (Queried r snapshot e (query_answer r (cc_world c))) c)"
  by (rule conc_inv_fetch [OF inv])
    (use conc_invD(4) [OF inv f] in \<open>simp add: query_answer_def label_ok_def\<close>)

text \<open>A commit takes the tables ahead of every label; a bump takes the epoch there.\<close>

lemma inv_commit:
  assumes inv: "conc_inv E c"
  shows "conc_inv E ((world_goes (\<lambda>w. w\<lparr>w_db := d\<rparr>) c)\<lparr>cc_dirty := Suc (cc_dirty c)\<rparr>)"
proof -
  let ?w = "(cc_world c)\<lparr>w_db := d\<rparr>"
  have "moves_on E (cc_world c) (cc_dirty c) ?w (Suc (cc_dirty c))"
    by (auto simp: moves_on_def given_out_def shared_epoch_def split: option.split)
  from conc_inv_moves_on [OF inv this _ cache_moves_on [OF this conc_invD(2) [OF inv]]] conc_invD(1) [OF inv]
  show ?thesis by (simp add: world_goes_def epoch_ok_same [of ?w "cc_world c"])
qed

lemma inv_bump:
  assumes inv: "conc_inv E c" and d: "cc_dirty c = Suc n"
  shows "conc_inv E ((bump_answers E rs c)\<lparr>cc_dirty := n\<rparr>)"
proof -
  let ?n = "shared_epoch E (cc_world c) + 1"
  let ?w = "if e_redisConfigured E then (cc_world c)\<lparr>w_redisEpoch := Some ?n\<rparr>
    else (cc_world c)\<lparr>w_invalidationEpoch := ?n\<rparr>"
  have sh: "shared_epoch E ?w = ?n" by (simp add: shared_epoch_def)
  have giv: "given_out E (cc_world c) k \<Longrightarrow> given_out E ?w k" for k
    by (auto simp: given_out_def shared_epoch_def)
  have "moves_on E (cc_world c) (Suc n) ?w n" using sh giv by (simp add: moves_on_def)
  note mv = this [folded d]
  have ok: "epoch_ok E ?w"
    using conc_invD(1) [OF inv] by (auto simp: epoch_ok_def shared_epoch_def split: option.splits)
  have "conc_inv E (c\<lparr>cc_world := ?w, cc_dirty := n\<rparr>)"
    by (rule conc_inv_moves_on [OF inv mv ok cache_moves_on [OF mv conc_invD(2) [OF inv]]]) simp
  moreover have "e_redisConfigured E \<Longrightarrow> given_out E ?w ?n" by (simp add: given_out_def)
  ultimately show ?thesis
    by (auto simp: bump_answers_def Let_def world_goes_def conc_inv_def)
qed

lemma inv_bump_resumed:
  assumes inv: "conc_inv E c" and b: "cc_bumps c = (n, rs) # bs"
  shows "conc_inv E (bump_resumes E n rs (c\<lparr>cc_bumps := bs\<rparr>))"
proof -
  let ?w = "(cc_world c)\<lparr>w_invalidationEpoch := if e_redisConfigured E then n else w_invalidationEpoch (cc_world c),
      w_cachedRoleKeys := List.filter (\<lambda>k. k \<notin> rolePermissionCacheKey ` rs) (w_cachedRoleKeys (cc_world c))\<rparr>"
  have inv': "conc_inv E (c\<lparr>cc_bumps := bs\<rparr>)" using inv b by (auto simp: conc_inv_def Let_def)
  have "conc_inv E (c\<lparr>cc_bumps := bs, cc_world := ?w\<rparr>)"
  proof (cases "e_redisConfigured E")
    case True
    with conc_invD(6) [OF inv] b have "given_out E (cc_world c) n" by auto
    with set_local_ok(1) [OF inv' _ True, of ?w] True show ?thesis by simp
  next
    case False
    have "cache_ok E ?w (cc_dirty c)"
      by (rule cache_ok_same [OF _ _ _ _ conc_invD(2) [OF inv]]) (use False in simp_all)
    with False show ?thesis by (intro conc_inv_same [OF inv']) simp_all
  qed
  then show ?thesis by (simp add: bump_resumes_def world_goes_def split del: if_split cong: if_cong)
qed

lemma tier_put:
  "tier_ok E w d m \<Longrightarrow> label_ok E w d e r ps \<Longrightarrow>
     tier_ok E w d (cache_put t (rolePermissionCacheKey r) (CPerms e ps) ttl m)"
  by (auto simp: tier_ok_def cache_put_def split: if_splits)

lemma conc_inv_memory:
  "conc_inv E c \<Longrightarrow> tier_ok E (cc_world c) (cc_dirty c) m \<Longrightarrow> conc_inv E (c\<lparr>cc_memory := m\<rparr>)"
  by (simp add: conc_inv_def Let_def)

lemma inv_write_arrived:
  assumes inv: "conc_inv E c" and ws: "cc_writes c = xs @ (r, e, ps) # ys"
  shows "conc_inv E ((write_arrives E r e ps c)\<lparr>cc_writes := xs @ ys\<rparr>)"
proof -
  let ?k = "rolePermissionCacheKey r"
  let ?w = "snd (cacheSet ?k (CPerms e ps) (e_rbacCacheTtl E) (cc_world c))"
  let ?m = "if e_redisConfigured E
    then cache_put (w_now (cc_world c)) ?k (CPerms e ps) (e_rbacCacheTtl E) (cc_memory c) else cc_memory c"
  have same: "w_redisEpoch ?w = w_redisEpoch (cc_world c)" "w_invalidationEpoch ?w = w_invalidationEpoch (cc_world c)"
    "w_db ?w = w_db (cc_world c)" by (simp_all add: cacheSet_def)
  note mv = moves_on_same [OF same, of E "cc_dirty c"]
  have lab: "label_ok E ?w (cc_dirty c) e r ps" using conc_invD(5) [OF inv] ws label_moves_on [OF mv] by auto
  have "tier_ok E ?w (cc_dirty c) (w_cache (cc_world c))"
    using conc_invD(2) [OF inv] tier_moves_on [OF mv] by (simp add: cache_ok_def)
  moreover have "w_cache ?w = (if cacheSetFails (w_faults (cc_world c)) ?k then w_cache (cc_world c)
      else cache_put (w_now (cc_world c)) ?k (CPerms e ps) (e_rbacCacheTtl E) (w_cache (cc_world c)))"
    by (simp add: cacheSet_def)
  ultimately have "cache_ok E ?w (cc_dirty c)"
    unfolding cache_ok_def using tier_put [OF _ lab] by presburger
  from conc_inv_same [OF inv same this] have "conc_inv E (c\<lparr>cc_world := ?w\<rparr>)" .
  moreover have "tier_ok E ?w (cc_dirty c) ?m"
    using tier_put [OF tier_moves_on [OF mv conc_invD(7) [OF inv]] lab] tier_moves_on [OF mv conc_invD(7) [OF inv]]
    by simp
  ultimately have "conc_inv E (write_arrives E r e ps c)"
    unfolding write_arrives_def Let_def using conc_inv_memory by fastforce
  with ws show ?thesis by (simp add: conc_inv_def write_arrives_def Let_def)
qed

lemma inv_memory_changes:
  assumes inv: "conc_inv E c"
    and m: "\<And>k v x. m k = Some (v, x) \<Longrightarrow> v \<in> fst ` (set_option (cc_memory c k) \<union> set_option (w_cache (cc_world c) k))"
  shows "conc_inv E (c\<lparr>cc_memory := m\<rparr>)"
proof -
  have "label_ok E (cc_world c) (cc_dirty c) e r ps" if "m (rolePermissionCacheKey r) = Some (CPerms e ps, x)" for r e ps x
    using m [OF that] conc_invD(2,7) [OF inv] by (fastforce simp: cache_ok_def tier_ok_def)
  then show ?thesis by (intro conc_inv_memory [OF inv]) (simp add: tier_ok_def)
qed

lemma inv_time_and_faults:
  assumes inv: "conc_inv E c"
  shows "conc_inv E (world_goes (\<lambda>w. w\<lparr>w_now := t, w_faults := fl\<rparr>) c)"
proof -
  let ?w = "(cc_world c)\<lparr>w_now := t, w_faults := fl\<rparr>"
  have "conc_inv E (c\<lparr>cc_world := ?w\<rparr>)"
    by (rule conc_inv_same [OF inv _ _ _ cache_ok_same [OF _ _ _ _ conc_invD(2) [OF inv]]]) simp_all
  then show ?thesis by (simp add: world_goes_def)
qed

lemma step_keeps_conc_inv:
  assumes "cstep E c c'" and "conc_inv E c"
  shows "conc_inv E c'"
  using assms
proof (cases rule: cstep.cases)
  case (cache_answered i r e)
  with conc_invD [OF assms(2)] have "call_ok E (cc_world c) (cc_dirty c) (ReadCache r e)" by blast
  with cache_answered assms(2) show ?thesis
    by (auto intro!: conc_inv_call cache_answer_ok simp: conc_invD(2,7))
next
  case (call_returns i r f result)
  with assms(2) show ?thesis by (auto intro: conc_inv_call)
qed (use assms(2) in \<open>auto intro: inv_epoch_answered inv_epoch_resumed inv_cache_resumed inv_query_answered
    inv_fetch_resumed inv_memory_changes inv_commit inv_bump inv_bump_resumed inv_write_arrived inv_time_and_faults conc_inv_call\<close>)

section \<open>Clusters\<close>

text \<open>What one instance does is, for another, a move of the world it sees.\<close>

lemma step_moves_on:
  assumes "cstep E c c'" and inv: "conc_inv E c"
  shows "moves_on E (cc_world c) (cc_dirty c) (cc_world c') (cc_dirty c')"
  using assms(1)
proof (cases rule: cstep.cases)
  case (epoch_resumed i r stored e w)
  show ?thesis
  proof (cases stored)
    case (Some n)
    with conc_invD(3) [OF inv epoch_resumed(2)] epoch_resumed show ?thesis
      by (auto simp: epoch_resumes_def call_goes_def moves_on_def given_out_def shared_epoch_def)
  qed (use epoch_resumed in \<open>auto simp: epoch_resumes_def call_goes_def moves_on_def\<close>)
next
  case (bump n rs)
  then show ?thesis
    by (auto simp: bump_answers_def Let_def world_goes_def moves_on_def given_out_def shared_epoch_def)
next
  case (bump_resumed n rs bs)
  with conc_invD(6) [OF inv, of n rs] show ?thesis
    by (auto simp: bump_resumes_def world_goes_def moves_on_def given_out_def shared_epoch_def split: option.split)
next
  case (commit d)
  then show ?thesis
    by (auto simp: world_goes_def moves_on_def given_out_def shared_epoch_def split: option.split)
qed (auto simp: call_goes_def fetch_goes_def cache_resumes_def fetch_resumes_def world_goes_def remember_key_def
      write_arrives_def cacheSet_def Let_def intro!: moves_on_same split: option.splits)

definition agree :: "conf \<Rightarrow> conf \<Rightarrow> bool" where
  "agree c c' \<longleftrightarrow> w_db (cc_world c') = w_db (cc_world c) \<and>
     w_redisEpoch (cc_world c') = w_redisEpoch (cc_world c) \<and>
     w_cache (cc_world c') = w_cache (cc_world c) \<and> cc_dirty c' = cc_dirty c"

lemma agree_shared_epoch:
  assumes "e_redisConfigured E" "agree c c'" "epoch_ok E (cc_world c)" "epoch_ok E (cc_world c')"
  shows "shared_epoch E (cc_world c') = shared_epoch E (cc_world c)"
  using assms by (auto simp: agree_def epoch_ok_def shared_epoch_def split: option.splits)

lemma agree_sees [simp]: "agree c' (sees c' c)"
  by (simp add: agree_def sees_def)

lemma agree_trans: "agree a b \<Longrightarrow> agree a c \<Longrightarrow> agree b c"
  by (simp add: agree_def)

lemma seen_step:
  assumes redis: "e_redisConfigured E" and p: "conc_inv E cp" and q: "conc_inv E cq" and "agree cp cq"
    and step: "cstep E cp c'"
  shows "conc_inv E (sees c' cq)"
proof -
  let ?w = "cc_world (sees c' cq)"
  have inv': "conc_inv E c'" by (rule step_keeps_conc_inv [OF step p])
  note mv = step_moves_on [OF step p]
  have ok: "epoch_ok E ?w"
  proof (cases "w_redisEpoch (cc_world cq)")
    case None
    with conc_invD(1) [OF q] redis have "w_invalidationEpoch (cc_world cq) = 0" by (simp add: epoch_ok_def)
    moreover have "0 \<le> shared_epoch E (cc_world c')"
      using mv None \<open>agree cp cq\<close> conc_invD(1) [OF p] redis
      by (auto simp: moves_on_def agree_def epoch_ok_def shared_epoch_def split: option.splits)
    ultimately show ?thesis
      using conc_invD(1) [OF inv'] redis
      by (auto simp: sees_def epoch_ok_def shared_epoch_def split: option.splits)
  next
    case (Some n)
    with \<open>agree cp cq\<close> have "given_out E (cc_world cp) n" by (metis agree_def given_out_def order_refl)
    with mv have "given_out E (cc_world c') n" by (simp add: moves_on_def)
    with Some conc_invD(1) [OF q] redis show ?thesis by (auto simp: given_out_def sees_def epoch_ok_def)
  qed
  have sh': "shared_epoch E ?w = shared_epoch E (cc_world c')"
    by (rule agree_shared_epoch [OF redis agree_sees conc_invD(1) [OF inv'] ok])
  have sh: "shared_epoch E (cc_world cq) = shared_epoch E (cc_world cp)"
    by (rule agree_shared_epoch [OF redis \<open>agree cp cq\<close> conc_invD(1) [OF p] conc_invD(1) [OF q]])
  have "moves_on E (cc_world cq) (cc_dirty cq) ?w (cc_dirty c')"
    using mv sh sh' \<open>agree cp cq\<close> by (auto simp: moves_on_def agree_def given_out_def sees_def)
  moreover have "cache_ok E ?w (cc_dirty c')"
    using conc_invD(2) [OF inv'] sh' by (simp add: cache_ok_def tier_ok_def label_ok_def sees_def)
  ultimately have "conc_inv E (cq\<lparr>cc_world := ?w, cc_dirty := cc_dirty c'\<rparr>)"
    using conc_inv_moves_on [OF q _ ok] by blast
  then show ?thesis by (simp add: sees_def)
qed

definition cluster_inv :: "env \<Rightarrow> (nat \<Rightarrow> conf) \<Rightarrow> bool" where
  "cluster_inv E m \<longleftrightarrow> (\<forall>p. runs E p \<longrightarrow> conc_inv E (m p)) \<and> (\<forall>p q. agree (m p) (m q))"

lemma cluster_run_keeps:
  assumes "cluster_run E m m'" and "cluster_inv E m"
  shows "cluster_inv E m'"
  using assms
proof (induction rule: cluster_run.induct)
  case (run_step m' p c')
  then have inv: "runs E q \<Longrightarrow> conc_inv E (m' q)" and ag: "agree (m' q) (m' r)" for q r
    by (simp_all add: cluster_inv_def)
  have "conc_inv E (cluster_after p c' m' q)" if "runs E q" for q
  proof (cases "q = p")
    case True
    then show ?thesis using step_keeps_conc_inv [OF run_step.hyps(3) inv [OF run_step.hyps(2)]]
      by (simp add: cluster_after_def)
  next
    case False
    with that run_step.hyps(2) have "e_redisConfigured E" by (auto simp: runs_def)
    from seen_step [OF this inv [OF run_step.hyps(2)] inv [OF that] ag run_step.hyps(3)] False
    show ?thesis by (simp add: cluster_after_def)
  qed
  moreover have "agree c' (cluster_after p c' m' q)" for q
    by (simp add: cluster_after_def) (simp add: agree_def)
  ultimately show ?case unfolding cluster_inv_def by (meson agree_trans)
qed simp

text \<open>A cluster at rest: each instance with a local epoch of its own.\<close>

definition cluster_at_rest :: "env \<Rightarrow> world \<Rightarrow> (nat \<Rightarrow> conf) \<Rightarrow> bool" where
  "cluster_at_rest E w m \<longleftrightarrow> (\<forall>p. \<exists>n. m p = at_rest (w\<lparr>w_invalidationEpoch := n\<rparr>) \<and>
     (runs E p \<longrightarrow> coherent E (w\<lparr>w_invalidationEpoch := n\<rparr>)))"

lemma at_rest_inv: "coherent E w \<Longrightarrow> conc_inv E (at_rest w)"
  by (auto simp: conc_inv_def at_rest_def coherent_def entries_ok_def cache_ok_def tier_ok_def label_ok_def Let_def order.strict_iff_order)

lemma cluster_at_rest_inv: 
  assumes "cluster_at_rest E w m"
  shows "cluster_inv E m"
  unfolding cluster_inv_def
proof (intro conjI allI impI)
  show "conc_inv E (m p)" if "runs E p" for p
    using assms that unfolding cluster_at_rest_def by (metis at_rest_inv)
  show "agree (m p) (m q)" for p q
  proof -
    obtain i j where "m p = at_rest (w\<lparr>w_invalidationEpoch := i\<rparr>)" "m q = at_rest (w\<lparr>w_invalidationEpoch := j\<rparr>)"
      using assms unfolding cluster_at_rest_def by blast
    then show ?thesis by (simp add: agree_def at_rest_def)
  qed
qed

lemma conc_inv_coherent:
  assumes "conc_inv E c" "cc_dirty c = 0"
  shows "coherent E (cc_world c)"
  using conc_invD(1,2) [OF assms(1)] assms(2)
  by (auto simp: coherent_def entries_ok_def cache_ok_def tier_ok_def label_ok_def)

end
