(* ===== verification/Rbac_Concurrent_Properties.thy ===== *)
theory Rbac_Concurrent_Properties
  imports Rbac_Concurrent Rbac_Properties
begin

text \<open>
  What the cache of permission sets guarantees when calls and mutations overlap, in any number of
  instances, and the one thing it does not: a call may join a fetch that is older than itself.
\<close>

section \<open>The cache\<close>

text \<open>
  C3. In every interleaving of permission checks, fetches, cache writes, commits and bumps of any
  instances, once every committed mutation is announced a set in Redis or in an instance's memory tier
  whose epoch is the agreed one is what the tables grant, and so is every answer of the cache to a call that
  read that epoch.
\<close>

theorem concurrent_cache_sound:
  assumes "cluster_at_rest E w m" and "cluster_run E m m'" and "runs E p" and "cc_dirty (m' p) = 0"
  shows "\<forall>r ps. (\<exists>x. w_cache (cc_world (m' p)) (rolePermissionCacheKey r) =
        Some (CPerms (shared_epoch E (cc_world (m' p))) ps, x)) \<or>
      (\<exists>x. cc_memory (m' p) (rolePermissionCacheKey r) = Some (CPerms (shared_epoch E (cc_world (m' p))) ps, x)) \<or>
      (\<exists>i. cc_calls (m' p) i = Some (CacheAnswered r (shared_epoch E (cc_world (m' p))) (Some ps))) \<longrightarrow>
      set ps = set (fetchPermissionStringsForRole r (w_db (cc_world (m' p))))"
proof -
  have inv: "conc_inv E (m' p)"
    using cluster_run_keeps [OF assms(2) cluster_at_rest_inv [OF assms(1)]] assms(3) by (simp add: cluster_inv_def)
  have "set ps = set (fetchPermissionStringsForRole r (w_db (cc_world (m' p))))"
    if "cc_calls (m' p) i = Some (CacheAnswered r (shared_epoch E (cc_world (m' p))) (Some ps))" for i r ps
    using conc_invD(3) [OF inv that] assms(4) by (simp add: label_ok_def)
  moreover have "set ps = set (fetchPermissionStringsForRole r (w_db (cc_world (m' p))))"
    if "w_cache (cc_world (m' p)) (rolePermissionCacheKey r) =
        Some (CPerms (shared_epoch E (cc_world (m' p))) ps, x)" for r ps x
    using conc_inv_coherent [OF inv assms(4)] that by (auto simp: coherent_def entries_ok_def)
  moreover have "set ps = set (fetchPermissionStringsForRole r (w_db (cc_world (m' p))))"
    if "cc_memory (m' p) (rolePermissionCacheKey r) = Some (CPerms (shared_epoch E (cc_world (m' p))) ps, x)" for r ps x
    using conc_invD(7) [OF inv] assms(4) that by (auto simp: tier_ok_def label_ok_def)
  ultimately show ?thesis by blast
qed

section \<open>Runs of one instance\<close>

abbreviation csteps :: "env \<Rightarrow> conf \<Rightarrow> conf \<Rightarrow> bool" where
  "csteps E \<equiv> (cstep E)\<^sup>*\<^sup>*"

lemma sees_sees [simp]: "sees c'' (sees c' c) = sees c'' c"
  by (simp add: sees_def)

lemma cluster_after_twice [simp]: "cluster_after p c'' (cluster_after p c' m) = cluster_after p c'' m"
  by (auto simp: cluster_after_def)

lemma run_steps:
  assumes "csteps E (m' p) c'" and "cluster_run E m m'" and "runs E p" and "c' \<noteq> m' p"
  shows "cluster_run E m (cluster_after p c' m')"
  using assms(1,4)
proof (induction rule: rtranclp_induct)
  case (step c1 c2)
  show ?case
  proof (cases "c1 = m' p")
    case True
    with step.hyps(2) show ?thesis using run_step [OF assms(2,3)] by simp
  next
    case False
    have "cstep E (cluster_after p c1 m' p) c2" using step.hyps(2) by (simp add: cluster_after_def)
    from run_step [OF step.IH [OF False] assms(3) this] show ?thesis by simp
  qed
qed simp

lemma call_goes_simps [simp]:
  "cc_calls (call_goes i k c) = (cc_calls c)(i \<mapsto> k)" "cc_world (call_goes i k c) = cc_world c"
  "cc_fetches (call_goes i k c) = cc_fetches c" "cc_pending (call_goes i k c) = cc_pending c"
  "cc_memory (call_goes i k c) = cc_memory c" "cc_bumps (call_goes i k c) = cc_bumps c" "cc_writes (call_goes i k c) = cc_writes c" "cc_dirty (call_goes i k c) = cc_dirty c"
  by (simp_all add: call_goes_def)

lemma fetch_goes_simps [simp]:
  "cc_fetches (fetch_goes f s c) = (cc_fetches c)(f \<mapsto> s)" "cc_world (fetch_goes f s c) = cc_world c"
  "cc_calls (fetch_goes f s c) = cc_calls c" "cc_pending (fetch_goes f s c) = cc_pending c"
  "cc_memory (fetch_goes f s c) = cc_memory c" "cc_bumps (fetch_goes f s c) = cc_bumps c" "cc_writes (fetch_goes f s c) = cc_writes c" "cc_dirty (fetch_goes f s c) = cc_dirty c"
  by (simp_all add: fetch_goes_def)

text \<open>Steps of one instance during which the tables stay \<open>d\<close>.\<close>

definition steps_over :: "env \<Rightarrow> database \<Rightarrow> conf \<Rightarrow> conf \<Rightarrow> bool" where
  "steps_over E d = (\<lambda>a b. cstep E a b \<and> w_db (cc_world b) = d)\<^sup>*\<^sup>*"

lemma steps_over_csteps: "steps_over E d a b \<Longrightarrow> csteps E a b"
  unfolding steps_over_def by (erule rtranclp_mono [THEN predicate2D, rotated]) blast

lemma steps_over_more:
  "cstep E a b \<Longrightarrow> w_db (cc_world b) = d \<Longrightarrow> steps_over E d b c \<Longrightarrow> steps_over E d a c"
  unfolding steps_over_def by (rule converse_rtranclp_into_rtranclp) simp_all

lemma steps_over_refl: "steps_over E d a a"
  by (simp add: steps_over_def)

lemma epoch_resumes_keeps:
  "epoch_resumes stored w = (e, w') \<Longrightarrow> w_db w' = w_db w \<and> w_cache w' = w_cache w \<and>
     w_faults w' = w_faults w \<and> w_redisEpoch w' = w_redisEpoch w"
  by (auto simp: epoch_resumes_def split: option.splits)

text \<open>A new call reads the epoch and misses the cache.\<close>

lemma call_misses:
  assumes "cc_calls c i = None" and "w_cache (cc_world c) (rolePermissionCacheKey r) = None"
    and mem: "cc_memory c (rolePermissionCacheKey r) = None"
  obtains e w c' where "steps_over E (w_db (cc_world c)) c c'" and "epoch_resumes (redis_epoch_answer E (cc_world c)) (cc_world c) = (e, w)"
    and "c' = call_goes i (CacheAnswered r e None) (c\<lparr>cc_world := w\<rparr>)"
proof -
  obtain e w where ew: "epoch_resumes (redis_epoch_answer E (cc_world c)) (cc_world c) = (e, w)" by fastforce
  let ?c1 = "call_goes i (ReadEpoch r) c"
  let ?c2 = "call_goes i (EpochAnswered r (redis_epoch_answer E (cc_world c))) ?c1"
  let ?c3 = "call_goes i (ReadCache r e) (?c2\<lparr>cc_world := w\<rparr>)"
  have 1: "cstep E c ?c1" by (rule call_starts) (rule assms(1))
  have 2: "cstep E ?c1 ?c2"
    using epoch_answered [of ?c1 i r E] by simp
  have 3: "cstep E ?c2 ?c3"
    by (rule epoch_resumed [where stored = "redis_epoch_answer E (cc_world c)"]) (use ew in simp_all)
  have "cache_answer r e (cc_memory c) w = None"
    using ew assms(2,3) by (auto simp: epoch_resumes_def cache_answer_def tiered_get_def cache_get_def split: option.splits)
  with cache_answered [of ?c3 i r e E] have 4: "cstep E ?c3 (call_goes i (CacheAnswered r e None) ?c3)" by simp
  have "steps_over E (w_db (cc_world c)) c (call_goes i (CacheAnswered r e None) ?c3)"
    by (rule steps_over_more [OF 1 _ steps_over_more [OF 2 _ steps_over_more [OF 3 _ steps_over_more [OF 4 _ steps_over_refl]]]])
      (use epoch_resumes_keeps [OF ew] in simp_all)
  moreover have "call_goes i (CacheAnswered r e None) ?c3 = call_goes i (CacheAnswered r e None) (c\<lparr>cc_world := w\<rparr>)"
    by (simp add: call_goes_def)
  ultimately show ?thesis using that ew by simp
qed

text \<open>From rest: the first call's fetch has its answer from the database, and goes no further yet.\<close>

lemma fetch_pending:
  assumes "w_cache w (rolePermissionCacheKey r) = None" and "\<not> rbacQueryFails (w_faults w)"
  obtains c s e where "csteps E (at_rest w) c" and "cc_pending c (rolePermissionCacheKey r) = Some 0"
    and "cc_fetches c = [0 \<mapsto> Queried r s e (Some (fetchPermissionStringsForRole r (w_db w)))]"
    and "cc_calls c 1 = None" and "cc_bumps c = []" and "cc_dirty c = 0"
    and "epoch_resumes (redis_epoch_answer E w) w = (e, cc_world c)" and "s = w_invalidationEpoch (cc_world c)"
    and "cc_writes c = []" and "cc_memory c = Map.empty"
proof -
  obtain e w1 c1 where c1: "csteps E (at_rest w) c1" "epoch_resumes (redis_epoch_answer E w) w = (e, w1)"
    "c1 = call_goes 0 (CacheAnswered r e None) (at_rest w\<lparr>cc_world := w1\<rparr>)"
    by (rule call_misses [of "at_rest w" 0 r E])
      (use assms(1) in \<open>auto simp: at_rest_def intro: steps_over_csteps\<close>)
  note w1 = epoch_resumes_keeps [OF c1(2)]
  let ?c2 = "cache_resumes 0 0 r e None c1"
  let ?c3 = "fetch_goes 0 (Queried r (w_invalidationEpoch w1) e (query_answer r w1)) ?c2"
  have "cstep E c1 ?c2" by (rule cache_resumed) (simp_all add: c1(3) at_rest_def)
  moreover have "cstep E ?c2 ?c3"
    using query_answered [of ?c2 0 r "w_invalidationEpoch w1" e E] by (simp add: c1(3) at_rest_def cache_resumes_def)
  ultimately have "csteps E (at_rest w) ?c3" using c1(1) by (meson rtranclp.rtrancl_into_rtrancl)
  then show ?thesis
    by (rule that) (use w1 c1(2) assms(2) in \<open>simp_all add: c1(3) at_rest_def cache_resumes_def query_answer_def\<close>)
qed

text \<open>Another instance commits a mutation, announces it and is done.\<close>

lemma mutation_announced:
  assumes "e_redisConfigured E" and "cc_bumps c = []" and "cc_dirty c = 0"
  obtains c' where "csteps E c c'" and "w_db (cc_world c') = d" and "w_cache (cc_world c') = w_cache (cc_world c)"
    and "cc_bumps c' = []" and "cc_dirty c' = 0" and "w_faults (cc_world c') = w_faults (cc_world c)"
    and "w_redisEpoch (cc_world c') = Some (shared_epoch E (cc_world c) + 1)"
proof -
  let ?c1 = "(world_goes (\<lambda>w. w\<lparr>w_db := d\<rparr>) c)\<lparr>cc_dirty := Suc 0\<rparr>"
  let ?c2 = "(bump_answers E UNIV ?c1)\<lparr>cc_dirty := 0\<rparr>"
  let ?n = "shared_epoch E (cc_world ?c1) + 1"
  let ?c3 = "bump_resumes E ?n UNIV (?c2\<lparr>cc_bumps := []\<rparr>)"
  have "cstep E c ?c1" using commit [of E c d] assms(3) by simp
  moreover have "cstep E ?c1 ?c2" by (rule bump) simp
  moreover have "cstep E ?c2 ?c3"
    by (rule bump_resumed) (simp add: bump_answers_def Let_def assms(1,2) world_goes_def)
  ultimately have "csteps E c ?c3" by (meson converse_rtranclp_into_rtranclp rtranclp.rtrancl_refl)
  then show ?thesis
    by (rule that) (simp_all add: bump_resumes_def bump_answers_def world_goes_def Let_def assms(1)
      shared_epoch_def split: option.split)
qed

text \<open>A call that comes then joins the fetch, and returns what it had read.\<close>

lemma call_joins:
  assumes "cc_calls c i = None" and "w_cache (cc_world c) (rolePermissionCacheKey r) = None"
    and mem: "cc_memory c (rolePermissionCacheKey r) = None" and d: "w_db (cc_world c) = d"
    and "cc_pending c (rolePermissionCacheKey r) = Some f" and "cc_fetches c f = Some (Queried r s e (Some ps))"
    and "cc_fetches c g = None"
  obtains e' c1 c2 c3 where "steps_over E d c c1" and "cc_calls c1 i = Some (CacheAnswered r e' None)"
    and "fst (epoch_resumes (redis_epoch_answer E (cc_world c)) (cc_world c)) = e'"
    and "cstep E c1 c2" and "w_db (cc_world c2) = d" and "cc_calls c2 i = Some (Waiting r f)" and "cc_fetches c2 = cc_fetches c"
    and "steps_over E d c2 c3" and "cc_calls c3 i = Some (Done r (Some ps))"
    and "cc_fetches c3 = (cc_fetches c)(f \<mapsto> Settled (Some ps))"
proof -
  obtain e' w1 c1 where c1: "steps_over E d c c1"
    "epoch_resumes (redis_epoch_answer E (cc_world c)) (cc_world c) = (e', w1)"
    "c1 = call_goes i (CacheAnswered r e' None) (c\<lparr>cc_world := w1\<rparr>)"
    by (rule call_misses [OF assms(1,2,3), of E]) (use d in auto)
  have w1: "w_db w1 = d" using epoch_resumes_keeps [OF c1(2)] d by simp
  let ?c2 = "cache_resumes i g r e' None c1"
  let ?c3 = "fetch_resumes f r s e (Some ps) ?c2"
  let ?c4 = "call_goes i (Done r (Some ps)) ?c3"
  have 1: "cstep E c1 ?c2" by (rule cache_resumed) (simp_all add: c1(3) assms(7))
  have c2: "w_db (cc_world ?c2) = d" "cc_calls ?c2 i = Some (Waiting r f)" "cc_fetches ?c2 = cc_fetches c"
    by (simp_all add: c1(3) w1 assms(5) cache_resumes_def)
  have 2: "cstep E ?c2 ?c3"
    by (rule fetch_resumed) (simp add: c2(3) assms(6))
  have c3: "w_db (cc_world ?c3) = d" "cc_calls ?c3 i = Some (Waiting r f)"
    "cc_fetches ?c3 = (cc_fetches c)(f \<mapsto> Settled (Some ps))"
    using c2 by (simp_all add: fetch_resumes_def world_goes_def remember_key_def Let_def)
  have 3: "cstep E ?c3 ?c4" by (rule call_returns [where f = f]) (simp_all add: c3)
  have c24: "steps_over E d ?c2 ?c4"
    by (rule steps_over_more [OF 2 _ steps_over_more [OF 3 _ steps_over_refl]]) (simp_all add: c3(1))
  show ?thesis
    by (rule that [OF c1(1) _ _ 1 c2 c24]) (use c1(2,3) c3(3) in simp_all)
qed

section \<open>A stale answer\<close>

text \<open>
  C27. A permission check may answer from a fetch that is older than the mutation it should see. In
  one instance the role's fetch has its answer of the old tables (\<open>m1\<close>), read at the epoch \<open>e\<close>; another instance
  has committed new tables \<open>d\<close>, announced them, and answered its request. A check that starts only then in
  the first instance reads the new epoch \<open>e'\<close> and finds nothing in the cache (\<open>c1\<close>), but waits for the pending fetch (\<open>c2\<close>)
  and returns what the old tables granted (\<open>c3\<close>). The tables are \<open>d\<close> all along, and no other fetch is started.
\<close>

theorem check_joins_older_fetch:
  assumes "e_redisConfigured E" and "cluster_at_rest E w m"
    and "\<not> rbacQueryFails (w_faults w)" and "\<not> redisReadFails (w_faults w)"
    and "w_cache w (rolePermissionCacheKey r) = None"
  shows "\<exists>m1 c1 c2 c3 s e e'. cluster_run E m m1 \<and>
    (\<forall>p. cc_bumps (m1 p) = [] \<and> cc_dirty (m1 p) = 0 \<and> w_db (cc_world (m1 p)) = d) \<and>
    cc_calls (m1 0) 1 = None \<and> cc_pending (m1 0) (rolePermissionCacheKey r) = Some 0 \<and>
    cc_fetches (m1 0) = [0 \<mapsto> Queried r s e (Some (fetchPermissionStringsForRole r (w_db w)))] \<and>
    steps_over E d (m1 0) c1 \<and> cc_calls c1 1 = Some (CacheAnswered r e' None) \<and> e < e' \<and>
    cstep E c1 c2 \<and> w_db (cc_world c2) = d \<and> cc_calls c2 1 = Some (Waiting r 0) \<and>
    cc_fetches c2 = cc_fetches (m1 0) \<and> steps_over E d c2 c3 \<and>
    cc_calls c3 1 = Some (Done r (Some (fetchPermissionStringsForRole r (w_db w)))) \<and> dom (cc_fetches c3) = {0} \<and>
    cluster_run E m (cluster_after 0 c3 m1)"
proof -
  let ?old = "fetchPermissionStringsForRole r (w_db w)" and ?n = "case w_redisEpoch w of Some n \<Rightarrow> n | None \<Rightarrow> 0"
  have runs: "runs E p" for p using assms(1) by (simp add: runs_def)
  have at: "\<exists>i. m p = at_rest (w\<lparr>w_invalidationEpoch := i\<rparr>) \<and> (w_redisEpoch w = None \<longrightarrow> i = 0)" for p
    using assms(1,2) runs [of p] unfolding cluster_at_rest_def
    by (fastforce simp: coherent_def epoch_ok_def)
  obtain n where n: "m 0 = at_rest (w\<lparr>w_invalidationEpoch := n\<rparr>)" (is "_ = at_rest ?w") "w_redisEpoch w = None \<longrightarrow> n = 0"
    using at by blast
  have rest: "cc_bumps (m p) = []" for p
    using at [of p] by (auto simp: at_rest_def)
  obtain a s e where a: "csteps E (m 0) a" "cc_pending a (rolePermissionCacheKey r) = Some 0"
    "cc_fetches a = [0 \<mapsto> Queried r s e (Some ?old)]"
    "cc_calls a 1 = None" "cc_bumps a = []" "cc_dirty a = 0" "cc_memory a = Map.empty"
    and ew: "epoch_resumes (redis_epoch_answer E ?w) ?w = (e, cc_world a)"
    unfolding n by (rule fetch_pending [of ?w r E]) (use assms(3,5) in simp_all)
  have e: "e = ?n"
    using ew n(2) assms(1,4) by (auto simp: epoch_resumes_def redis_epoch_answer_def split: option.splits)
  have wa: "w_cache (cc_world a) = w_cache w" "w_faults (cc_world a) = w_faults w"
    "w_redisEpoch (cc_world a) = w_redisEpoch w"
    using epoch_resumes_keeps [OF ew] by simp_all
  let ?ma = "cluster_after 0 a m"
  have "a \<noteq> m 0" using a(2) by (auto simp: n at_rest_def)
  then have run_a: "cluster_run E m ?ma" using run_steps [of E m 0 a m] a(1) run_none runs by blast
  obtain b where b: "csteps E (?ma 1) b" "w_db (cc_world b) = d" "w_cache (cc_world b) = w_cache (cc_world (?ma 1))"
    "cc_bumps b = []" "cc_dirty b = 0" "w_faults (cc_world b) = w_faults (cc_world (?ma 1))"
    "w_redisEpoch (cc_world b) = Some (shared_epoch E (cc_world (?ma 1)) + 1)"
    by (rule mutation_announced [OF assms(1), of "?ma 1" d])
      (use a(6) rest in \<open>auto simp: cluster_after_def sees_def\<close>)
  have shared: "shared_epoch E (cc_world (?ma 1)) = ?n"
    using at [of 1] assms(1) wa(3) by (auto simp: shared_epoch_def cluster_after_def sees_def at_rest_def split: option.splits)
  let ?m1 = "cluster_after 1 b ?ma"
  have "b \<noteq> ?ma 1" using b(7) assms(1) by (auto simp: shared_epoch_def split: option.splits)
  then have run_b: "cluster_run E m ?m1" using run_steps [of E ?ma 1 b m] b(1) run_a runs by blast
  have m1: "?m1 0 = sees b a" by (simp add: cluster_after_def)
  have seen: "cc_fetches (sees b a) = [0 \<mapsto> Queried r s e (Some ?old)]" "w_cache (cc_world b) = w_cache w"
    "w_faults (cc_world b) = w_faults w" "w_redisEpoch (cc_world b) = Some (?n + 1)"
    using a(3) b(3,6,7) wa shared by (simp_all add: sees_def cluster_after_def)
  obtain e' c1 c2 c3 where c: "steps_over E d (sees b a) c1" "cc_calls c1 1 = Some (CacheAnswered r e' None)"
    "fst (epoch_resumes (redis_epoch_answer E (cc_world (sees b a))) (cc_world (sees b a))) = e'"
    "cstep E c1 c2" "w_db (cc_world c2) = d" "cc_calls c2 1 = Some (Waiting r 0)" "cc_fetches c2 = cc_fetches (sees b a)"
    "steps_over E d c2 c3" "cc_calls c3 1 = Some (Done r (Some ?old))"
    "cc_fetches c3 = (cc_fetches (sees b a))(0 \<mapsto> Settled (Some ?old))"
    by (rule call_joins [of "sees b a" 1 r d 0 s e ?old 1 E])
      (use a(2,4,7) b(2) seen assms(5) in \<open>simp_all add: sees_def\<close>)
  have "e' = ?n + 1"
    using c(3) seen(3,4) assms(1,4) by (simp add: redis_epoch_answer_def epoch_resumes_def sees_def)
  with e have "e < e'" by simp
  moreover have "dom (cc_fetches c3) = {0}" using c(10) seen(1) by simp
  moreover have "csteps E (?m1 0) c3"
    unfolding m1 using c(1,4,8) by (meson rtranclp.rtrancl_into_rtrancl rtranclp_trans steps_over_csteps)
  moreover have "c3 \<noteq> ?m1 0" unfolding m1 using c(9) a(4) by (auto simp: sees_def)
  ultimately have "e < e'" "dom (cc_fetches c3) = {0}" "cluster_run E m (cluster_after 0 c3 ?m1)"
    using run_steps [of E ?m1 0 c3 m] run_b runs by blast+
  moreover have "\<forall>p. cc_bumps (?m1 p) = [] \<and> cc_dirty (?m1 p) = 0 \<and> w_db (cc_world (?m1 p)) = d"
    using a(5) b rest by (auto simp: cluster_after_def sees_def)
  moreover have "cc_calls (sees b a) 1 = None" "cc_pending (sees b a) (rolePermissionCacheKey r) = Some 0"
    using a(2,4) by (simp_all add: sees_def)
  ultimately show ?thesis
    using run_b c(1,2,4-9) seen(1) unfolding m1 [symmetric] by blast
qed

section \<open>The witnesses' cluster\<close>

definition policy_cluster :: "nat \<Rightarrow> conf" where
  "policy_cluster = (\<lambda>_. at_rest policy_world)"

lemma policy_cluster_at_rest: "cluster_at_rest demo_env policy_world policy_cluster"
proof -
  have "policy_world\<lparr>w_invalidationEpoch := 0\<rparr> = policy_world" by (simp add: policy_world_def demo_world_def)
  moreover have "coherent demo_env policy_world" using policy_inv by (simp add: rbac_inv_def)
  ultimately show ?thesis
    unfolding cluster_at_rest_def policy_cluster_def by metis
qed

lemma policy_fetch: "fetchPermissionStringsForRole ''u-r'' policy_db = [''rbac:view'']"
  by code_simp

lemma demo_runs: "runs demo_env p"
  by (simp add: runs_def demo_env_def)

text \<open>A run in which a fetched set reaches the cache.\<close>

lemma policy_cached:
  obtains c x where "cluster_run demo_env policy_cluster (cluster_after 0 c policy_cluster)" and "cc_dirty c = 0"
    and "shared_epoch demo_env (cc_world c) = 0"
    and "w_cache (cc_world c) (rolePermissionCacheKey ''u-r'') = Some (CPerms 0 [''rbac:view''], x)"
proof -
  obtain c s e where c: "csteps demo_env (at_rest policy_world) c"
    "cc_fetches c 0 = Some (Queried ''u-r'' s e (Some [''rbac:view'']))" "cc_dirty c = 0"
    "epoch_resumes (redis_epoch_answer demo_env policy_world) policy_world = (e, cc_world c)"
    "s = w_invalidationEpoch (cc_world c)" "cc_writes c = []"
    by (rule fetch_pending [of policy_world "''u-r''" demo_env]) (simp_all add: no_faults_def policy_fetch)
  have w: "cc_world c = policy_world" "e = 0"
    using c(4) by (auto simp: redis_epoch_answer_def epoch_resumes_def split: if_splits)
  let ?c1 = "fetch_resumes 0 ''u-r'' s e (Some [''rbac:view'']) c"
  let ?c2 = "(write_arrives demo_env ''u-r'' 0 [''rbac:view''] ?c1)\<lparr>cc_writes := [] @ []\<rparr>"
  have "cstep demo_env c ?c1" by (rule fetch_resumed [OF c(2)])
  moreover have "cstep demo_env ?c1 ?c2"
    by (rule write_arrived) (simp add: fetch_resumes_def c(5,6) w world_goes_def Let_def)
  ultimately have "csteps demo_env (policy_cluster 0) ?c2"
    unfolding policy_cluster_def using c(1) by (meson rtranclp.rtrancl_into_rtrancl)
  moreover have cached: "w_cache (cc_world ?c2) (rolePermissionCacheKey ''u-r'') = Some (CPerms 0 [''rbac:view''], Some 1300000)"
    by (simp add: fetch_resumes_def c(5) w world_goes_def Let_def write_arrives_def cacheSet_def remember_key_def
        cache_put_def no_faults_def) (simp add: policy_world_def demo_world_def demo_env_def)
  moreover have "w_cache (cc_world (policy_cluster 0)) (rolePermissionCacheKey ''u-r'') = None"
    by (simp add: policy_cluster_def at_rest_def)
  with cached have "?c2 \<noteq> policy_cluster 0" by (metis option.distinct(1))
  ultimately have "cluster_run demo_env policy_cluster (cluster_after 0 ?c2 policy_cluster)"
    using run_steps [of demo_env policy_cluster 0 ?c2 policy_cluster] run_none demo_runs by blast
  then show ?thesis
    by (rule that [OF _ _ _ cached])
      (simp_all add: fetch_resumes_def c(3,5) w world_goes_def Let_def shared_epoch_def write_arrives_def
        cacheSet_def remember_key_def)
qed

theorem concurrent_cache_sound_witness:
  "\<exists>m c ps x. m = cluster_after 0 c policy_cluster \<and>
     w_cache (cc_world (m 0)) (rolePermissionCacheKey ''u-r'') = Some (CPerms 0 ps, x) \<and> ps \<noteq> [] \<and>
     set ps = set (fetchPermissionStringsForRole ''u-r'' (w_db (cc_world (m 0))))"
proof -
  obtain c x where c: "cluster_run demo_env policy_cluster (cluster_after 0 c policy_cluster)" "cc_dirty c = 0"
    "shared_epoch demo_env (cc_world c) = 0"
    "w_cache (cc_world c) (rolePermissionCacheKey ''u-r'') = Some (CPerms 0 [''rbac:view''], x)"
    by (rule policy_cached)
  have at0: "cluster_after 0 c policy_cluster 0 = c" by (simp add: cluster_after_def)
  from concurrent_cache_sound [OF policy_cluster_at_rest c(1) demo_runs, of 0, unfolded at0 c(3), OF c(2)] c(4)
  have "set [''rbac:view''] = set (fetchPermissionStringsForRole ''u-r'' (w_db (cc_world c)))"
    by blast
  with c(4) show ?thesis
    by (intro exI [of _ "cluster_after 0 c policy_cluster"] exI [of _ c] exI [of _ "[''rbac:view'']"] exI [of _ x])
      (simp add: cluster_after_def)
qed

theorem check_joins_older_fetch_witness:
  "\<exists>m1 c3. cluster_run demo_env policy_cluster (cluster_after 0 c3 m1) \<and>
     cc_calls (m1 0) 1 = None \<and> fetchPermissionStringsForRole ''u-r'' (w_db (cc_world (m1 0))) = [] \<and>
     cc_calls c3 1 = Some (Done ''u-r'' (Some [''rbac:view'']))"
proof -
  have none: "fetchPermissionStringsForRole ''u-r'' (policy_db\<lparr>db_rolePermissions := []\<rparr>) = []" by code_simp
  have "e_redisConfigured demo_env" "\<not> rbacQueryFails (w_faults policy_world)" "\<not> redisReadFails (w_faults policy_world)"
    "w_cache policy_world (rolePermissionCacheKey ''u-r'') = None"
    by (simp_all add: demo_env_def no_faults_def)
  from check_joins_older_fetch [OF this(1) policy_cluster_at_rest this(2-4), of "policy_db\<lparr>db_rolePermissions := []\<rparr>"]
  show ?thesis
  proof (elim exE conjE, goal_cases)
    case (1 m1 c1 c2 c3 s e e')
    with none policy_fetch show ?case
      by (intro exI [of _ m1] exI [of _ c3]) (simp del: One_nat_def)
  qed
qed

end
