(* ===== verification/Schema.thy ===== *)
theory Schema
  imports Prelude
begin

text \<open>
  What a migration acts on: the tables of the database with their columns, keys and indexes, and
  the statements the migrations issue, through the methods of TypeORM's \<open>QueryRunner\<close> or as SQL,
  with the errors PostgreSQL answers. Rows are not part of this model: a statement that fails
  only because of the rows already there (a unique index over duplicates) succeeds here.
\<close>

section \<open>Tables\<close>

record column =
  co_name :: string
  co_type :: string
  co_primary :: bool
  co_nullable :: bool
  co_default :: "string option"

text \<open>
  The name of a constraint: one TypeORM generates from the table and the columns (\<open>UQ_\<close> and a
  hash), or one a statement writes out. A generated name is none of the names written out here.
\<close>

datatype constraint_name = Generated string "string list" | Named string

record unique_key =
  uk_name :: constraint_name
  uk_columns :: "string list"

record foreign_key =
  fk_columns :: "string list"
  fk_table :: string
  fk_references :: "string list"
  fk_onDelete :: string

record index =
  ix_name :: string
  ix_columns :: "string list"
  ix_unique :: bool
  ix_where :: "string option"

record table =
  ta_name :: string
  ta_columns :: "column list"
  ta_uniques :: "unique_key list"
  ta_foreignKeys :: "foreign_key list"
  ta_indices :: "index list"

record schema =
  sc_extensions :: "string list"
  sc_tables :: "table list"

definition empty_schema :: schema where
  "empty_schema = \<lparr>sc_extensions = [], sc_tables = []\<rparr>"

definition column_names :: "table \<Rightarrow> string list" where
  "column_names t = List.map co_name (ta_columns t)"

lemma column_names_simps [simp]:
  "column_names (t\<lparr>ta_indices := x\<rparr>) = column_names t" "column_names (t\<lparr>ta_uniques := y\<rparr>) = column_names t"
  "column_names (t\<lparr>ta_foreignKeys := z\<rparr>) = column_names t"
  "column_names (t\<lparr>ta_columns := cs\<rparr>) = List.map co_name cs"
  by (simp_all add: column_names_def)

definition find_table :: "string \<Rightarrow> schema \<Rightarrow> table option" where
  "find_table n s = List.find (\<lambda>t. ta_name t = n) (sc_tables s)"

definition change_table :: "string \<Rightarrow> (table \<Rightarrow> table) \<Rightarrow> schema \<Rightarrow> schema" where
  "change_table n f s = s\<lparr>sc_tables := List.map (\<lambda>t. if ta_name t = n then f t else t) (sc_tables s)\<rparr>"

text \<open>Tables, indexes and the named keys share one space of names.\<close>

definition index_names :: "schema \<Rightarrow> string list" where
  "index_names s = concat (List.map (\<lambda>t. List.map ix_name (ta_indices t)) (sc_tables s))"

definition constraint_names :: "schema \<Rightarrow> constraint_name list" where
  "constraint_names s = concat (List.map (\<lambda>t. List.map uk_name (ta_uniques t)) (sc_tables s))"

definition relation_exists :: "string \<Rightarrow> schema \<Rightarrow> bool" where
  "relation_exists n s \<longleftrightarrow>
     n \<in> set (List.map ta_name (sc_tables s)) \<or> n \<in> set (index_names s) \<or> Named n \<in> set (constraint_names s)"

section \<open>Statements\<close>

datatype ddl_error =
    RelationExists string
  | NoSuchTable string
  | ColumnExists string
  | NoSuchColumn string
  | NoSuchIndex string
  | ConstraintExists "string list"
  | NoSuchKey string
  | OthersDepend string

type_synonym ddl = "schema \<Rightarrow> ddl_error + schema"

text \<open>A statement on one table, which must exist.\<close>

definition on_table :: "string \<Rightarrow> (table \<Rightarrow> schema \<Rightarrow> ddl_error + (table \<Rightarrow> table)) \<Rightarrow> ddl" where
  "on_table n f s = (case find_table n s of
     None \<Rightarrow> Inl (NoSuchTable n)
   | Some t \<Rightarrow> (case f t s of Inl e \<Rightarrow> Inl e | Inr g \<Rightarrow> Inr (change_table n g s)))"

definition create_extension :: "string \<Rightarrow> ddl" where
  "create_extension e s = Inr (s\<lparr>sc_extensions := List.insert e (sc_extensions s)\<rparr>)"

text \<open>\<open>createTable(table, true)\<close>: nothing when the table exists.\<close>

definition create_table :: "string \<Rightarrow> column list \<Rightarrow> string list \<Rightarrow> ddl" where
  "create_table n cs uniques s =
     (if find_table n s \<noteq> None then Inr s
      else if relation_exists n s then Inl (RelationExists n)
      else Inr (s\<lparr>sc_tables := sc_tables s @ [\<lparr>ta_name = n, ta_columns = cs,
        ta_uniques = List.map (\<lambda>c. \<lparr>uk_name = Generated n [c], uk_columns = [c]\<rparr>) uniques,
        ta_foreignKeys = [], ta_indices = []\<rparr>]\<rparr>))"

definition missing_columns :: "string list \<Rightarrow> table \<Rightarrow> string list" where
  "missing_columns cs t = List.filter (\<lambda>c. c \<notin> set (column_names t)) cs"

text \<open>\<open>CREATE INDEX\<close>, with \<open>IF NOT EXISTS\<close> or without (\<open>createIndex\<close>).\<close>

definition create_index :: "bool \<Rightarrow> string \<Rightarrow> index \<Rightarrow> ddl" where
  "create_index ifNotExists n ix = on_table n (\<lambda>t s.
     if relation_exists (ix_name ix) s
     then (if ifNotExists then Inr id else Inl (RelationExists (ix_name ix)))
     else case missing_columns (ix_columns ix) t of
        c # _ \<Rightarrow> Inl (NoSuchColumn c)
      | [] \<Rightarrow> Inr (\<lambda>t. t\<lparr>ta_indices := ta_indices t @ [ix]\<rparr>))"

text \<open>\<open>createForeignKey\<close>: the referenced columns must be a key of a table that exists.\<close>

definition is_key :: "string list \<Rightarrow> table \<Rightarrow> bool" where
  "is_key cs t \<longleftrightarrow> cs = List.map co_name (List.filter co_primary (ta_columns t)) \<or>
     cs \<in> set (List.map uk_columns (ta_uniques t))"

definition create_foreign_key :: "string \<Rightarrow> foreign_key \<Rightarrow> ddl" where
  "create_foreign_key n fk = on_table n (\<lambda>t s.
     case missing_columns (fk_columns fk) t of
       c # _ \<Rightarrow> Inl (NoSuchColumn c)
     | [] \<Rightarrow> (case find_table (fk_table fk) s of
         None \<Rightarrow> Inl (NoSuchTable (fk_table fk))
       | Some r \<Rightarrow>
           if \<not> is_key (fk_references fk) r then Inl (NoSuchKey (fk_table fk))
           else if fk_columns fk \<in> set (List.map fk_columns (ta_foreignKeys t))
           then Inl (ConstraintExists (fk_columns fk))
           else Inr (\<lambda>t. t\<lparr>ta_foreignKeys := ta_foreignKeys t @ [fk]\<rparr>)))"

text \<open>
  \<open>getTable\<close> followed by \<open>dropForeignKey\<close> on its foreign keys (of a table that is not there:
  nothing), or on the first that has a column.
\<close>

definition drop_foreign_keys :: "string \<Rightarrow> ddl" where
  "drop_foreign_keys n s = Inr (change_table n (\<lambda>t. t\<lparr>ta_foreignKeys := []\<rparr>) s)"

fun remove_first :: "('a \<Rightarrow> bool) \<Rightarrow> 'a list \<Rightarrow> 'a list" where
  "remove_first P [] = []"
| "remove_first P (x # xs) = (if P x then xs else x # remove_first P xs)"

definition drop_foreign_key_on :: "string \<Rightarrow> string \<Rightarrow> ddl" where
  "drop_foreign_key_on n c s =
     Inr (change_table n (\<lambda>t. t\<lparr>ta_foreignKeys := remove_first (\<lambda>fk. c \<in> set (fk_columns fk)) (ta_foreignKeys t)\<rparr>) s)"

text \<open>
  \<open>DROP TABLE IF EXISTS\<close>, and \<open>dropTable\<close> with \<open>ifExist\<close>: the table goes with its own keys and
  indexes, unless another table refers to it.
\<close>

definition refers_to :: "string \<Rightarrow> table \<Rightarrow> bool" where
  "refers_to n t \<longleftrightarrow> n \<in> set (List.map fk_table (ta_foreignKeys t))"

definition drop_table :: "string \<Rightarrow> ddl" where
  "drop_table n s =
     (if find_table n s = None then Inr s
      else if list_ex (\<lambda>t. ta_name t \<noteq> n \<and> refers_to n t) (sc_tables s) then Inl (OthersDepend n)
      else Inr (s\<lparr>sc_tables := List.filter (\<lambda>t. ta_name t \<noteq> n) (sc_tables s)\<rparr>))"

text \<open>\<open>ADD COLUMN\<close>, with \<open>IF NOT EXISTS\<close> or without.\<close>

definition add_column :: "bool \<Rightarrow> string \<Rightarrow> column \<Rightarrow> ddl" where
  "add_column ifNotExists n c = on_table n (\<lambda>t s.
     if co_name c \<in> set (column_names t)
     then (if ifNotExists then Inr id else Inl (ColumnExists (co_name c)))
     else Inr (\<lambda>t. t\<lparr>ta_columns := ta_columns t @ [c]\<rparr>))"

text \<open>
  \<open>DROP COLUMN\<close>: the keys and indexes of the table that use the column go with it; a foreign key
  of another table on it stops the statement.
\<close>

definition without_column :: "string \<Rightarrow> table \<Rightarrow> table" where
  "without_column c t = t\<lparr>
     ta_columns := List.filter (\<lambda>co. co_name co \<noteq> c) (ta_columns t),
     ta_uniques := List.filter (\<lambda>uk. c \<notin> set (uk_columns uk)) (ta_uniques t),
     ta_foreignKeys := List.filter (\<lambda>fk. c \<notin> set (fk_columns fk)) (ta_foreignKeys t),
     ta_indices := List.filter (\<lambda>ix. c \<notin> set (ix_columns ix)) (ta_indices t)\<rparr>"

definition drop_column :: "bool \<Rightarrow> string \<Rightarrow> string \<Rightarrow> ddl" where
  "drop_column ifExists n c = on_table n (\<lambda>t s.
     if c \<notin> set (column_names t)
     then (if ifExists then Inr id else Inl (NoSuchColumn c))
     else if list_ex (\<lambda>u. list_ex (\<lambda>fk. fk_table fk = n \<and> c \<in> set (fk_references fk)) (ta_foreignKeys u)) (sc_tables s)
     then Inl (OthersDepend c)
     else Inr (without_column c))"

text \<open>\<open>DROP INDEX\<close>, with \<open>IF EXISTS\<close> or without.\<close>

definition drop_index :: "bool \<Rightarrow> string \<Rightarrow> ddl" where
  "drop_index ifExists ixn s =
     (if ixn \<in> set (index_names s)
      then Inr (s\<lparr>sc_tables := List.map (\<lambda>t. t\<lparr>ta_indices := List.filter (\<lambda>ix. ix_name ix \<noteq> ixn) (ta_indices t)\<rparr>) (sc_tables s)\<rparr>)
      else if ifExists then Inr s else Inl (NoSuchIndex ixn))"

definition set_default :: "string \<Rightarrow> string \<Rightarrow> string option \<Rightarrow> ddl" where
  "set_default n c d = on_table n (\<lambda>t s.
     if c \<notin> set (column_names t) then Inl (NoSuchColumn c)
     else Inr (\<lambda>t. t\<lparr>ta_columns := List.map (\<lambda>co. if co_name co = c then co\<lparr>co_default := d\<rparr> else co) (ta_columns t)\<rparr>))"

definition drop_constraint_if_exists :: "string \<Rightarrow> string \<Rightarrow> ddl" where
  "drop_constraint_if_exists n cn = on_table n (\<lambda>t s.
     Inr (\<lambda>t. t\<lparr>ta_uniques := List.filter (\<lambda>uk. uk_name uk \<noteq> Named cn) (ta_uniques t)\<rparr>))"

definition add_unique :: "string \<Rightarrow> string \<Rightarrow> string list \<Rightarrow> ddl" where
  "add_unique n cn cs = on_table n (\<lambda>t s.
     if relation_exists cn s then Inl (RelationExists cn)
     else case missing_columns cs t of
        c # _ \<Rightarrow> Inl (NoSuchColumn c)
      | [] \<Rightarrow> Inr (\<lambda>t. t\<lparr>ta_uniques := ta_uniques t @ [\<lparr>uk_name = Named cn, uk_columns = cs\<rparr>]\<rparr>))"

lemmas ddl_defs =
  on_table_def create_extension_def create_table_def create_index_def create_foreign_key_def
  drop_foreign_keys_def drop_foreign_key_on_def drop_table_def add_column_def drop_column_def
  drop_index_def set_default_def drop_constraint_if_exists_def add_unique_def

text \<open>The statements as the migrations write them, and what each does.\<close>

datatype statement =
    CreateExtension string
  | CreateTable string "column list" "string list"
  | CreateIndex bool string index
  | CreateForeignKey string foreign_key
  | DropForeignKeys string
  | DropForeignKeyOn string string
  | DropTable string
  | AddColumn bool string column
  | DropColumn bool string string
  | DropIndex bool string
  | SetDefault string string "string option"
  | DropConstraintIfExists string string
  | AddUnique string string "string list"

fun exec :: "statement \<Rightarrow> ddl" where
  "exec (CreateExtension e) = create_extension e"
| "exec (CreateTable n cs uniques) = create_table n cs uniques"
| "exec (CreateIndex b n ix) = create_index b n ix"
| "exec (CreateForeignKey n fk) = create_foreign_key n fk"
| "exec (DropForeignKeys n) = drop_foreign_keys n"
| "exec (DropForeignKeyOn n c) = drop_foreign_key_on n c"
| "exec (DropTable n) = drop_table n"
| "exec (AddColumn b n c) = add_column b n c"
| "exec (DropColumn b n c) = drop_column b n c"
| "exec (DropIndex b x) = drop_index b x"
| "exec (SetDefault n c d) = set_default n c d"
| "exec (DropConstraintIfExists n x) = drop_constraint_if_exists n x"
| "exec (AddUnique n x cs) = add_unique n x cs"

text \<open>A migration issues its statements in order; the first error ends it.\<close>

fun run :: "statement list \<Rightarrow> ddl" where
  "run [] s = Inr s"
| "run (d # ds) s = (case exec d s of Inl e \<Rightarrow> Inl e | Inr s' \<Rightarrow> run ds s')"

lemma run_append: "run (ds @ es) s = (case run ds s of Inl e \<Rightarrow> Inl e | Inr s' \<Rightarrow> run es s')"
  by (induction ds arbitrary: s) (auto split: sum.split)

text \<open>A run in which every statement takes effect.\<close>

inductive takes_effect :: "statement list \<Rightarrow> schema \<Rightarrow> schema \<Rightarrow> bool" where
  no_statement: "takes_effect [] s s"
| statement: "exec d s = Inr s' \<Longrightarrow> s' \<noteq> s \<Longrightarrow> takes_effect ds s' s'' \<Longrightarrow> takes_effect (d # ds) s s''"

inductive_cases takes_effectE: "takes_effect (d # ds) s s''" "takes_effect [] s s''"

lemma takes_effect_run: "takes_effect ds s s' \<Longrightarrow> run ds s = Inr s'"
  by (induction rule: takes_effect.induct) simp_all

section \<open>Well-formed schemas\<close>

text \<open>
  Names of tables are unique, keys and indexes are on columns of their table, and foreign keys on
  columns of a table that is there.
\<close>

definition wf_table :: "schema \<Rightarrow> table \<Rightarrow> bool" where
  "wf_table s t \<longleftrightarrow>
     (\<forall>ix \<in> set (ta_indices t). set (ix_columns ix) \<subseteq> set (column_names t)) \<and>
     (\<forall>uk \<in> set (ta_uniques t). set (uk_columns uk) \<subseteq> set (column_names t)) \<and>
     (\<forall>fk \<in> set (ta_foreignKeys t). set (fk_columns fk) \<subseteq> set (column_names t) \<and>
        (\<exists>r \<in> set (sc_tables s). ta_name r = fk_table fk \<and> set (fk_references fk) \<subseteq> set (column_names r)))"

definition wf_schema :: "schema \<Rightarrow> bool" where
  "wf_schema s \<longleftrightarrow> distinct (List.map ta_name (sc_tables s)) \<and> (\<forall>t \<in> set (sc_tables s). wf_table s t)"

lemma wf_empty: "wf_schema empty_schema"
  by (simp add: wf_schema_def empty_schema_def)

lemma find_table_Some: "find_table n s = Some t \<Longrightarrow> t \<in> set (sc_tables s) \<and> ta_name t = n"
  by (auto simp: find_table_def find_Some_iff)

lemma find_table_None: "find_table n s = None \<longleftrightarrow> n \<notin> ta_name ` set (sc_tables s)"
  by (auto simp: find_table_def find_None_iff)

lemma wf_unique: "wf_schema s \<Longrightarrow> t \<in> set (sc_tables s) \<Longrightarrow> u \<in> set (sc_tables s) \<Longrightarrow> ta_name t = ta_name u \<Longrightarrow> t = u"
  unfolding wf_schema_def distinct_map by (auto dest: inj_onD)

text \<open>A change of one table that keeps its name and only adds columns, on which its new keys are.\<close>

lemma change_table_sets [simp]:
  "set (sc_tables (change_table n g s)) = (\<lambda>t. if ta_name t = n then g t else t) ` set (sc_tables s)"
  "sc_extensions (change_table n g s) = sc_extensions s"
  by (simp_all add: change_table_def)

lemma change_table_same: "(\<And>t. t \<in> set (sc_tables s) \<Longrightarrow> ta_name t = n \<Longrightarrow> g t = t) \<Longrightarrow> change_table n g s = s"
  by (cases s) (simp add: change_table_def map_idI)

lemma change_table_twice:
  "(\<And>t. ta_name (f t) = ta_name t) \<Longrightarrow> change_table n g (change_table n f s) = change_table n (g \<circ> f) s"
  by (simp add: change_table_def)

lemma wf_change_table:
  assumes wf: "wf_schema s" and name: "\<And>t. ta_name (g t) = ta_name t"
    and cols: "\<And>t. set (column_names t) \<subseteq> set (column_names (g t))"
    and new: "\<And>t. t \<in> set (sc_tables s) \<Longrightarrow> ta_name t = n \<Longrightarrow> wf_table s t \<Longrightarrow> wf_table s (g t)"
  shows "wf_schema (change_table n g s)"
  unfolding wf_schema_def
proof (intro conjI ballI)
  have "List.map ta_name (sc_tables (change_table n g s)) = List.map ta_name (sc_tables s)"
    by (simp add: change_table_def name)
  with wf show "distinct (List.map ta_name (sc_tables (change_table n g s)))" by (simp add: wf_schema_def)
  fix u assume "u \<in> set (sc_tables (change_table n g s))"
  with wf new have u: "wf_table s u" by (auto simp: wf_schema_def)
  have "\<exists>r' \<in> set (sc_tables (change_table n g s)). ta_name r' = ta_name r \<and> set (column_names r) \<subseteq> set (column_names r')"
    if "r \<in> set (sc_tables s)" for r
    using that cols name by (intro bexI [of _ "if ta_name r = n then g r else r"]) auto
  then have "\<exists>r' \<in> set (sc_tables (change_table n g s)). ta_name r' = fk_table fk \<and> set (fk_references fk) \<subseteq> set (column_names r')"
    if "\<exists>r \<in> set (sc_tables s). ta_name r = fk_table fk \<and> set (fk_references fk) \<subseteq> set (column_names r)" for fk
    using that by fastforce
  with u show "wf_table (change_table n g s) u" unfolding wf_table_def by blast
qed

end
