(* ===== verification/Migrations.thy ===== *)
theory Migrations
  imports Schema
begin

text \<open>
  The migrations (\<open>src/migrations\<close>), each as the statements of its \<open>up\<close> and \<open>down\<close> in order, and
  the chain in the order of their timestamps.
\<close>

section \<open>Columns, indexes and references as the migrations write them\<close>

definition new_column :: "string \<Rightarrow> string \<Rightarrow> column" where
  "new_column n ty = \<lparr>co_name = n, co_type = ty, co_primary = False, co_nullable = False, co_default = None\<rparr>"

definition nullable :: "column \<Rightarrow> column" where
  "nullable c = c\<lparr>co_nullable := True\<rparr>"

definition with_default :: "string \<Rightarrow> column \<Rightarrow> column" where
  "with_default d c = c\<lparr>co_default := Some d\<rparr>"

definition id_column :: column where
  "id_column = \<lparr>co_name = ''id'', co_type = ''uuid'', co_primary = True, co_nullable = False,
     co_default = Some ''gen_random_uuid()''\<rparr>"

definition partial_index :: "string \<Rightarrow> string list \<Rightarrow> string option \<Rightarrow> index" where
  "partial_index n cs p = \<lparr>ix_name = n, ix_columns = cs, ix_unique = False, ix_where = p\<rparr>"

definition plain_index :: "string \<Rightarrow> string list \<Rightarrow> index" where
  "plain_index n cs = partial_index n cs None"

definition unique_index :: "string \<Rightarrow> string list \<Rightarrow> string option \<Rightarrow> index" where
  "unique_index n cs p = \<lparr>ix_name = n, ix_columns = cs, ix_unique = True, ix_where = p\<rparr>"

definition foreign_key_to :: "string \<Rightarrow> string \<Rightarrow> string \<Rightarrow> foreign_key" where
  "foreign_key_to c t onDelete =
     \<lparr>fk_columns = [c], fk_table = t, fk_references = [''id''], fk_onDelete = onDelete\<rparr>"

lemmas ddl_vocabulary =
  new_column_def nullable_def with_default_def id_column_def partial_index_def plain_index_def unique_index_def
  foreign_key_to_def

section \<open>The migrations\<close>

definition features_table :: "statement list" where
  "features_table =
    [CreateTable ''features''
       [id_column,
        new_column ''key'' ''varchar'',
        new_column ''name'' ''varchar'',
        nullable (new_column ''description'' ''text''),
        with_default ''true'' (new_column ''isActive'' ''boolean''),
        with_default ''now()'' (new_column ''createdAt'' ''timestamp''),
        with_default ''now()'' (new_column ''updatedAt'' ''timestamp'')]
       [''key''],
     CreateIndex False ''features'' (plain_index ''IDX_feature_key_active'' [''key'', ''isActive''])]"

definition permissions_table :: "statement list" where
  "permissions_table =
    [CreateTable ''permissions''
       [id_column,
        new_column ''feature_id'' ''uuid'',
        new_column ''action'' ''varchar'',
        new_column ''name'' ''varchar'',
        nullable (new_column ''description'' ''text''),
        with_default ''now()'' (new_column ''createdAt'' ''timestamp''),
        with_default ''now()'' (new_column ''updatedAt'' ''timestamp'')]
       [],
     CreateIndex False ''permissions'' (unique_index ''IDX_permission_feature_action_unique'' [''feature_id'', ''action''] None),
     CreateForeignKey ''permissions'' (foreign_key_to ''feature_id'' ''features'' ''CASCADE'')]"

definition roles_table :: "statement list" where
  "roles_table =
    [CreateTable ''roles''
       [id_column,
        new_column ''name'' ''varchar'',
        nullable (new_column ''description'' ''text''),
        with_default ''true'' (new_column ''isActive'' ''boolean''),
        with_default ''now()'' (new_column ''createdAt'' ''timestamp''),
        with_default ''now()'' (new_column ''updatedAt'' ''timestamp'')]
       [''name''],
     CreateIndex False ''roles'' (partial_index ''IDX_roles_is_active_partial'' [''id''] (Some ''\"isActive\" = true''))]"

definition users_table :: "statement list" where
  "users_table =
    [CreateTable ''users''
       [id_column,
        new_column ''email'' ''varchar'',
        new_column ''password'' ''varchar'',
        new_column ''name'' ''varchar'',
        nullable (new_column ''role_id'' ''uuid''),
        with_default ''true'' (new_column ''isActive'' ''boolean''),
        with_default ''now()'' (new_column ''createdAt'' ''timestamp''),
        with_default ''now()'' (new_column ''updatedAt'' ''timestamp''),
        nullable (new_column ''deletedAt'' ''timestamp'')]
       [''email''],
     CreateIndex False ''users'' (partial_index ''IDX_users_is_active_partial'' [''email''] (Some ''\"isActive\" = true'')),
     CreateIndex False ''users'' (plain_index ''IDX_users_role_id'' [''role_id'']),
     CreateForeignKey ''users'' (foreign_key_to ''role_id'' ''roles'' ''SET NULL'')]"

definition role_permissions_table :: "statement list" where
  "role_permissions_table =
    [CreateTable ''role_permissions''
       [id_column,
        new_column ''role_id'' ''uuid'',
        new_column ''permission_id'' ''uuid'',
        with_default ''true'' (new_column ''granted'' ''boolean''),
        with_default ''now()'' (new_column ''createdAt'' ''timestamp'')]
       [],
     CreateIndex False ''role_permissions'' (unique_index ''IDX_role_permissions_unique'' [''role_id'', ''permission_id''] None),
     CreateForeignKey ''role_permissions'' (foreign_key_to ''role_id'' ''roles'' ''CASCADE''),
     CreateForeignKey ''role_permissions'' (foreign_key_to ''permission_id'' ''permissions'' ''CASCADE'')]"

definition InitialRbacSchema_up :: "statement list" where
  "InitialRbacSchema_up =
    [CreateExtension ''uuid-ossp'', CreateExtension ''pgcrypto''] @
     features_table @ permissions_table @ roles_table @ users_table @ role_permissions_table"

definition InitialRbacSchema_down :: "statement list" where
  "InitialRbacSchema_down =
    [DropTable ''role_permissions'',
     DropTable ''users'',
     DropTable ''roles'',
     DropTable ''permissions'',
     DropTable ''features'']"

definition CreateSessionsTable_up :: "statement list" where
  "CreateSessionsTable_up =
    [CreateTable ''sessions''
       [id_column,
        new_column ''user_id'' ''uuid'',
        new_column ''refresh_token_hash'' ''varchar'',
        nullable (new_column ''ip'' ''varchar(45)''),
        nullable (new_column ''user_agent'' ''varchar(512)''),
        with_default ''now()'' (new_column ''createdAt'' ''timestamp''),
        new_column ''expires_at'' ''timestamp'',
        nullable (new_column ''revoked_at'' ''timestamp''),
        nullable (new_column ''rotated_from_session_id'' ''uuid'')]
       [],
     CreateIndex False ''sessions'' (plain_index ''IDX_sessions_user_id'' [''user_id'']),
     CreateIndex False ''sessions'' (plain_index ''IDX_sessions_refresh_token_hash'' [''refresh_token_hash'']),
     CreateForeignKey ''sessions'' (foreign_key_to ''user_id'' ''users'' ''CASCADE''),
     CreateForeignKey ''sessions'' (foreign_key_to ''rotated_from_session_id'' ''sessions'' ''SET NULL'')]"

definition CreateSessionsTable_down :: "statement list" where
  "CreateSessionsTable_down =
    [DropForeignKeys ''sessions'',
     DropTable ''sessions'']"

definition CreateOrganizationsTable_up :: "statement list" where
  "CreateOrganizationsTable_up =
    [CreateTable ''organizations''
       [id_column,
        new_column ''name'' ''varchar'',
        new_column ''slug'' ''varchar'',
        with_default ''true'' (new_column ''isActive'' ''boolean''),
        with_default ''now()'' (new_column ''createdAt'' ''timestamp''),
        with_default ''now()'' (new_column ''updatedAt'' ''timestamp'')]
       [''slug''],
     CreateIndex False ''organizations'' (plain_index ''IDX_organizations_is_active'' [''isActive''])]"

definition CreateOrganizationsTable_down :: "statement list" where
  "CreateOrganizationsTable_down =
    [DropTable ''organizations'']"

definition CreateAuditLogsTable_up :: "statement list" where
  "CreateAuditLogsTable_up =
    [CreateTable ''audit_logs''
       [id_column,
        nullable (new_column ''organization_id'' ''uuid''),
        nullable (new_column ''actor_user_id'' ''uuid''),
        new_column ''action'' ''varchar'',
        new_column ''entity_type'' ''varchar'',
        nullable (new_column ''entity_id'' ''uuid''),
        new_column ''metadata'' ''jsonb'',
        nullable (new_column ''ip'' ''varchar(45)''),
        nullable (new_column ''user_agent'' ''varchar(512)''),
        with_default ''now()'' (new_column ''createdAt'' ''timestamp'')]
       [],
     CreateIndex False ''audit_logs'' (plain_index ''IDX_audit_logs_org_created'' [''organization_id'', ''createdAt'']),
     CreateIndex False ''audit_logs'' (plain_index ''IDX_audit_logs_actor_created'' [''actor_user_id'', ''createdAt'']),
     CreateIndex False ''audit_logs'' (plain_index ''IDX_audit_logs_entity'' [''entity_type'', ''entity_id'']),
     CreateIndex False ''audit_logs'' (plain_index ''IDX_audit_logs_action_created'' [''action'', ''createdAt'']),
     CreateForeignKey ''audit_logs'' (foreign_key_to ''organization_id'' ''organizations'' ''SET NULL''),
     CreateForeignKey ''audit_logs'' (foreign_key_to ''actor_user_id'' ''users'' ''SET NULL'')]"

definition CreateAuditLogsTable_down :: "statement list" where
  "CreateAuditLogsTable_down =
    [DropForeignKeys ''audit_logs'',
     DropTable ''audit_logs'']"

definition AddUserLockoutColumns_up :: "statement list" where
  "AddUserLockoutColumns_up =
    [AddColumn False ''users'' (with_default ''0'' (new_column ''failed_login_attempts'' ''int'')),
     AddColumn False ''users'' (nullable (new_column ''locked_until'' ''timestamp''))]"

definition AddUserLockoutColumns_down :: "statement list" where
  "AddUserLockoutColumns_down =
    [DropColumn False ''users'' ''locked_until'',
     DropColumn False ''users'' ''failed_login_attempts'']"

definition AddSessionsRotatedFromIndex_up :: "statement list" where
  "AddSessionsRotatedFromIndex_up =
    [CreateIndex False ''sessions'' (plain_index ''IDX_sessions_rotated_from_session_id'' [''rotated_from_session_id''])]"

definition AddSessionsRotatedFromIndex_down :: "statement list" where
  "AddSessionsRotatedFromIndex_down =
    [DropIndex False ''IDX_sessions_rotated_from_session_id'']"

definition AddCorrelationIdToAuditLogs_up :: "statement list" where
  "AddCorrelationIdToAuditLogs_up =
    [AddColumn False ''audit_logs'' (nullable (new_column ''correlation_id'' ''uuid''))]"

definition AddCorrelationIdToAuditLogs_down :: "statement list" where
  "AddCorrelationIdToAuditLogs_down =
    [DropColumn False ''audit_logs'' ''correlation_id'']"

definition AddSessionJti_up :: "statement list" where
  "AddSessionJti_up =
    [AddColumn False ''sessions'' (nullable (new_column ''jti'' ''uuid''))]"

definition AddSessionJti_down :: "statement list" where
  "AddSessionJti_down =
    [DropColumn False ''sessions'' ''jti'']"

definition CorrectiveIndexes_up :: "statement list" where
  "CorrectiveIndexes_up =
    [DropIndex True ''IDX_roles_is_active_partial'',
     DropIndex True ''IDX_users_is_active_partial'',
     CreateIndex True ''users'' (plain_index ''IDX_users_email_isActive'' [''email'', ''isActive'']),
     CreateIndex True ''users'' (plain_index ''IDX_users_roleId_isActive'' [''role_id'', ''isActive'']),
     CreateIndex True ''roles'' (plain_index ''IDX_roles_name_isActive'' [''name'', ''isActive'']),
     SetDefault ''audit_logs'' ''metadata'' (Some ''{}''),
     CreateIndex True ''audit_logs'' (partial_index ''IDX_audit_logs_correlation_id'' [''correlation_id''] (Some ''\"correlation_id\" IS NOT NULL'')),
     CreateIndex True ''sessions'' (plain_index ''IDX_sessions_expires_revoked'' [''expires_at'', ''revoked_at''])]"

definition CorrectiveIndexes_down :: "statement list" where
  "CorrectiveIndexes_down =
    [DropIndex True ''IDX_sessions_expires_revoked'',
     DropIndex True ''IDX_audit_logs_correlation_id'',
     SetDefault ''audit_logs'' ''metadata'' None,
     DropIndex True ''IDX_roles_name_isActive'',
     DropIndex True ''IDX_users_roleId_isActive'',
     DropIndex True ''IDX_users_email_isActive'']"

definition SoftDeletePartialUniqueEmail_up :: "statement list" where
  "SoftDeletePartialUniqueEmail_up =
    [DropConstraintIfExists ''users'' ''users_email_key'',
     CreateIndex True ''users'' (unique_index ''IDX_users_email_active'' [''email''] (Some ''\"deletedAt\" IS NULL''))]"

definition SoftDeletePartialUniqueEmail_down :: "statement list" where
  "SoftDeletePartialUniqueEmail_down =
    [DropIndex True ''IDX_users_email_active'',
     AddUnique ''users'' ''users_email_key'' [''email'']]"

definition DropRolePermissionGranted_up :: "statement list" where
  "DropRolePermissionGranted_up =
    [DropColumn True ''role_permissions'' ''granted'']"

definition DropRolePermissionGranted_down :: "statement list" where
  "DropRolePermissionGranted_down =
    [AddColumn False ''role_permissions'' (with_default ''true'' (new_column ''granted'' ''boolean''))]"

definition RemoveOrganizationFromAudit_up :: "statement list" where
  "RemoveOrganizationFromAudit_up =
    [DropForeignKeyOn ''audit_logs'' ''organization_id'',
     DropIndex True ''IDX_audit_logs_org_created'',
     DropColumn True ''audit_logs'' ''organization_id'',
     DropIndex True ''IDX_organizations_is_active'',
     DropTable ''organizations'']"

definition RemoveOrganizationFromAudit_down :: "statement list" where
  "RemoveOrganizationFromAudit_down =
    [CreateTable ''organizations''
       [id_column,
        new_column ''name'' ''varchar'',
        new_column ''slug'' ''varchar'',
        with_default ''true'' (new_column ''isActive'' ''boolean''),
        with_default ''now()'' (new_column ''createdAt'' ''timestamp''),
        with_default ''now()'' (new_column ''updatedAt'' ''timestamp'')]
       [''slug''],
     CreateIndex False ''organizations'' (plain_index ''IDX_organizations_is_active'' [''isActive'']),
     AddColumn True ''audit_logs'' (nullable (new_column ''organization_id'' ''uuid'')),
     CreateIndex False ''audit_logs'' (plain_index ''IDX_audit_logs_org_created'' [''organization_id'', ''createdAt'']),
     CreateForeignKey ''audit_logs'' (foreign_key_to ''organization_id'' ''organizations'' ''SET NULL'')]"

definition AuditLogsCreatedAtIndex_up :: "statement list" where
  "AuditLogsCreatedAtIndex_up =
    [CreateIndex True ''audit_logs'' (plain_index ''IDX_audit_logs_created_at'' [''createdAt''])]"

definition AuditLogsCreatedAtIndex_down :: "statement list" where
  "AuditLogsCreatedAtIndex_down =
    [DropIndex True ''IDX_audit_logs_created_at'']"

definition AddAccessJtiAndRotatedToSession_up :: "statement list" where
  "AddAccessJtiAndRotatedToSession_up =
    [AddColumn True ''sessions'' (nullable (new_column ''access_jti'' ''uuid'')),
     AddColumn True ''sessions'' (nullable (new_column ''rotated_to_session_id'' ''uuid'')),
     CreateIndex True ''sessions'' (plain_index ''IDX_sessions_access_jti'' [''access_jti''])]"

definition AddAccessJtiAndRotatedToSession_down :: "statement list" where
  "AddAccessJtiAndRotatedToSession_down =
    [DropIndex True ''IDX_sessions_access_jti'',
     DropColumn True ''sessions'' ''rotated_to_session_id'',
     DropColumn True ''sessions'' ''access_jti'']"

section \<open>The chain\<close>

record migration =
  mi_name :: string
  mi_up :: "statement list"
  mi_down :: "statement list"

definition migrations :: "migration list" where
  "migrations = [
     \<lparr>mi_name = ''InitialRbacSchema1707764400000'',
      mi_up = InitialRbacSchema_up, mi_down = InitialRbacSchema_down\<rparr>,
     \<lparr>mi_name = ''CreateSessionsTable1739462400000'',
      mi_up = CreateSessionsTable_up, mi_down = CreateSessionsTable_down\<rparr>,
     \<lparr>mi_name = ''CreateOrganizationsTable1740000000000'',
      mi_up = CreateOrganizationsTable_up, mi_down = CreateOrganizationsTable_down\<rparr>,
     \<lparr>mi_name = ''CreateAuditLogsTable1740100000000'',
      mi_up = CreateAuditLogsTable_up, mi_down = CreateAuditLogsTable_down\<rparr>,
     \<lparr>mi_name = ''AddUserLockoutColumns1740200000000'',
      mi_up = AddUserLockoutColumns_up, mi_down = AddUserLockoutColumns_down\<rparr>,
     \<lparr>mi_name = ''AddSessionsRotatedFromIndex1740300000000'',
      mi_up = AddSessionsRotatedFromIndex_up, mi_down = AddSessionsRotatedFromIndex_down\<rparr>,
     \<lparr>mi_name = ''AddCorrelationIdToAuditLogs1740400000000'',
      mi_up = AddCorrelationIdToAuditLogs_up, mi_down = AddCorrelationIdToAuditLogs_down\<rparr>,
     \<lparr>mi_name = ''AddSessionJti1740400000001'',
      mi_up = AddSessionJti_up, mi_down = AddSessionJti_down\<rparr>,
     \<lparr>mi_name = ''CorrectiveIndexes1740400000002'',
      mi_up = CorrectiveIndexes_up, mi_down = CorrectiveIndexes_down\<rparr>,
     \<lparr>mi_name = ''SoftDeletePartialUniqueEmail1740400000003'',
      mi_up = SoftDeletePartialUniqueEmail_up, mi_down = SoftDeletePartialUniqueEmail_down\<rparr>,
     \<lparr>mi_name = ''DropRolePermissionGranted1740400000004'',
      mi_up = DropRolePermissionGranted_up, mi_down = DropRolePermissionGranted_down\<rparr>,
     \<lparr>mi_name = ''RemoveOrganizationFromAudit1740500000000'',
      mi_up = RemoveOrganizationFromAudit_up, mi_down = RemoveOrganizationFromAudit_down\<rparr>,
     \<lparr>mi_name = ''AuditLogsCreatedAtIndex1740500000001'',
      mi_up = AuditLogsCreatedAtIndex_up, mi_down = AuditLogsCreatedAtIndex_down\<rparr>,
     \<lparr>mi_name = ''AddAccessJtiAndRotatedToSession1783710727556'',
      mi_up = AddAccessJtiAndRotatedToSession_up, mi_down = AddAccessJtiAndRotatedToSession_down\<rparr>]"

text \<open>All of them, on an empty database.\<close>

definition migrated :: "ddl_error + schema" where
  "migrated = run (concat (List.map mi_up migrations)) empty_schema"

end
