(* ===== verification/Schema_Undo.thy ===== *)
theory Schema_Undo
  imports Schema
begin

text \<open>
  When the statements of a \<open>down\<close> undo those of an \<open>up\<close>: a check on the two lists of statements, and
  the proof that lists which pass it restore every well-formed schema.
\<close>

section \<open>The check\<close>

fun builds :: "string \<Rightarrow> statement \<Rightarrow> bool" where
  "builds n (CreateIndex b m ix) = (m = n)"
| "builds n (CreateForeignKey m fk) = (m = n)"
| "builds n _ = False"

text \<open>
  \<open>drops u d\<close>: \<open>d\<close> drops what \<open>u\<close> adds. What is built on a new table right after it goes with the
  table, and the table's foreign keys may be dropped before it.
\<close>

fun drops :: "statement \<Rightarrow> statement \<Rightarrow> bool" where
  "drops (AddColumn b n c) d = (d \<in> {DropColumn True n (co_name c), DropColumn False n (co_name c)})"
| "drops (CreateIndex b n ix) d = (d \<in> {DropIndex True (ix_name ix), DropIndex False (ix_name ix)})"
| "drops (CreateTable n cs uniques) d = (d = DropTable n \<and> set uniques \<subseteq> co_name ` set cs)"
| "drops _ d = False"

fun part_of :: "statement \<Rightarrow> statement \<Rightarrow> bool" where
  "part_of (CreateTable n cs uniques) v = builds n v"
| "part_of _ v = False"

fun clears :: "statement \<Rightarrow> statement \<Rightarrow> bool" where
  "clears (CreateTable n cs uniques) d = (d = DropForeignKeys n)"
| "clears _ d = False"

text \<open>The second list is the \<open>down\<close> in reverse.\<close>

function undoes :: "statement list \<Rightarrow> statement list \<Rightarrow> bool" where
  "undoes [] ds = (ds = [])"
| "undoes (u # us) [] = False"
| "undoes (u # us) (d # ds) = (drops u d \<and> undoes (dropWhile (part_of u) us) (dropWhile (clears u) ds))"
  by pat_completeness auto
termination
  by (relation "measure (\<lambda>(us, ds). List.length us)") (auto simp: le_imp_less_Suc length_dropWhile_le)

section \<open>One statement and its opposite\<close>

lemma on_table_Inr:
  assumes "on_table n f s = Inr s'"
  obtains t g where "find_table n s = Some t" and "f t s = Inr g" and "s' = change_table n g s"
  using assms by (auto simp: on_table_def split: option.splits sum.splits)

lemma find_table_change:
  assumes "find_table n s = Some t" and "\<And>t. ta_name (g t) = ta_name t"
  shows "find_table n (change_table n g s) = Some (g t)"
proof -
  have "List.find (\<lambda>t. ta_name t = n) (List.map (\<lambda>t. if ta_name t = n then g t else t) ts) = Some (g t)"
    if "List.find (\<lambda>t. ta_name t = n) ts = Some t" for ts
    using that by (induction ts) (auto simp: assms(2) split: if_splits)
  with assms(1) show ?thesis by (simp add: find_table_def change_table_def)
qed

text \<open>A column that was added, and dropped again.\<close>

lemma add_column_Inr:
  assumes "add_column b n c s = Inr s'" and "s' \<noteq> s"
  obtains t where "find_table n s = Some t" and "co_name c \<notin> set (column_names t)"
    and "s' = change_table n (\<lambda>t. t\<lparr>ta_columns := ta_columns t @ [c]\<rparr>) s"
  using assms by (auto simp: add_column_def change_table_same split: if_splits elim!: on_table_Inr)

lemma add_column_wf:
  assumes "wf_schema s" and "add_column b n c s = Inr s'"
  shows "wf_schema s'"
  using assms by (auto simp: add_column_def change_table_same wf_table_def column_names_def split: if_splits
      elim!: on_table_Inr intro!: wf_change_table; blast)

lemma drop_added_column:
  assumes wf: "wf_schema s" and add: "add_column b n c s = Inr s'" and "s' \<noteq> s"
  shows "drop_column b' n (co_name c) s' = Inr s"
proof -
  let ?g = "\<lambda>t. t\<lparr>ta_columns := ta_columns t @ [c]\<rparr>"
  from add_column_Inr [OF add \<open>s' \<noteq> s\<close>] obtain t where t: "find_table n s = Some t"
    "co_name c \<notin> set (column_names t)" and s': "s' = change_table n ?g s" by blast
  note tn = find_table_Some [OF t(1)]
  have same: "u = t" if "u \<in> set (sc_tables s)" "ta_name u = n" for u
    using wf_unique [OF wf that(1)] tn that by blast
  have free: "co_name c \<notin> set (fk_references fk)"
    if "u \<in> set (sc_tables s)" "fk \<in> set (ta_foreignKeys u)" "fk_table fk = n" for u fk
  proof -
    from wf that obtain r where "r \<in> set (sc_tables s)" "ta_name r = n" "set (fk_references fk) \<subseteq> set (column_names r)"
      unfolding wf_schema_def wf_table_def by metis
    with same t(2) show ?thesis by blast
  qed
  have wt: "wf_table s t" using wf tn by (simp add: wf_schema_def)
  have "co_name co \<noteq> co_name c" if "co \<in> set (ta_columns t)" for co
    using t(2) that by (simp add: column_names_def) (metis imageI)
  with wt have restored: "without_column (co_name c) (?g t) = t"
    using t(2) by (cases t) (auto simp: without_column_def wf_table_def filter_id_conv subset_iff)
  have "change_table n (without_column (co_name c)) s' = s"
    unfolding s' by (simp add: change_table_twice) (rule change_table_same; use restored same in auto)
  moreover have "find_table n s' = Some (?g t)" unfolding s' by (rule find_table_change [OF t(1)]) simp
  moreover have "\<not> list_ex (\<lambda>u. list_ex (\<lambda>fk. fk_table fk = n \<and> co_name c \<in> set (fk_references fk)) (ta_foreignKeys u)) (sc_tables s')"
    using free unfolding s' by (auto simp: list_ex_iff)
  ultimately show ?thesis by (auto simp: drop_column_def on_table_def column_names_def)
qed

text \<open>An index.\<close>

lemma create_index_Inr:
  assumes "create_index b n ix s = Inr s'" and "s' \<noteq> s"
  obtains t where "find_table n s = Some t" and "\<not> relation_exists (ix_name ix) s"
    and "set (ix_columns ix) \<subseteq> set (column_names t)"
    and "s' = change_table n (\<lambda>t. t\<lparr>ta_indices := ta_indices t @ [ix]\<rparr>) s"
  using assms by (auto simp: create_index_def change_table_same missing_columns_def filter_empty_conv subset_iff
      split: if_splits list.splits elim!: on_table_Inr)

lemma create_index_wf:
  assumes "wf_schema s" and "create_index b n ix s = Inr s'"
  shows "wf_schema s'"
proof (cases "s' = s")
  case False
  from create_index_Inr [OF assms(2) False] obtain t where t: "find_table n s = Some t"
    "set (ix_columns ix) \<subseteq> set (column_names t)" "s' = change_table n (\<lambda>t. t\<lparr>ta_indices := ta_indices t @ [ix]\<rparr>) s" by blast
  show ?thesis unfolding t(3)
    by (rule wf_change_table [OF assms(1)])
      (use t(2) wf_unique [OF assms(1)] find_table_Some [OF t(1)] in \<open>auto simp: wf_table_def\<close>)
qed (use assms in simp)

lemma drop_created_index:
  assumes create: "create_index b n ix s = Inr s'" and "s' \<noteq> s"
  shows "drop_index b' (ix_name ix) s' = Inr s"
proof -
  let ?g = "\<lambda>t. t\<lparr>ta_indices := ta_indices t @ [ix]\<rparr>"
  from create_index_Inr [OF assms] obtain t where t: "find_table n s = Some t"
    and new: "\<not> relation_exists (ix_name ix) s" and s': "s' = change_table n ?g s" by blast
  have others: "ix_name i \<noteq> ix_name ix" if "u \<in> set (sc_tables s)" "i \<in> set (ta_indices u)" for u i
    using new that by (simp add: relation_exists_def index_names_def) (metis imageI)
  have "ix_name ix \<in> set (index_names s')"
    using find_table_Some [OF t] by (auto simp: s' index_names_def)
  moreover have "List.map (\<lambda>t. t\<lparr>ta_indices := List.filter (\<lambda>i. ix_name i \<noteq> ix_name ix) (ta_indices t)\<rparr>) (sc_tables s') = sc_tables s"
    unfolding s' change_table_def using others
    by (auto intro!: map_idI simp: filter_id_conv)
  ultimately show ?thesis by (simp add: drop_index_def s' change_table_def)
qed

text \<open>A new table, with what is built on it.\<close>

definition grown :: "string \<Rightarrow> schema \<Rightarrow> schema \<Rightarrow> bool" where
  "grown n s s' \<longleftrightarrow> (\<exists>t. ta_name t = n \<and> s' = s\<lparr>sc_tables := sc_tables s @ [t]\<rparr>)"

lemma grown_change:
  assumes "grown n s s'" and "find_table n s = None" and "\<And>t. ta_name (g t) = ta_name t"
  shows "grown n s (change_table n g s')"
proof -
  obtain t where t: "ta_name t = n" "s' = s\<lparr>sc_tables := sc_tables s @ [t]\<rparr>" using assms(1) by (auto simp: grown_def)
  have "List.map (\<lambda>t. if ta_name t = n then g t else t) (sc_tables s) = sc_tables s"
    using assms(2) by (auto simp: find_table_None intro!: map_idI)
  with t have "change_table n g s' = s\<lparr>sc_tables := sc_tables s @ [g t]\<rparr>" by (simp add: change_table_def)
  with t(1) assms(3) [of t] show ?thesis by (auto simp: grown_def)
qed

lemma create_foreign_key_Inr:
  assumes "create_foreign_key n fk s = Inr s'"
  obtains t r where "find_table n s = Some t" and "set (fk_columns fk) \<subseteq> set (column_names t)"
    and "find_table (fk_table fk) s = Some r" and "is_key (fk_references fk) r"
    and "s' = change_table n (\<lambda>t. t\<lparr>ta_foreignKeys := ta_foreignKeys t @ [fk]\<rparr>) s"
  using assms
  by (auto simp: create_foreign_key_def missing_columns_def filter_empty_conv subset_iff
      split: if_splits list.splits option.splits elim!: on_table_Inr)

lemma is_key_columns: "wf_table s r \<Longrightarrow> is_key cs r \<Longrightarrow> set cs \<subseteq> set (column_names r)"
  by (auto simp: is_key_def wf_table_def column_names_def)

lemma create_foreign_key_wf:
  assumes wf: "wf_schema s" and "create_foreign_key n fk s = Inr s'"
  shows "wf_schema s'"
proof -
  from create_foreign_key_Inr [OF assms(2)] obtain t r where t: "find_table n s = Some t"
    "set (fk_columns fk) \<subseteq> set (column_names t)" "find_table (fk_table fk) s = Some r"
    "is_key (fk_references fk) r"
    "s' = change_table n (\<lambda>t. t\<lparr>ta_foreignKeys := ta_foreignKeys t @ [fk]\<rparr>) s" by blast
  have r: "r \<in> set (sc_tables s)" "ta_name r = fk_table fk" "set (fk_references fk) \<subseteq> set (column_names r)"
    using find_table_Some [OF t(3)] is_key_columns [OF _ t(4)] wf by (auto simp: wf_schema_def)
  show ?thesis unfolding t(5)
    by (rule wf_change_table [OF wf])
      (use t(2) r wf_unique [OF wf] find_table_Some [OF t(1)] in \<open>auto simp: wf_table_def\<close>)
qed

lemma build_step:
  assumes "grown n s s1" "find_table n s = None" "wf_schema s1" "builds n d" "exec d s1 = Inr s2"
  shows "grown n s s2 \<and> wf_schema s2"
proof (cases "s2 = s1")
  case False
  from assms(4) consider b ix where "d = CreateIndex b n ix" | fk where "d = CreateForeignKey n fk"
    by (cases d) auto
  then show ?thesis
  proof cases
    case 1
    with assms(5) have c: "create_index b n ix s1 = Inr s2" by simp
    from create_index_Inr [OF c False] have "s2 = change_table n (\<lambda>t. t\<lparr>ta_indices := ta_indices t @ [ix]\<rparr>) s1" by blast
    with grown_change [OF assms(1,2)] create_index_wf [OF assms(3) c] show ?thesis by simp
  next
    case 2
    with assms(5) have c: "create_foreign_key n fk s1 = Inr s2" by simp
    from create_foreign_key_Inr [OF c] have "s2 = change_table n (\<lambda>t. t\<lparr>ta_foreignKeys := ta_foreignKeys t @ [fk]\<rparr>) s1" by blast
    with grown_change [OF assms(1,2)] create_foreign_key_wf [OF assms(3) c] show ?thesis by simp
  qed
qed (use assms in simp)

lemma build_steps:
  assumes "takes_effect us s1 s2" "\<forall>u \<in> set us. builds n u" "grown n s s1" "find_table n s = None" "wf_schema s1"
  shows "grown n s s2 \<and> wf_schema s2"
  using assms
proof (induction rule: takes_effect.induct)
  case (statement d s1 s2 ds s3)
  then have "builds n d" "\<forall>u \<in> set ds. builds n u" by simp_all
  with build_step [OF statement.prems(2,3,4) _ statement.hyps(1)] statement.IH statement.prems(3)
  show ?case by blast
qed simp

lemma create_table_Inr:
  assumes "create_table n cs uniques s = Inr s'" and "s' \<noteq> s"
  shows "find_table n s = None" and "grown n s s'"
    and "wf_schema s \<Longrightarrow> set uniques \<subseteq> co_name ` set cs \<Longrightarrow> wf_schema s'"
proof -
  let ?t = "\<lparr>ta_name = n, ta_columns = cs, ta_uniques = List.map (\<lambda>c. \<lparr>uk_name = Generated n [c], uk_columns = [c]\<rparr>) uniques,
    ta_foreignKeys = [], ta_indices = []\<rparr>"
  from assms have new: "find_table n s = None" and s': "s' = s\<lparr>sc_tables := sc_tables s @ [?t]\<rparr>"
    by (auto simp: create_table_def split: if_splits)
  show "find_table n s = None" by (rule new)
  show "grown n s s'" unfolding grown_def by (rule exI [of _ ?t]) (simp add: s')
  assume wf: "wf_schema s" and "set uniques \<subseteq> co_name ` set cs"
  have "wf_table s' t" if "wf_table s t" for t
    using that by (auto simp: wf_table_def s')
  moreover have "wf_table s' ?t"
    using \<open>set uniques \<subseteq> co_name ` set cs\<close> by (auto simp: wf_table_def column_names_def)
  moreover have "t \<in> set (sc_tables s) \<or> t = ?t" if "t \<in> set (sc_tables s')" for t
    using that by (auto simp: s')
  moreover have "\<forall>t \<in> set (sc_tables s). wf_table s t" using wf by (simp add: wf_schema_def)
  ultimately have "\<forall>t \<in> set (sc_tables s'). wf_table s' t" by blast
  moreover have "distinct (List.map ta_name (sc_tables s'))"
    using wf new by (simp add: wf_schema_def s' find_table_None)
  ultimately show "wf_schema s'" by (simp add: wf_schema_def)
qed

lemma drop_grown_table:
  assumes wf: "wf_schema s" and new: "find_table n s = None" and g: "grown n s s'"
  shows "drop_table n s' = Inr s"
proof -
  obtain t where t: "ta_name t = n" "s' = s\<lparr>sc_tables := sc_tables s @ [t]\<rparr>" using g by (auto simp: grown_def)
  have names: "u \<in> set (sc_tables s) \<Longrightarrow> ta_name u \<noteq> n" for u using new by (auto simp: find_table_None)
  have "\<not> refers_to n u" if "u \<in> set (sc_tables s)" for u
  proof
    assume "refers_to n u"
    then obtain fk where "fk \<in> set (ta_foreignKeys u)" "fk_table fk = n" by (auto simp: refers_to_def)
    with wf that obtain r where "r \<in> set (sc_tables s)" "ta_name r = n" unfolding wf_schema_def wf_table_def by metis
    with names show False by blast
  qed
  then have "\<not> list_ex (\<lambda>u. ta_name u \<noteq> n \<and> refers_to n u) (sc_tables s')"
    using t by (auto simp: list_ex_iff)
  moreover have "find_table n s' \<noteq> None" using t by (auto simp: find_table_None)
  moreover have "List.filter (\<lambda>u. ta_name u \<noteq> n) (sc_tables s') = sc_tables s"
    using t names by (simp add: filter_id_conv)
  ultimately have "drop_table n s' = Inr (s'\<lparr>sc_tables := sc_tables s\<rparr>)" by (simp only: drop_table_def if_False)
  then show ?thesis using t(2) by simp
qed

lemma drop_keys_grown:
  assumes "\<forall>d \<in> set ds. d = DropForeignKeys n" "grown n s s1" "find_table n s = None"
  shows "\<exists>s2. run ds s1 = Inr s2 \<and> grown n s s2"
  using assms
proof (induction ds arbitrary: s1)
  case (Cons d ds)
  then have "grown n s (change_table n (\<lambda>t. t\<lparr>ta_foreignKeys := []\<rparr>) s1)" by (intro grown_change) auto
  with Cons show ?case by (simp add: drop_foreign_keys_def)
qed simp

section \<open>The check is sound\<close>

lemma takes_effect_append:
  "takes_effect (us @ vs) s s' \<Longrightarrow> \<exists>s1. takes_effect us s s1 \<and> takes_effect vs s1 s'"
proof (induction us arbitrary: s)
  case Nil
  then show ?case by (auto intro: no_statement)
next
  case (Cons u us)
  then show ?case by (fastforce elim: takes_effectE intro: statement)
qed

lemma undo_step:
  assumes wf: "wf_schema s" and u: "exec u s = Inr s1" "s1 \<noteq> s" and d: "drops u d"
    and vs: "takes_effect vs s1 s2" "\<forall>v \<in> set vs. part_of u v" and ks: "\<forall>k \<in> set ks. clears u k"
  shows "wf_schema s2 \<and> run (ks @ [d]) s2 = Inr s"
  using d
proof (cases "(u, d)" rule: drops.cases)
  case (1 b n c d')
  with vs ks have nil: "vs = []" "ks = []" by (cases vs; simp; cases ks; simp)+
  with vs have "s2 = s1" by (auto elim: takes_effectE)
  with 1 nil d u add_column_wf [OF wf, of b n c s1] drop_added_column [OF wf, of b n c s1] show ?thesis by auto
next
  case (2 b n ix d')
  with vs ks have nil: "vs = []" "ks = []" by (cases vs; simp; cases ks; simp)+
  with vs have "s2 = s1" by (auto elim: takes_effectE)
  with 2 nil d u create_index_wf [OF wf, of b n ix s1] drop_created_index [of b n ix s s1] show ?thesis by auto
next
  case (3 n cs uniques d')
  with u have c: "create_table n cs uniques s = Inr s1" by simp
  note made = create_table_Inr [OF c u(2)]
  from 3 d have "wf_schema s1" using made(3) [OF wf] by simp
  with build_steps [OF vs(1) _ made(2,1)] vs(2) 3 have g: "grown n s s2" "wf_schema s2" by simp_all
  from ks 3 have "\<forall>k \<in> set ks. k = DropForeignKeys n" by simp
  from drop_keys_grown [OF this g(1) made(1)] obtain s3 where "run ks s2 = Inr s3" "grown n s s3" by blast
  with drop_grown_table [OF wf made(1)] g(2) 3 d show ?thesis by (simp add: run_append)
qed simp_all

lemma undoes_restores:
  assumes "undoes us ds" and "wf_schema s" and "takes_effect us s s'"
  shows "run (rev ds) s' = Inr s"
  using assms
proof (induction us ds arbitrary: s rule: undoes.induct)
  case (1 ds)
  then show ?case by (auto elim: takes_effectE)
next
  case (3 u us d ds)
  let ?vs = "takeWhile (part_of u) us" and ?ks = "takeWhile (clears u) ds"
  from 3(4) obtain s1 where s1: "exec u s = Inr s1" "s1 \<noteq> s" "takes_effect us s1 s'" by (auto elim: takes_effectE)
  then have "takes_effect (?vs @ dropWhile (part_of u) us) s1 s'" by simp
  from takes_effect_append [OF this] obtain s2
    where s2: "takes_effect ?vs s1 s2" "takes_effect (dropWhile (part_of u) us) s2 s'" by blast
  have step: "wf_schema s2 \<and> run (rev ?ks @ [d]) s2 = Inr s"
    by (rule undo_step [OF 3(3) s1(1,2) _ s2(1)]) (use 3(2) in \<open>auto dest: set_takeWhileD\<close>)
  with 3 s2(2) have "run (rev (dropWhile (clears u) ds)) s' = Inr s2" by simp
  moreover have "rev (d # ds) = rev (dropWhile (clears u) ds) @ rev ?ks @ [d]"
    by (metis append_assoc rev.simps(2) rev_append takeWhile_dropWhile_id)
  ultimately show ?case using step by (simp add: run_append)
qed simp

end
