(* ===== verification/Migration_Properties.thy ===== *)
theory Migration_Properties
  imports Migrations Schema_Undo
begin

text \<open>
  The migrations against the entities they are written for, and the way back: which \<open>down\<close> undoes
  its \<open>up\<close> on every database.
\<close>

section \<open>What the entities declare\<close>

text \<open>
  An entity's table, its columns with type and nullability, the column lists it declares unique, and
  its references with the \<open>onDelete\<close> they give. A property without a type has the type of its
  TypeScript type (string: varchar, number: int), a join column that of the id it refers to.
\<close>

record entity =
  en_table :: string
  en_columns :: "(string \<times> string \<times> bool) list"
  en_uniques :: "string list list"
  en_references :: "(string \<times> string \<times> string option) list"

definition feature_entity :: entity where
  "feature_entity = \<lparr>en_table = ''features'',
     en_columns = [(''id'', ''uuid'', False), (''key'', ''varchar'', False), (''name'', ''varchar'', False),
       (''description'', ''text'', True), (''isActive'', ''boolean'', False),
       (''createdAt'', ''timestamp'', False), (''updatedAt'', ''timestamp'', False)],
     en_uniques = [[''key'']], en_references = []\<rparr>"

definition permission_entity :: entity where
  "permission_entity = \<lparr>en_table = ''permissions'',
     en_columns = [(''id'', ''uuid'', False), (''feature_id'', ''uuid'', False), (''action'', ''varchar'', False),
       (''name'', ''varchar'', False), (''description'', ''text'', True),
       (''createdAt'', ''timestamp'', False), (''updatedAt'', ''timestamp'', False)],
     en_uniques = [[''feature_id'', ''action'']],
     en_references = [(''feature_id'', ''features'', Some ''CASCADE'')]\<rparr>"

definition role_entity :: entity where
  "role_entity = \<lparr>en_table = ''roles'',
     en_columns = [(''id'', ''uuid'', False), (''name'', ''varchar'', False), (''description'', ''text'', True),
       (''isActive'', ''boolean'', False), (''createdAt'', ''timestamp'', False), (''updatedAt'', ''timestamp'', False)],
     en_uniques = [[''name'']], en_references = []\<rparr>"

definition role_permission_entity :: entity where
  "role_permission_entity = \<lparr>en_table = ''role_permissions'',
     en_columns = [(''id'', ''uuid'', False), (''role_id'', ''uuid'', False), (''permission_id'', ''uuid'', False),
       (''createdAt'', ''timestamp'', False)],
     en_uniques = [[''role_id'', ''permission_id'']],
     en_references = [(''role_id'', ''roles'', Some ''CASCADE''), (''permission_id'', ''permissions'', Some ''CASCADE'')]\<rparr>"

definition user_entity :: entity where
  "user_entity = \<lparr>en_table = ''users'',
     en_columns = [(''id'', ''uuid'', False), (''email'', ''varchar'', False), (''password'', ''varchar'', False),
       (''name'', ''varchar'', False), (''role_id'', ''uuid'', True), (''isActive'', ''boolean'', False),
       (''failed_login_attempts'', ''int'', False), (''locked_until'', ''timestamp'', True),
       (''createdAt'', ''timestamp'', False), (''updatedAt'', ''timestamp'', False), (''deletedAt'', ''timestamp'', True)],
     en_uniques = [], en_references = [(''role_id'', ''roles'', None)]\<rparr>"

definition session_entity :: entity where
  "session_entity = \<lparr>en_table = ''sessions'',
     en_columns = [(''id'', ''uuid'', False), (''user_id'', ''uuid'', False), (''refresh_token_hash'', ''varchar'', False),
       (''ip'', ''varchar(45)'', True), (''user_agent'', ''varchar(512)'', True), (''createdAt'', ''timestamp'', False),
       (''expires_at'', ''timestamp'', False), (''revoked_at'', ''timestamp'', True),
       (''rotated_from_session_id'', ''uuid'', True), (''jti'', ''uuid'', True), (''access_jti'', ''uuid'', True),
       (''rotated_to_session_id'', ''uuid'', True)],
     en_uniques = [], en_references = [(''user_id'', ''users'', Some ''CASCADE'')]\<rparr>"

definition audit_log_entity :: entity where
  "audit_log_entity = \<lparr>en_table = ''audit_logs'',
     en_columns = [(''id'', ''uuid'', False), (''actor_user_id'', ''uuid'', True), (''action'', ''varchar'', False),
       (''entity_type'', ''varchar'', False), (''entity_id'', ''uuid'', True), (''correlation_id'', ''uuid'', True),
       (''metadata'', ''jsonb'', False), (''ip'', ''varchar(45)'', True), (''user_agent'', ''varchar(512)'', True),
       (''createdAt'', ''timestamp'', False)],
     en_uniques = [], en_references = [(''actor_user_id'', ''users'', Some ''SET NULL'')]\<rparr>"

definition entities :: "entity list" where
  "entities = [feature_entity, permission_entity, role_entity, role_permission_entity, user_entity,
     session_entity, audit_log_entity]"

text \<open>A table enforces uniqueness by its keys and by unique indexes without a condition.\<close>

definition enforced_uniques :: "table \<Rightarrow> string list list" where
  "enforced_uniques t = List.map uk_columns (ta_uniques t) @
     List.map ix_columns (List.filter (\<lambda>ix. ix_unique ix \<and> ix_where ix = None) (ta_indices t))"

definition matches :: "schema \<Rightarrow> entity \<Rightarrow> bool" where
  "matches s e = (case find_table (en_table e) s of
     None \<Rightarrow> False
   | Some t \<Rightarrow>
       set (List.map (\<lambda>c. (co_name c, co_type c, co_nullable c)) (ta_columns t)) = set (en_columns e) \<and>
       distinct (column_names t) \<and>
       list_all (\<lambda>cs. cs \<in> set (enforced_uniques t)) (en_uniques e) \<and>
       list_all (\<lambda>(c, r, onDelete). list_ex (\<lambda>fk. fk_columns fk = [c] \<and> fk_table fk = r \<and>
         fk_references fk = [''id''] \<and> (onDelete = None \<or> onDelete = Some (fk_onDelete fk))) (ta_foreignKeys t))
         (en_references e))"

section \<open>The chain\<close>

lemma migrated_matches:
  "case migrated of Inl e \<Rightarrow> False | Inr s \<Rightarrow> list_all (matches s) entities"
  by code_simp

lemma migrated_names:
  "case migrated of Inl e \<Rightarrow> False | Inr s \<Rightarrow>
     List.map ta_name (sc_tables s) =
       [''features'', ''permissions'', ''roles'', ''users'', ''role_permissions'', ''sessions'', ''audit_logs''] \<and>
     (case find_table ''users'' s of None \<Rightarrow> False | Some t \<Rightarrow> [''email''] \<in> set (enforced_uniques t))"
  by code_simp

lemma migrated_reverted:
  "case migrated of Inl e \<Rightarrow> False | Inr s \<Rightarrow>
     (case run (concat (List.map mi_down (rev migrations))) s of Inl e \<Rightarrow> False | Inr s' \<Rightarrow> sc_tables s' = [])"
  by code_simp

text \<open>
  C34. The migrations, run in order on an empty database, all succeed and build exactly the seven
  tables of the entities: the same columns with the same types and nullability, every declared unique
  and every reference with its ON DELETE. E-mail addresses stay unique over all users, the deleted
  ones included. Reverting all of them, last first, succeeds and leaves no table.
\<close>

theorem migrations_match_entities:
  "\<exists>s s'. migrated = Inr s \<and>
     List.map ta_name (sc_tables s) =
       [''features'', ''permissions'', ''roles'', ''users'', ''role_permissions'', ''sessions'', ''audit_logs''] \<and>
     list_all (matches s) entities \<and>
     (\<exists>users. find_table ''users'' s = Some users \<and> [''email''] \<in> set (enforced_uniques users)) \<and>
     run (concat (List.map mi_down (rev migrations))) s = Inr s' \<and> sc_tables s' = []"
proof (cases migrated)
  case (Inr s)
  note facts = migrated_matches [unfolded Inr sum.case] migrated_names [unfolded Inr sum.case]
    migrated_reverted [unfolded Inr sum.case]
  from facts(2) obtain users where "find_table ''users'' s = Some users" "[''email''] \<in> set (enforced_uniques users)"
    by (auto split: option.splits)
  moreover from facts(3) obtain s' where "run (concat (List.map mi_down (rev migrations))) s = Inr s'" "sc_tables s' = []"
    by (auto split: sum.splits)
  ultimately show ?thesis using Inr facts(1,2) by (intro exI [of _ s] exI [of _ s']) simp
next
  case (Inl e)
  from migrated_matches [unfolded Inl sum.case] show ?thesis by (rule FalseE)
qed

section \<open>The way back\<close>

definition irreversible :: "string list" where
  "irreversible = [''InitialRbacSchema1707764400000'', ''CorrectiveIndexes1740400000002'',
     ''SoftDeletePartialUniqueEmail1740400000003'', ''DropRolePermissionGranted1740400000004'',
     ''RemoveOrganizationFromAudit1740500000000'']"

lemma migrations_undone:
  "list_all (\<lambda>m. mi_name m \<in> set irreversible \<or> undoes (mi_up m) (rev (mi_down m))) migrations"
  by code_simp

text \<open>
  C35. For the nine migrations that only add tables, columns or indexes, \<open>down\<close> undoes \<open>up\<close> on every
  well-formed schema: if each statement of \<open>up\<close> took effect, \<open>down\<close> succeeds and gives back exactly the
  schema from before. The other five also create extensions, or drop something first.
\<close>

theorem down_undoes_up:
  assumes "m \<in> set migrations" and "mi_name m \<notin> set irreversible" and "wf_schema s"
    and "takes_effect (mi_up m) s s'"
  shows "run (mi_down m) s' = Inr s"
proof -
  from migrations_undone assms(1,2) have "undoes (mi_up m) (rev (mi_down m))" by (auto simp: list_all_iff)
  from undoes_restores [OF this assms(3,4)] show ?thesis by simp
qed

definition sessions_only :: schema where
  "sessions_only = \<lparr>sc_extensions = [], sc_tables = [\<lparr>ta_name = ''sessions'', ta_columns = [id_column],
     ta_uniques = [], ta_foreignKeys = [], ta_indices = []\<rparr>]\<rparr>"

theorem down_undoes_up_witness:
  "\<exists>s'. s' \<noteq> sessions_only \<and> run AddSessionJti_up sessions_only = Inr s' \<and>
     run AddSessionJti_down s' = Inr sessions_only"
proof -
  let ?m = "migrations ! 7"
  let ?s' = "change_table ''sessions'' (\<lambda>t. t\<lparr>ta_columns := ta_columns t @ [nullable (new_column ''jti'' ''uuid'')]\<rparr>) sessions_only"
  have m: "mi_up ?m = AddSessionJti_up" "mi_down ?m = AddSessionJti_down" "mi_name ?m = ''AddSessionJti1740400000001''"
    by (simp_all add: migrations_def)
  have up: "exec (hd AddSessionJti_up) sessions_only = Inr ?s'" by code_simp
  have "?s' \<noteq> sessions_only" by (simp add: sessions_only_def change_table_def)
  then have eff: "takes_effect (mi_up ?m) sessions_only ?s'"
    unfolding m(1) AddSessionJti_up_def by (intro statement [OF _ _ no_statement]) (use up in \<open>simp_all add: AddSessionJti_up_def\<close>)
  have "wf_schema sessions_only" by (simp add: sessions_only_def wf_schema_def wf_table_def)
  moreover have "?m \<in> set migrations" by (rule nth_mem) (simp add: migrations_def)
  ultimately have "run (mi_down ?m) ?s' = Inr sessions_only"
    using eff by (intro down_undoes_up) (simp_all add: m(3) irreversible_def)
  with \<open>?s' \<noteq> sessions_only\<close> takes_effect_run [OF eff] show ?thesis unfolding m by blast
qed

end
