(* ===== verification/Seed.thy ===== *)
theory Seed
  imports Rbac_Properties Auth_Service
begin

text \<open>
  The seed (\<open>src/migrations/seeds/rbac.seed.ts\<close>): features, permissions and roles found or
  created, the permissions of Super Admin replaced, the administrator found or created, all in one
  transaction. Texts that are not ASCII are written in UTF-8.
\<close>

section \<open>The data\<close>

abbreviation utf8_tilde_a :: string where "utf8_tilde_a \<equiv> [CHR 0xC3, CHR 0xA3]"
abbreviation utf8_tilde_o :: string where "utf8_tilde_o \<equiv> [CHR 0xC3, CHR 0xB5]"
abbreviation utf8_acute_a :: string where "utf8_acute_a \<equiv> [CHR 0xC3, CHR 0xA1]"
abbreviation utf8_acute_o :: string where "utf8_acute_o \<equiv> [CHR 0xC3, CHR 0xB3]"
abbreviation utf8_cedilla :: string where "utf8_cedilla \<equiv> [CHR 0xC3, CHR 0xA7]"

definition featuresData :: "(string \<times> string \<times> string) list" where
  "featuresData =
     [(''rbac'', ''Gerenciamento RBAC'', ''Gerenciar roles, features e permiss'' @ utf8_tilde_o @ ''es''),
      (''users'', ''Gerenciamento de Usu'' @ utf8_acute_a @ ''rios'', ''Gerenciar usu'' @ utf8_acute_a @ ''rios do sistema''),
      (''financial'', ''Dashboard Financeiro'', ''Acesso a dados financeiros'')]"

definition permissionsData :: "(string \<times> string \<times> string) list" where
  "permissionsData =
     [(''rbac'', ''view'', ''Visualizar''), (''rbac'', ''create'', ''Criar''), (''rbac'', ''edit'', ''Editar''),
      (''rbac'', ''delete'', ''Deletar''),
      (''rbac'', ''assign_permissions'', ''Atribuir Permiss'' @ utf8_tilde_o @ ''es''),
      (''users'', ''view'', ''Visualizar''), (''users'', ''create'', ''Criar''), (''users'', ''edit'', ''Editar''),
      (''users'', ''delete'', ''Deletar'')]"

definition rolesData :: "(string \<times> string) list" where
  "rolesData =
     [(''Super Admin'', ''Acesso total ao sistema''),
      (''Manager'', ''Gest'' @ utf8_tilde_a @ ''o de usu'' @ utf8_acute_a @ ''rios e relat'' @ utf8_acute_o @ ''rios''),
      (''Viewer'', ''Apenas visualiza'' @ utf8_cedilla @ utf8_tilde_a @ ''o'')]"

definition adminEmail :: string where
  "adminEmail = ''ramosinfo@gmail.com''"

section \<open>The steps\<close>

text \<open>\<open>findOne\<close>, and \<open>create\<close> and \<open>save\<close> when there is no row.\<close>

definition find_or_save ::
  "env \<Rightarrow> (world \<Rightarrow> 'r option) \<Rightarrow> (uuid \<Rightarrow> time \<Rightarrow> 'r) \<Rightarrow> ('r \<Rightarrow> (world, 'r) act) \<Rightarrow> (world, 'r) act" where
  "find_or_save E search new save = (\<lambda>w. case search w of
     Some row \<Rightarrow> (Inr row, w)
   | None \<Rightarrow> andThen (genUuid E) (\<lambda>i w. save (new i (w_now w)) w) w)"

fun for_each :: "('x \<Rightarrow> ('w, 'r) act) \<Rightarrow> 'x list \<Rightarrow> ('w, 'r list) act" where
  "for_each f [] = ret []"
| "for_each f (x # xs) = andThen (f x) (\<lambda>r. andThen (for_each f xs) (\<lambda>rs. ret (r # rs)))"

definition seeded_feature :: "string \<Rightarrow> string \<Rightarrow> string \<Rightarrow> uuid \<Rightarrow> time \<Rightarrow> feature" where
  "seeded_feature key name description i t = \<lparr>f_id = i, f_key = key, f_name = name,
     f_description = Some description, f_isActive = True, f_createdAt = t, f_updatedAt = t\<rparr>"

definition seeded_permission :: "feature \<Rightarrow> string \<Rightarrow> string \<Rightarrow> uuid \<Rightarrow> time \<Rightarrow> permission" where
  "seeded_permission feature action name i t = \<lparr>p_id = i, p_featureId = f_id feature, p_action = action,
     p_name = name, p_description = Some (''Permiss'' @ utf8_tilde_a @ ''o para '' @ action @ '' em '' @ f_name feature),
     p_createdAt = t, p_updatedAt = t\<rparr>"

definition seeded_role :: "string \<Rightarrow> string \<Rightarrow> uuid \<Rightarrow> time \<Rightarrow> role" where
  "seeded_role name description i t = \<lparr>r_id = i, r_name = name, r_description = Some description,
     r_isActive = True, r_createdAt = t, r_updatedAt = t\<rparr>"

lemma seeded_ids [simp]:
  "f_id (seeded_feature k n d i t) = i" "f_key (seeded_feature k n d i t) = k"
  "p_id (seeded_permission f a n i t) = i" "p_featureId (seeded_permission f a n i t) = f_id f"
  "p_action (seeded_permission f a n i t) = a"
  "r_id (seeded_role n d i t) = i" "r_name (seeded_role n d i t) = n"
  by (simp_all add: seeded_feature_def seeded_permission_def seeded_role_def)

definition seed_feature :: "env \<Rightarrow> string \<times> string \<times> string \<Rightarrow> (world, feature) act" where
  "seed_feature E = (\<lambda>(key, name, description).
     find_or_save E (\<lambda>w. find_row (\<lambda>f. f_key f = key) (features w))
       (seeded_feature key name description) insert_feature)"

definition seed_permission :: "env \<Rightarrow> (string \<rightharpoonup> feature) \<Rightarrow> string \<times> string \<times> string \<Rightarrow> (world, permission) act" where
  "seed_permission E byKey = (\<lambda>(featureKey, action, name). case byKey featureKey of
     None \<Rightarrow> throw (InternalServerError ''Cannot read properties of undefined'')
   | Some feature \<Rightarrow>
       find_or_save E (\<lambda>w. find_row (\<lambda>p. p_featureId p = f_id feature \<and> p_action p = action) (permissions w))
         (seeded_permission feature action name) insert_permission)"

definition seed_role :: "env \<Rightarrow> string \<times> string \<Rightarrow> (world, role) act" where
  "seed_role E = (\<lambda>(name, description).
     find_or_save E (\<lambda>w. find_row (\<lambda>r. r_name r = name) (roles w))
       (seeded_role name description) insert_role)"

definition new_admin :: "uuid \<Rightarrow> uuid \<Rightarrow> string \<Rightarrow> time \<Rightarrow> user" where
  "new_admin uid rid hash t = \<lparr>u_id = uid, u_email = adminEmail, u_password = Some hash,
     u_name = ''System Administrator'', u_roleId = Some rid, u_isActive = True, u_failedLoginAttempts = 0,
     u_lockedUntil = None, u_createdAt = t, u_updatedAt = t, u_deletedAt = None\<rparr>"

definition seed_admin :: "env \<Rightarrow> uuid \<Rightarrow> (world, unit) act" where
  "seed_admin E rid = (\<lambda>w. case users_findOne adminEmail w of
     None \<Rightarrow>
       andThen (hash_password E ''Admin@123456'' 10) (\<lambda>hash.
       andThen (genUuid E) (\<lambda>uid w. andThen (insert_user (new_admin uid rid hash (w_now w))) (\<lambda>_. ret ()) w)) w
   | Some u \<Rightarrow>
       if u_roleId u \<noteq> Some rid then (Inr (), update_user (u_id u) (\<lambda>u. u\<lparr>u_roleId := Some rid\<rparr>) w)
       else (Inr (), w))"

definition seedRbac :: "env \<Rightarrow> (world, unit) act" where
  "seedRbac E = transaction
     (andThen (for_each (seed_feature E) featuresData) (\<lambda>fs.
      andThen (for_each (seed_permission E (map_of (zip (map fst featuresData) fs))) permissionsData) (\<lambda>allPermissions.
      andThen (for_each (seed_role E) rolesData) (\<lambda>rs. case map_of (zip (map fst rolesData) rs) ''Super Admin'' of
        None \<Rightarrow> throw (InternalServerError ''Cannot read properties of undefined'')
      | Some adminRole \<Rightarrow>
          andThen (delete_role_permissions (r_id adminRole)) (\<lambda>_.
          andThen (insert_assignments E (r_id adminRole) (map p_id allPermissions)) (\<lambda>_.
          seed_admin E (r_id adminRole)))))))"

section \<open>What a step keeps\<close>

definition tables_inv :: "env \<Rightarrow> world \<Rightarrow> bool" where
  "tables_inv E w \<longleftrightarrow> uuid_ok E \<and> rbac_db_ok (w_db w) \<and> fresh_ids E w"

text \<open>Rows are only added to features, permissions and roles; no grant changes.\<close>

definition grows :: "world \<Rightarrow> world \<Rightarrow> bool" where
  "grows w w' \<longleftrightarrow> (\<exists>fs. features w' = features w @ fs) \<and> (\<exists>ps. permissions w' = permissions w @ ps) \<and>
     (\<exists>rs. roles w' = roles w @ rs) \<and> rolePermissions w' = rolePermissions w \<and> users w' = users w \<and>
     same_grants w w'"

lemma grows_refl [simp]: "grows w w"
  by (simp add: grows_def)

lemma grows_trans: "grows w1 w2 \<Longrightarrow> grows w2 w3 \<Longrightarrow> grows w1 w3"
  by (auto simp: grows_def same_grants_def)

lemma grows_sets:
  "grows w w' \<Longrightarrow> set (features w) \<subseteq> set (features w') \<and> set (permissions w) \<subseteq> set (permissions w') \<and>
     set (roles w) \<subseteq> set (roles w')"
  by (auto simp: grows_def)

text \<open>
  The loops share one lemma: when each round finds or makes its row and keeps what the rounds before
  have made, the loop makes all of them; and it changes nothing when all rows are there.
\<close>

lemma for_each_makes:
  assumes step: "\<And>x w. x \<in> set xs \<Longrightarrow> I w \<Longrightarrow> \<exists>r w'. f x w = (Inr r, w') \<and> I w' \<and> grows w w' \<and> Q x r w'"
    and stable: "\<And>x r w w'. Q x r w \<Longrightarrow> grows w w' \<Longrightarrow> Q x r w'"
    and "I w"
  shows "\<exists>rs w'. for_each f xs w = (Inr rs, w') \<and> I w' \<and> grows w w' \<and> list_all2 (\<lambda>x r. Q x r w') xs rs"
  using step \<open>I w\<close>
proof (induction xs arbitrary: w)
  case (Cons x xs)
  obtain r w1 where 1: "f x w = (Inr r, w1)" "I w1" "grows w w1" "Q x r w1"
    using Cons.prems(1) [of x w] Cons.prems(2) by auto
  obtain rs w2 where 2: "for_each f xs w1 = (Inr rs, w2)" "I w2" "grows w1 w2" "list_all2 (\<lambda>x r. Q x r w2) xs rs"
    using Cons.IH [of w1] Cons.prems(1) 1(2) by auto
  have "for_each f (x # xs) w = (Inr (r # rs), w2)" using 1(1) 2(1) by (simp add: andThen_def)
  with 2 1 stable [OF 1(4) 2(3)] grows_trans [OF 1(3) 2(3)] show ?case by auto
qed simp

lemma for_each_finds:
  assumes "\<And>x. x \<in> set xs \<Longrightarrow> \<exists>r. f x w = (Inr r, w) \<and> Q x r"
  shows "\<exists>rs. for_each f xs w = (Inr rs, w) \<and> list_all2 Q xs rs"
  using assms
proof (induction xs)
  case (Cons x xs)
  then obtain r rs where "f x w = (Inr r, w)" "Q x r" "for_each f xs w = (Inr rs, w)" "list_all2 Q xs rs"
    by fastforce
  then show ?case by (auto simp: andThen_def)
qed simp

section \<open>The rows of the seed\<close>

lemma seed_feature_makes:
  assumes inv: "tables_inv E w"
  shows "\<exists>f w'. seed_feature E x w = (Inr f, w') \<and> tables_inv E w' \<and> grows w w' \<and>
    f \<in> set (features w') \<and> f_key f = fst x"
proof -
  obtain key name d where x: "x = (key, name, d)" by (cases x)
  show ?thesis
  proof (cases "find_row (\<lambda>f. f_key f = key) (features w)")
    case (Some f)
    with inv find_row_SomeD [OF Some] show ?thesis by (simp add: x seed_feature_def find_or_save_def)
  next
    case None
    let ?row = "seeded_feature key name d (e_uuid E (w_fresh w)) (w_now w)"
    let ?w1 = "w\<lparr>w_fresh := Suc (w_fresh w)\<rparr>"
    let ?w2 = "modify_db (\<lambda>d. d\<lparr>db_features := db_features d @ [?row]\<rparr>) ?w1"
    have new: "f_id ?row \<notin> f_id ` set (features w)" using inv by (auto simp: tables_inv_def fresh_ids_def)
    have i: "insert_feature ?row ?w1 = (Inr ?row, ?w2)" using None by (simp add: insert_feature_def)
    have "rbac_db_ok (w_db ?w2)"
      using insert_feature_ok [of ?w1 ?row] new inv by (simp add: i tables_inv_def)
    moreover have "fresh_ids E ?w2"
      by (rule fresh_ids_grow_tables [of E w]) (use inv in \<open>auto simp: tables_inv_def\<close>)
    ultimately have "tables_inv E ?w2" using inv by (simp add: tables_inv_def)
    moreover have "same_grants w ?w2"
      using grants_append(1) [OF _ new] inv by (simp add: same_grants_def tables_inv_def rbac_db_ok_def)
    then have "grows w ?w2" by (simp add: grows_def)
    moreover have "seed_feature E x w = (Inr ?row, ?w2)"
      using None i by (simp add: x seed_feature_def find_or_save_def andThen_def genUuid_def)
    ultimately show ?thesis by (simp add: x)
  qed
qed

lemma seed_role_makes:
  assumes inv: "tables_inv E w"
  shows "\<exists>r w'. seed_role E x w = (Inr r, w') \<and> tables_inv E w' \<and> grows w w' \<and>
    r \<in> set (roles w') \<and> r_name r = fst x"
proof -
  obtain name d where x: "x = (name, d)" by (cases x)
  show ?thesis
  proof (cases "find_row (\<lambda>r. r_name r = name) (roles w)")
    case (Some r)
    with inv find_row_SomeD [OF Some] show ?thesis by (simp add: x seed_role_def find_or_save_def)
  next
    case None
    let ?row = "seeded_role name d (e_uuid E (w_fresh w)) (w_now w)"
    let ?w1 = "w\<lparr>w_fresh := Suc (w_fresh w)\<rparr>"
    let ?w2 = "modify_db (\<lambda>d. d\<lparr>db_roles := db_roles d @ [?row]\<rparr>) ?w1"
    have new: "r_id ?row \<notin> r_id ` set (roles w)" using inv by (auto simp: tables_inv_def fresh_ids_def)
    have i: "insert_role ?row ?w1 = (Inr ?row, ?w2)" using None by (simp add: insert_role_def)
    have "rbac_db_ok (w_db ?w2)"
      using insert_role_ok [of ?w1 ?row] new inv by (simp add: i tables_inv_def)
    moreover have "fresh_ids E ?w2"
      by (rule fresh_ids_grow_tables [of E w]) (use inv in \<open>auto simp: tables_inv_def\<close>)
    ultimately have "tables_inv E ?w2" using inv by (simp add: tables_inv_def)
    moreover have "grows w ?w2" by (simp add: grows_def same_grants_def set_eq_iff in_fetch_iff)
    moreover have "seed_role E x w = (Inr ?row, ?w2)"
      using None i by (simp add: x seed_role_def find_or_save_def andThen_def genUuid_def)
    ultimately show ?thesis by (simp add: x)
  qed
qed

lemma seed_permission_makes:
  assumes inv: "tables_inv E w" and f: "byKey (fst x) = Some f" "f \<in> set (features w)"
  shows "\<exists>p w'. seed_permission E byKey x w = (Inr p, w') \<and> tables_inv E w' \<and> grows w w' \<and>
    p \<in> set (permissions w') \<and> p_featureId p = f_id f \<and> p_action p = fst (snd x)"
proof -
  obtain key action name where x: "x = (key, action, name)" by (cases x)
  show ?thesis
  proof (cases "find_row (\<lambda>p. p_featureId p = f_id f \<and> p_action p = action) (permissions w)")
    case (Some p)
    with inv f find_row_SomeD [OF Some] show ?thesis by (simp add: x seed_permission_def find_or_save_def)
  next
    case None
    let ?row = "seeded_permission f action name (e_uuid E (w_fresh w)) (w_now w)"
    let ?w1 = "w\<lparr>w_fresh := Suc (w_fresh w)\<rparr>"
    let ?w2 = "modify_db (\<lambda>d. d\<lparr>db_permissions := db_permissions d @ [?row]\<rparr>) ?w1"
    have new: "p_id ?row \<notin> p_id ` set (permissions w)" using inv by (auto simp: tables_inv_def fresh_ids_def)
    have "find_row (\<lambda>g. f_id g = f_id f) (features w) \<noteq> None" using f(2) by (auto simp: find_row_None_iff)
    then have i: "insert_permission ?row ?w1 = (Inr ?row, ?w2)" using None by (simp add: insert_permission_def)
    have "rbac_db_ok (w_db ?w2)"
      using insert_permission_ok [of ?w1 ?row] new inv by (simp add: i tables_inv_def)
    moreover have "fresh_ids E ?w2"
      by (rule fresh_ids_grow_tables [of E w]) (use inv in \<open>auto simp: tables_inv_def\<close>)
    ultimately have "tables_inv E ?w2" using inv by (simp add: tables_inv_def)
    moreover have "same_grants w ?w2"
      using grants_append(2) [OF _ new] inv by (simp add: same_grants_def tables_inv_def rbac_db_ok_def)
    then have "grows w ?w2" by (simp add: grows_def)
    moreover have "seed_permission E byKey x w = (Inr ?row, ?w2)"
      using None i f(1) by (simp add: x seed_permission_def find_or_save_def andThen_def genUuid_def)
    ultimately show ?thesis by (simp add: x)
  qed
qed

end
