(* ===== verification/Seed_Properties.thy ===== *)
theory Seed_Properties
  imports Seed
begin

text \<open>
  What the seed leaves behind, on a new database or an existing one, and that running it again
  changes nothing that matters.
\<close>

section \<open>The rows the loops end with\<close>

definition feature_row :: "world \<Rightarrow> string \<times> string \<times> string \<Rightarrow> feature \<Rightarrow> bool" where
  "feature_row w x f \<longleftrightarrow> f \<in> set (features w) \<and> f_key f = fst x"

definition role_row :: "world \<Rightarrow> string \<times> string \<Rightarrow> role \<Rightarrow> bool" where
  "role_row w x r \<longleftrightarrow> r \<in> set (roles w) \<and> r_name r = fst x"

definition permission_row :: "world \<Rightarrow> string \<times> string \<times> string \<Rightarrow> permission \<Rightarrow> bool" where
  "permission_row w x p \<longleftrightarrow> p \<in> set (permissions w) \<and> p_action p = fst (snd x) \<and>
     (\<exists>f. feature_row w x f \<and> p_featureId p = f_id f)"

lemma rows_stable:
  "feature_row w x f \<Longrightarrow> grows w w' \<Longrightarrow> feature_row w' x f"
  "role_row w y r \<Longrightarrow> grows w w' \<Longrightarrow> role_row w' y r"
  "permission_row w x p \<Longrightarrow> grows w w' \<Longrightarrow> permission_row w' x p"
  using grows_sets by (fastforce simp: feature_row_def role_row_def permission_row_def)+

text \<open>Ids and keys determine the rows.\<close>

lemma tables_inv_unique:
  assumes "tables_inv E w"
  shows "f \<in> set (features w) \<Longrightarrow> g \<in> set (features w) \<Longrightarrow> f_id f = f_id g \<or> f_key f = f_key g \<Longrightarrow> f = g"
    and "p \<in> set (permissions w) \<Longrightarrow> q \<in> set (permissions w) \<Longrightarrow> p_id p = p_id q \<Longrightarrow> p = q"
  using assms by (auto simp: tables_inv_def rbac_db_ok_def unique_keys_def distinct_map dest: inj_onD)

lemma feature_row_unique:
  "tables_inv E w \<Longrightarrow> feature_row w x f \<Longrightarrow> feature_row w y g \<Longrightarrow> fst x = fst y \<Longrightarrow> f = g"
  using tables_inv_unique(1) [of E w f g] by (simp add: feature_row_def)

text \<open>The dictionaries \<open>features[key]\<close> and \<open>roles[name]\<close>.\<close>

lemma dictionary:
  assumes "list_all2 (\<lambda>x r. Q x r) xs rs" and "x \<in> set xs"
  shows "\<exists>y r. y \<in> set xs \<and> fst y = fst x \<and> map_of (zip (map fst xs) rs) (fst x) = Some r \<and> Q y r"
  using assms by (induction xs rs rule: list_all2_induct) auto

lemma list_all2_in: "list_all2 Q xs rs \<Longrightarrow> x \<in> set xs \<Longrightarrow> \<exists>r \<in> set rs. Q x r"
  "list_all2 Q xs rs \<Longrightarrow> r \<in> set rs \<Longrightarrow> \<exists>x \<in> set xs. Q x r"
  by (induction xs rs rule: list_all2_induct) auto

section \<open>The permission loop\<close>

lemma permission_keys: "x \<in> set permissionsData \<Longrightarrow> \<exists>y \<in> set featuresData. fst y = fst x"
  by (auto simp: permissionsData_def featuresData_def)

definition by_key :: "feature list \<Rightarrow> string \<rightharpoonup> feature" where
  "by_key fs = map_of (zip (map fst featuresData) fs)"

lemma by_key_row:
  assumes "list_all2 (feature_row w) featuresData fs" and "x \<in> set permissionsData"
  obtains f where "by_key fs (fst x) = Some f" and "feature_row w x f"
proof -
  from permission_keys [OF assms(2)] obtain z where "z \<in> set featuresData" "fst z = fst x" by blast
  with dictionary [OF assms(1), of z] obtain y f where "fst y = fst x" "by_key fs (fst x) = Some f" "feature_row w y f"
    by (auto simp: by_key_def)
  then show ?thesis using that by (simp add: feature_row_def)
qed

lemma permission_ids_distinct:
  assumes inv: "tables_inv E w" and ps: "list_all2 (permission_row w) permissionsData ps"
  shows "distinct (map p_id ps)"
proof -
  have n: "length ps = length permissionsData" using ps by (simp add: list_all2_lengthD)
  have "i = j" if i: "i < length ps" and j: "j < length ps" and eq: "p_id (ps ! i) = p_id (ps ! j)" for i j
  proof -
    from ps n i j have rows: "permission_row w (permissionsData ! i) (ps ! i)" "permission_row w (permissionsData ! j) (ps ! j)"
      by (simp_all add: list_all2_conv_all_nth)
    with tables_inv_unique(2) [OF inv _ _ eq] have same: "ps ! i = ps ! j" by (simp add: permission_row_def)
    from rows obtain f g where "feature_row w (permissionsData ! i) f" "p_featureId (ps ! i) = f_id f"
      "feature_row w (permissionsData ! j) g" "p_featureId (ps ! j) = f_id g" by (auto simp: permission_row_def)
    with same tables_inv_unique(1) [OF inv, of f g] have "f = g" by (simp add: feature_row_def)
    with \<open>feature_row w (permissionsData ! i) f\<close> \<open>feature_row w (permissionsData ! j) g\<close>
    have "fst (permissionsData ! i) = fst (permissionsData ! j)" by (simp add: feature_row_def)
    moreover from rows same have "fst (snd (permissionsData ! i)) = fst (snd (permissionsData ! j))"
      by (simp add: permission_row_def)
    moreover have "distinct (map (\<lambda>x. (fst x, fst (snd x))) permissionsData)" by (simp add: permissionsData_def)
    ultimately show "i = j" using i j n by (auto simp: distinct_conv_nth)
  qed
  then show ?thesis by (auto simp: distinct_conv_nth)
qed

definition seeded_strings :: "string list" where
  "seeded_strings = map (\<lambda>(featureKey, action, name). featureKey @ '':'' @ action) permissionsData"

lemma seeded_grants:
  assumes inv: "tables_inv E w" and ps: "list_all2 (permission_row w) permissionsData ps"
  shows "{permission_string f p | p f. p \<in> set (permissions w) \<and> f \<in> set (features w) \<and>
      p_id p \<in> set (map p_id ps) \<and> f_id f = p_featureId p} = set seeded_strings"
proof -
  have str: "permission_string f p = (case x of (k, a, n) \<Rightarrow> k @ '':'' @ a)"
    if "permission_row w x p" "f \<in> set (features w)" "f_id f = p_featureId p" for x p f
  proof -
    from that(1) obtain g where "feature_row w x g" "p_featureId p = f_id g" by (auto simp: permission_row_def)
    with that tables_inv_unique(1) [OF inv, of f g] have "f_key f = fst x" by (auto simp: feature_row_def)
    with that(1) show ?thesis by (simp add: permission_string_def permission_row_def split: prod.split)
  qed
  show ?thesis
  proof (intro equalityI subsetI)
    fix s assume "s \<in> {permission_string f p | p f. p \<in> set (permissions w) \<and> f \<in> set (features w) \<and>
      p_id p \<in> set (map p_id ps) \<and> f_id f = p_featureId p}"
    then obtain p f q where s: "s = permission_string f p" "p \<in> set (permissions w)" "f \<in> set (features w)"
      "q \<in> set ps" "p_id p = p_id q" "f_id f = p_featureId p" by auto
    from list_all2_in(2) [OF ps s(4)] obtain x where x: "x \<in> set permissionsData" "permission_row w x q" by blast
    with s tables_inv_unique(2) [OF inv, of p q] have "p = q" by (simp add: permission_row_def)
    with s x str [of x p f] show "s \<in> set seeded_strings" by (auto simp: seeded_strings_def)
  next
    fix s assume "s \<in> set seeded_strings"
    then obtain x where x: "x \<in> set permissionsData" "s = (case x of (k, a, n) \<Rightarrow> k @ '':'' @ a)"
      by (auto simp: seeded_strings_def)
    from list_all2_in(1) [OF ps x(1)] obtain p where p: "p \<in> set ps" "permission_row w x p" by blast
    then obtain f where f: "feature_row w x f" "p_featureId p = f_id f" by (auto simp: permission_row_def)
    then have "s = permission_string f p" using str [OF p(2), of f] x(2) by (simp add: feature_row_def)
    moreover have "p \<in> set (permissions w)" "f \<in> set (features w)" "p_id p \<in> set (map p_id ps)" "f_id f = p_featureId p"
      using p f by (simp_all add: permission_row_def feature_row_def)
    ultimately show "s \<in> {permission_string f p | p f. p \<in> set (permissions w) \<and> f \<in> set (features w) \<and>
      p_id p \<in> set (map p_id ps) \<and> f_id f = p_featureId p}" by blast
  qed
qed

section \<open>The three loops together\<close>

definition rows_there :: "world \<Rightarrow> bool" where
  "rows_there w \<longleftrightarrow> (\<forall>x \<in> set featuresData. \<exists>f. feature_row w x f) \<and>
     (\<forall>x \<in> set permissionsData. \<exists>p. permission_row w x p) \<and> (\<forall>x \<in> set rolesData. \<exists>r. role_row w x r)"

text \<open>The loops, from \<open>w\<close> to \<open>w'\<close>, with the permissions and the role Super Admin they end with.\<close>

definition loops :: "env \<Rightarrow> world \<Rightarrow> world \<Rightarrow> permission list \<Rightarrow> role \<Rightarrow> bool" where
  "loops E w w' ps role \<longleftrightarrow> (\<exists>fs w1 w2 rs. for_each (seed_feature E) featuresData w = (Inr fs, w1) \<and>
     for_each (seed_permission E (by_key fs)) permissionsData w1 = (Inr ps, w2) \<and>
     for_each (seed_role E) rolesData w2 = (Inr rs, w') \<and>
     map_of (zip (map fst rolesData) rs) ''Super Admin'' = Some role) \<and>
     list_all2 (permission_row w') permissionsData ps \<and> role_row w' (''Super Admin'', []) role"

lemma super_admin:
  assumes "list_all2 (role_row w) rolesData rs"
  obtains role where "map_of (zip (map fst rolesData) rs) ''Super Admin'' = Some role" and "role_row w (''Super Admin'', []) role"
proof -
  have "(''Super Admin'', ''Acesso total ao sistema'') \<in> set rolesData" by (simp add: rolesData_def)
  from dictionary [OF assms this] show ?thesis using that by (auto simp: role_row_def)
qed

lemma rows_there_all:
  assumes "list_all2 (feature_row w) featuresData fs" "list_all2 (permission_row w) permissionsData ps"
    "list_all2 (role_row w) rolesData rs"
  shows "rows_there w"
  unfolding rows_there_def
  using list_all2_in(1) [OF assms(1)] list_all2_in(1) [OF assms(2)] list_all2_in(1) [OF assms(3)] by blast

lemma loops_make:
  assumes inv: "tables_inv E w"
  shows "\<exists>w' ps role. loops E w w' ps role \<and> tables_inv E w' \<and> grows w w' \<and> rows_there w'"
proof -
  have "\<exists>fs w1. for_each (seed_feature E) featuresData w = (Inr fs, w1) \<and> tables_inv E w1 \<and> grows w w1 \<and>
      list_all2 (\<lambda>x f. feature_row w1 x f) featuresData fs"
    by (rule for_each_makes [where I = "tables_inv E" and Q = "\<lambda>x f v. feature_row v x f", OF _ rows_stable(1) inv])
      (simp_all add: feature_row_def seed_feature_makes)
  then obtain fs w1 where 1: "for_each (seed_feature E) featuresData w = (Inr fs, w1)" "tables_inv E w1" "grows w w1"
      "list_all2 (feature_row w1) featuresData fs" by auto
  let ?I = "\<lambda>v. tables_inv E v \<and> grows w1 v"
  have step: "\<exists>p v'. seed_permission E (by_key fs) x v = (Inr p, v') \<and> ?I v' \<and> grows v v' \<and> permission_row v' x p"
    if x: "x \<in> set permissionsData" and v: "?I v" for x v
  proof -
    from by_key_row [OF 1(4) x] obtain f where f: "by_key fs (fst x) = Some f" "feature_row w1 x f" .
    with v have fv: "feature_row v x f" by (blast intro: rows_stable)
    with seed_permission_makes [of E v "by_key fs" x f] f(1) v obtain p v' where
      "seed_permission E (by_key fs) x v = (Inr p, v')" "tables_inv E v'" "grows v v'"
      "p \<in> set (permissions v')" "p_featureId p = f_id f" "p_action p = fst (snd x)" by (auto simp: feature_row_def)
    with v rows_stable(1) [OF fv] grows_trans show ?thesis by (auto simp: permission_row_def)
  qed
  have "\<exists>ps w2. for_each (seed_permission E (by_key fs)) permissionsData w1 = (Inr ps, w2) \<and> ?I w2 \<and> grows w1 w2 \<and>
      list_all2 (\<lambda>x p. permission_row w2 x p) permissionsData ps"
    by (rule for_each_makes [where I = ?I and Q = "\<lambda>x p v. permission_row v x p"])
      (use step 1(2) in \<open>auto intro: rows_stable(3)\<close>)
  then obtain ps w2 where 2: "for_each (seed_permission E (by_key fs)) permissionsData w1 = (Inr ps, w2)" "tables_inv E w2"
    "grows w1 w2" "list_all2 (permission_row w2) permissionsData ps" by auto
  have "\<exists>rs w3. for_each (seed_role E) rolesData w2 = (Inr rs, w3) \<and> tables_inv E w3 \<and> grows w2 w3 \<and>
      list_all2 (\<lambda>x r. role_row w3 x r) rolesData rs"
    by (rule for_each_makes [where I = "tables_inv E" and Q = "\<lambda>x r v. role_row v x r", OF _ rows_stable(2) 2(2)])
      (simp_all add: role_row_def seed_role_makes)
  then obtain rs w3 where 3: "for_each (seed_role E) rolesData w2 = (Inr rs, w3)" "tables_inv E w3" "grows w2 w3"
      "list_all2 (role_row w3) rolesData rs" by auto
  from super_admin [OF 3(4)] obtain role where
    role: "map_of (zip (map fst rolesData) rs) ''Super Admin'' = Some role" "role_row w3 (''Super Admin'', []) role" .
  have ps: "list_all2 (permission_row w3) permissionsData ps"
    using 2(4) 3(3) by (auto elim: list_all2_mono intro: rows_stable)
  have "list_all2 (feature_row w3) featuresData fs"
    using 1(4) 2(3) 3(3) by (auto elim!: list_all2_mono intro: rows_stable grows_trans)
  from rows_there_all [OF this ps 3(4)] have "rows_there w3" .
  moreover have "loops E w w3 ps role"
    unfolding loops_def using 1(1) 2(1) 3(1) role ps by blast
  ultimately show ?thesis using 3(2) grows_trans [OF grows_trans [OF 1(3) 2(3)] 3(3)] by blast
qed

text \<open>When all rows are there, the loops only read.\<close>

lemma loops_find:
  assumes inv: "tables_inv E w" and there: "rows_there w"
  shows "\<exists>ps role. loops E w w ps role"
proof -
  have "\<exists>f. seed_feature E x w = (Inr f, w) \<and> feature_row w x f" if "x \<in> set featuresData" for x
  proof -
    obtain k n d where x: "x = (k, n, d)" by (cases x)
    from there that obtain g where "feature_row w x g" by (auto simp: rows_there_def)
    then have "find_row (\<lambda>f. f_key f = k) (features w) \<noteq> None"
      by (auto simp: x feature_row_def find_row_None_iff)
    then obtain f where "find_row (\<lambda>f. f_key f = k) (features w) = Some f" by blast
    with find_row_SomeD [OF this] show ?thesis by (simp add: x seed_feature_def find_or_save_def feature_row_def)
  qed
  from for_each_finds [where f = "seed_feature E" and w = w and Q = "feature_row w", OF this] obtain fs where fs: "for_each (seed_feature E) featuresData w = (Inr fs, w)"
    "list_all2 (feature_row w) featuresData fs" by auto
  have "\<exists>p. seed_permission E (by_key fs) x w = (Inr p, w) \<and> permission_row w x p" if x: "x \<in> set permissionsData" for x
  proof -
    obtain k a n where xk: "x = (k, a, n)" by (cases x)
    from by_key_row [OF fs(2) x] obtain f where f: "by_key fs (fst x) = Some f" "feature_row w x f" .
    from there x obtain p where "permission_row w x p" by (auto simp: rows_there_def)
    then obtain g where "p \<in> set (permissions w)" "p_action p = a" "feature_row w x g" "p_featureId p = f_id g"
      by (auto simp: permission_row_def xk)
    with feature_row_unique [OF inv f(2), of x g]
    have "find_row (\<lambda>p. p_featureId p = f_id f \<and> p_action p = a) (permissions w) \<noteq> None"
      by (auto simp: find_row_None_iff)
    then obtain p where "find_row (\<lambda>p. p_featureId p = f_id f \<and> p_action p = a) (permissions w) = Some p" by blast
    with find_row_SomeD [OF this] f show ?thesis
      by (auto simp: xk seed_permission_def find_or_save_def permission_row_def)
  qed
  from for_each_finds [where f = "seed_permission E (by_key fs)" and w = w and Q = "permission_row w", OF this] obtain ps where ps: "for_each (seed_permission E (by_key fs)) permissionsData w = (Inr ps, w)"
    "list_all2 (permission_row w) permissionsData ps" by auto
  have "\<exists>r. seed_role E x w = (Inr r, w) \<and> role_row w x r" if "x \<in> set rolesData" for x
  proof -
    obtain n d where x: "x = (n, d)" by (cases x)
    from there that obtain q where "role_row w x q" by (auto simp: rows_there_def)
    then have "find_row (\<lambda>r. r_name r = n) (roles w) \<noteq> None"
      by (auto simp: x role_row_def find_row_None_iff)
    then obtain r where "find_row (\<lambda>r. r_name r = n) (roles w) = Some r" by blast
    with find_row_SomeD [OF this] show ?thesis by (simp add: x seed_role_def find_or_save_def role_row_def)
  qed
  from for_each_finds [where f = "seed_role E" and w = w and Q = "role_row w", OF this] obtain rs where rs: "for_each (seed_role E) rolesData w = (Inr rs, w)"
    "list_all2 (role_row w) rolesData rs" by auto
  from super_admin [OF rs(2)] obtain role where
    "map_of (zip (map fst rolesData) rs) ''Super Admin'' = Some role" "role_row w (''Super Admin'', []) role" .
  with fs ps rs show ?thesis unfolding loops_def by blast
qed

section \<open>After the loops\<close>

definition no_deleted_admin :: "world \<Rightarrow> bool" where
  "no_deleted_admin w \<longleftrightarrow> (\<forall>u \<in> set (users w). u_email u = adminEmail \<longrightarrow> u_deletedAt u = None)"

definition admin_has :: "uuid \<Rightarrow> world \<Rightarrow> bool" where
  "admin_has rid w \<longleftrightarrow> (\<exists>u. find_row (visible_user (\<lambda>u. u_email u = adminEmail)) (users w) = Some u \<and> u_roleId u = Some rid)"

lemma set_users_db [simp]:
  "w_db (set_users us w) = (w_db w)\<lparr>db_users := us\<rparr>" "w_fresh (set_users us w) = w_fresh w"
  by (simp_all add: set_users_def)

text \<open>The administrator: the tables of the RBAC module stay, and an administrator with the role is there.\<close>

lemma seed_admin_makes:
  assumes role: "rid \<in> r_id ` set (roles w)" and nd: "no_deleted_admin w"
  shows "\<exists>w' us. seed_admin E rid w = (Inr (), w') \<and> w_db w' = (w_db w)\<lparr>db_users := us\<rparr> \<and> w_fresh w \<le> w_fresh w' \<and>
    no_deleted_admin w' \<and> admin_has rid w' \<and> (admin_has rid w \<longrightarrow> users w' = users w) \<and>
    (\<forall>u \<in> set (users w'). \<forall>r. u_roleId u = Some r \<longrightarrow> r = rid \<or> (\<exists>v \<in> set (users w). u_roleId v = Some r))"
proof -
  let ?P = "visible_user (\<lambda>u. u_email u = adminEmail)"
  show ?thesis
  proof (cases "find_row ?P (users w)")
    case None
    let ?row = "new_admin (e_uuid E (Suc (w_fresh w))) rid (e_bcryptHash E ''Admin@123456'' 10 (w_fresh w)) (w_now w)"
    let ?w' = "set_users (users w @ [?row]) (w\<lparr>w_fresh := Suc (Suc (w_fresh w))\<rparr>)"
    have "find_row (\<lambda>u. u_email u = adminEmail) (users w) = None"
      using None nd by (auto simp: find_row_None_iff visible_user_def no_deleted_admin_def)
    moreover have "find_row (\<lambda>r. r_id r = rid) (roles w) \<noteq> None" using role by (simp add: find_key_None)
    ultimately have "seed_admin E rid w = (Inr (), ?w')"
      using None by (simp add: seed_admin_def users_findOne_def andThen_def hash_password_def genUuid_def insert_user_def new_admin_def)
    moreover have "admin_has rid ?w'"
      using None by (simp add: admin_has_def find_row_append row_simps new_admin_def visible_user_def)
    moreover have "\<not> admin_has rid w" using None by (simp add: admin_has_def)
    ultimately show ?thesis using nd by (intro exI [of _ ?w'] exI [of _ "users ?w'"]) (auto simp: no_deleted_admin_def new_admin_def)
  next
    case (Some u)
    show ?thesis
    proof (cases "u_roleId u = Some rid")
      case True
      with Some have "seed_admin E rid w = (Inr (), w)"
        by (simp add: seed_admin_def users_findOne_def without_password_def)
      with Some True nd show ?thesis by (intro exI [of _ w] exI [of _ "users w"]) (auto simp: admin_has_def)
    next
      case False
      let ?w' = "update_user (u_id u) (\<lambda>u. u\<lparr>u_roleId := Some rid\<rparr>) w"
      have "seed_admin E rid w = (Inr (), ?w')"
        using Some False by (simp add: seed_admin_def users_findOne_def without_password_def)
      moreover have "admin_has rid ?w'"
        using Some by (simp add: admin_has_def update_user_def find_row_update_where visible_user_def)
      moreover have "\<not> admin_has rid w" using Some False by (simp add: admin_has_def)
      ultimately show ?thesis using nd
        by (intro exI [of _ ?w'] exI [of _ "users ?w'"]) (auto simp: no_deleted_admin_def update_user_def set_update_where)
    qed
  qed
qed

lemma seed_finishes:
  assumes l: "loops E w w1 ps role" and inv: "tables_inv E w1" and nd: "no_deleted_admin w1"
  shows "\<exists>w'. seedRbac E w = (Inr (), w') \<and> tables_inv E w' \<and> no_deleted_admin w' \<and>
    features w' = features w1 \<and> permissions w' = permissions w1 \<and> roles w' = roles w1 \<and>
    (\<forall>r. set (fetchPermissionStringsForRole r (w_db w')) =
       (if r = r_id role then set seeded_strings else set (fetchPermissionStringsForRole r (w_db w1)))) \<and>
    admin_has (r_id role) w' \<and> (admin_has (r_id role) w1 \<longrightarrow> users w' = users w1)"
proof -
  let ?rid = "r_id role" and ?pids = "map p_id ps"
  let ?w2 = "assigned E ?rid ?pids (cleared ?rid w1)"
  have ps: "list_all2 (permission_row w1) permissionsData ps" and "role_row w1 (''Super Admin'', []) role"
    using l by (simp_all add: loops_def)
  then have role: "?rid \<in> r_id ` set (roles w1)" by (simp add: role_row_def)
  have dist: "distinct ?pids" by (rule permission_ids_distinct [OF inv ps])
  have there: "set ?pids \<subseteq> p_id ` set (permissions w1)"
    using list_all2_in(2) [OF ps] by (auto simp: permission_row_def)
  have same: "features ?w2 = features w1" "permissions ?w2 = permissions w1" "roles ?w2 = roles w1" "users ?w2 = users w1"
    by (simp_all add: assigned_def cleared_def)
  have ins: "insert_assignments E ?rid ?pids (cleared ?rid w1) = (Inr (), ?w2)"
    using dist there role by (intro insert_assignments_ok) (auto simp: cleared_def)
  have nd2: "no_deleted_admin ?w2" using nd same by (simp add: no_deleted_admin_def)
  have role2: "?rid \<in> r_id ` set (roles ?w2)" using role same by simp
  from seed_admin_makes [OF role2 nd2, of E] obtain w' us where w': "seed_admin E ?rid ?w2 = (Inr (), w')"
    "w_db w' = (w_db ?w2)\<lparr>db_users := us\<rparr>"
    "w_fresh ?w2 \<le> w_fresh w'" "no_deleted_admin w'" "admin_has ?rid w'" "admin_has ?rid ?w2 \<longrightarrow> users w' = users ?w2"
    "\<forall>u \<in> set (users w'). \<forall>r. u_roleId u = Some r \<longrightarrow> r = ?rid \<or> (\<exists>v \<in> set (users ?w2). u_roleId v = Some r)"
    by (elim exE conjE) (rule that)
  have "seedRbac E w = (Inr (), w')"
    using l ins w'(1)
    by (auto simp: loops_def by_key_def seedRbac_def transaction_def andThen_def delete_role_permissions_def cleared_def)
  moreover have rows: "features w' = features w1" "permissions w' = permissions w1" "roles w' = roles w1"
      "rolePermissions w' = rolePermissions ?w2"
    by (simp_all add: same w'(2))
  have ok2: "rbac_db_ok (w_db ?w2)"
    using inv role there dist by (intro assigned_tables_ok) (simp_all add: tables_inv_def)
  have "unique_keys (w_db w')" using ok2 by (simp add: rbac_db_ok_def unique_keys_def w'(2))
  moreover have "r \<in> r_id ` set (roles w1)" if "u \<in> set (users w')" "u_roleId u = Some r" for u r
  proof -
    have "\<forall>v \<in> set (users ?w2). \<forall>r. u_roleId v = Some r \<longrightarrow> r \<in> r_id ` set (roles w1)"
      using ok2 same(3) by (simp add: rbac_db_ok_def foreign_keys_def)
    with w'(7) role that show ?thesis by blast
  qed
  then have "foreign_keys (w_db w')" using ok2 rows same by (simp add: rbac_db_ok_def foreign_keys_def)
  ultimately have "rbac_db_ok (w_db w')" by (simp add: rbac_db_ok_def)
  moreover have "w_fresh w1 \<le> w_fresh w'" using w'(3) by (simp add: assigned_def cleared_def)
  then have "fresh_ids E w'" using inv rows by (simp add: tables_inv_def fresh_ids_def)
  ultimately have "tables_inv E w'" using inv by (simp add: tables_inv_def)
  moreover have "set (fetchPermissionStringsForRole r (w_db w')) =
       (if r = ?rid then set seeded_strings else set (fetchPermissionStringsForRole r (w_db w1)))" for r
  proof -
    have "set (fetchPermissionStringsForRole r (w_db w')) = set (fetchPermissionStringsForRole r (w_db ?w2))"
      using rows same by (simp add: set_eq_iff in_fetch_iff)
    also have "\<dots> = (if r = ?rid then set seeded_strings else set (fetchPermissionStringsForRole r (w_db w1)))"
      unfolding grants_assigned [OF dist] seeded_grants [OF inv ps] ..
    finally show ?thesis .
  qed
  ultimately show ?thesis using \<open>seedRbac E w = (Inr (), w')\<close> rows w'(4-6) same
    by (intro exI [of _ w']) (simp add: admin_has_def)
qed

section \<open>The seed\<close>

text \<open>
  C36. On any well-formed database whose administrator is not soft-deleted, the seed succeeds: the role
  Super Admin is granted exactly the nine seeded permissions, no other role's permissions change, and
  the administrator has that role. Running it again succeeds and leaves features, permissions, roles,
  users and every role's permissions as they are.
\<close>

theorem seed_idempotent:
  assumes "uuid_ok E" and "rbac_db_ok (w_db w)" and "fresh_ids E w"
    and "\<forall>u \<in> set (users w). u_email u = adminEmail \<longrightarrow> u_deletedAt u = None"
  shows "\<exists>w' role. seedRbac E w = (Inr (), w') \<and> role \<in> set (roles w') \<and> r_name role = ''Super Admin'' \<and>
    (\<forall>r. set (fetchPermissionStringsForRole r (w_db w')) = (if r = r_id role then
       {''rbac:view'', ''rbac:create'', ''rbac:edit'', ''rbac:delete'', ''rbac:assign_permissions'',
        ''users:view'', ''users:create'', ''users:edit'', ''users:delete''}
       else set (fetchPermissionStringsForRole r (w_db w)))) \<and>
    (\<exists>u. users_findOne adminEmail w' = Some u \<and> u_roleId u = Some (r_id role)) \<and>
    (\<exists>w''. seedRbac E w' = (Inr (), w'') \<and> features w'' = features w' \<and> permissions w'' = permissions w' \<and>
       roles w'' = roles w' \<and> users w'' = users w' \<and>
       (\<forall>r. set (fetchPermissionStringsForRole r (w_db w'')) = set (fetchPermissionStringsForRole r (w_db w'))))"
proof -
  have inv: "tables_inv E w" and nd: "no_deleted_admin w"
    using assms by (simp_all add: tables_inv_def no_deleted_admin_def)
  from loops_make [OF inv] obtain w1 ps role where
    l: "loops E w w1 ps role" "tables_inv E w1" "grows w w1" "rows_there w1" by blast
  have "no_deleted_admin w1" using nd l(3) by (simp add: no_deleted_admin_def grows_def)
  from seed_finishes [OF l(1,2) this] obtain w' where w': "seedRbac E w = (Inr (), w')" "tables_inv E w'"
    "no_deleted_admin w'" "features w' = features w1" "permissions w' = permissions w1" "roles w' = roles w1"
    "\<forall>r. set (fetchPermissionStringsForRole r (w_db w')) =
       (if r = r_id role then set seeded_strings else set (fetchPermissionStringsForRole r (w_db w1)))"
    "admin_has (r_id role) w'" by blast
  have there: "rows_there w'"
    using l(4) w'(4-6) by (simp add: rows_there_def feature_row_def permission_row_def role_row_def)
  from loops_find [OF w'(2) there] obtain ps' role' where l': "loops E w' w' ps' role'" by blast
  have "r_id role' = r_id role" "role \<in> set (roles w')" "r_name role = ''Super Admin''"
  proof -
    have "role \<in> set (roles w')" "role' \<in> set (roles w')" "r_name role = ''Super Admin''" "r_name role' = r_name role"
      using l(1) l' w'(6) by (auto simp: loops_def role_row_def)
    moreover have "distinct (map r_name (roles w'))" using w'(2) by (simp add: tables_inv_def rbac_db_ok_def unique_keys_def)
    ultimately have "role' = role" unfolding distinct_map by (meson inj_onD)
    with \<open>role \<in> set (roles w')\<close> \<open>r_name role = ''Super Admin''\<close>
    show "r_id role' = r_id role" "role \<in> set (roles w')" "r_name role = ''Super Admin''" by simp_all
  qed
  note role = this
  from seed_finishes [OF l' w'(2,3)] role(1) w'(8) obtain w'' where w'': "seedRbac E w' = (Inr (), w'')"
    "features w'' = features w'" "permissions w'' = permissions w'" "roles w'' = roles w'" "users w'' = users w'"
    "\<forall>r. set (fetchPermissionStringsForRole r (w_db w'')) =
       (if r = r_id role then set seeded_strings else set (fetchPermissionStringsForRole r (w_db w')))" by auto
  have strings: "set seeded_strings = {''rbac:view'', ''rbac:create'', ''rbac:edit'', ''rbac:delete'',
      ''rbac:assign_permissions'', ''users:view'', ''users:create'', ''users:edit'', ''users:delete''}"
    by (simp add: seeded_strings_def permissionsData_def)
  have "\<exists>u. users_findOne adminEmail w' = Some u \<and> u_roleId u = Some (r_id role)"
    using w'(8) by (auto simp: admin_has_def users_findOne_def without_password_def)
  moreover have "set (fetchPermissionStringsForRole r (w_db w1)) = set (fetchPermissionStringsForRole r (w_db w))" for r
    using l(3) by (simp add: grows_def same_grants_def)
  moreover have "set (fetchPermissionStringsForRole r (w_db w'')) = set (fetchPermissionStringsForRole r (w_db w'))" for r
    using w''(6) w'(7) by simp
  ultimately show ?thesis
    using w' w'' role unfolding strings [symmetric]
    by (intro exI [of _ w'] exI [of _ role] conjI exI [of _ w'']) auto
qed

theorem seed_idempotent_witness:
  "\<exists>w' (role :: role). seedRbac demo_env policy_world = (Inr (), w') \<and> r_name role = ''Super Admin'' \<and>
     ''users:delete'' \<in> set (fetchPermissionStringsForRole (r_id role) (w_db w'))"
proof -
  have inv: "rbac_inv demo_env policy_world" by (rule policy_inv)
  then have "uuid_ok demo_env" "rbac_db_ok (w_db policy_world)" "fresh_ids demo_env policy_world"
    by (simp_all add: rbac_inv_def)
  note ready = this
  have "\<forall>u \<in> set (users policy_world). u_email u = adminEmail \<longrightarrow> u_deletedAt u = None"
    by (simp add: policy_db_def demo_db_def)
  from seed_idempotent [OF ready this] obtain w' and role :: role where "seedRbac demo_env policy_world = (Inr (), w')" "r_name role = ''Super Admin''"
    "\<forall>r. set (fetchPermissionStringsForRole r (w_db w')) = (if r = r_id role then
       {''rbac:view'', ''rbac:create'', ''rbac:edit'', ''rbac:delete'', ''rbac:assign_permissions'',
        ''users:view'', ''users:create'', ''users:edit'', ''users:delete''}
       else set (fetchPermissionStringsForRole r (w_db policy_world)))"
    by (elim exE conjE) (rule that; assumption)
  moreover from this(3) have "''users:delete'' \<in> set (fetchPermissionStringsForRole (r_id role) (w_db w'))" by simp
  ultimately show ?thesis by blast
qed

end
