(* ===== verification/Configuration.thy ===== *)
theory Configuration
  imports Complex_Main Password_Policy Health Purge Pg_Errors
begin

text \<open>
  The configuration of a process (\<open>config/\<close>): the validation schema, the options of the
  database connection, the single-tenant guard, the Redis connection, and what the modules build
  of them when the process starts. Environment variables are a map from names to text.
\<close>

type_synonym vars = "string \<rightharpoonup> string"

section \<open>Regular expressions with groups\<close>

text \<open>
  The expression for \<open>ALLOWED_ORIGINS\<close> repeats a group; it is anchored at both ends and has
  neither lookahead nor back references, so it accepts the words of its language.
\<close>

datatype rx =
    Never
  | Empty
  | One "char \<Rightarrow> bool"
  | Then rx rx
  | Or rx rx
  | Repeat rx

fun words :: "rx \<Rightarrow> string set" where
  "words Never = {}"
| "words Empty = {[]}"
| "words (One P) = {[c] | c. P c}"
| "words (Then r q) = {a @ b | a b. a \<in> words r \<and> b \<in> words q}"
| "words (Or r q) = words r \<union> words q"
| "words (Repeat r) = {concat ss | ss. set ss \<subseteq> words r}"

fun may_stop :: "rx \<Rightarrow> bool" where
  "may_stop Never = False"
| "may_stop Empty = True"
| "may_stop (One P) = False"
| "may_stop (Then r q) = (may_stop r \<and> may_stop q)"
| "may_stop (Or r q) = (may_stop r \<or> may_stop q)"
| "may_stop (Repeat r) = True"

fun after :: "char \<Rightarrow> rx \<Rightarrow> rx" where
  "after c Never = Never"
| "after c Empty = Never"
| "after c (One P) = (if P c then Empty else Never)"
| "after c (Then r q) = (if may_stop r then Or (Then (after c r) q) (after c q) else Then (after c r) q)"
| "after c (Or r q) = Or (after c r) (after c q)"
| "after c (Repeat r) = Then (after c r) (Repeat r)"

definition rx_accepts :: "rx \<Rightarrow> string \<Rightarrow> bool" where
  "rx_accepts r s = may_stop (fold after s r)"

lemma may_stop_words: "may_stop r \<longleftrightarrow> [] \<in> words r"
  by (induction r) (auto intro: exI [of _ "[]"])

lemma concat_starts:
  "concat ss = c # s \<Longrightarrow> \<exists>a ts. (c # a) \<in> set ss \<and> set ts \<subseteq> set ss \<and> s = a @ concat ts"
proof (induction ss)
  case (Cons x ss)
  show ?case
  proof (cases x)
    case Nil
    with Cons obtain a ts where "(c # a) \<in> set ss" "set ts \<subseteq> set ss" "s = a @ concat ts" by auto
    then show ?thesis by auto
  next
    case (Cons d a)
    with Cons.prems show ?thesis by (intro exI [of _ a] exI [of _ ss]) auto
  qed
qed simp

lemma words_after: "s \<in> words (after c r) \<longleftrightarrow> c # s \<in> words r"
proof (induction r arbitrary: s)
  case (Then r q)
  have "c # s \<in> words (Then r q) \<longleftrightarrow>
      (\<exists>a b. s = a @ b \<and> c # a \<in> words r \<and> b \<in> words q) \<or> [] \<in> words r \<and> c # s \<in> words q"
    by (auto simp: Cons_eq_append_conv)
  then show ?case using Then by (auto simp: may_stop_words)
next
  case (Repeat r)
  show ?case
  proof
    assume "s \<in> words (after c (Repeat r))"
    then obtain a ss where "c # a \<in> words r" "set ss \<subseteq> words r" "s = a @ concat ss"
      using Repeat by auto
    then show "c # s \<in> words (Repeat r)"
      by (auto intro!: exI [of _ "(c # a) # ss"])
  next
    assume "c # s \<in> words (Repeat r)"
    then obtain ss where ss: "concat ss = c # s" "set ss \<subseteq> words r" by auto
    from concat_starts [OF ss(1)] obtain a ts where "c # a \<in> set ss" "set ts \<subseteq> set ss" "s = a @ concat ts"
      by blast
    with ss(2) Repeat show "s \<in> words (after c (Repeat r))" by fastforce
  qed
qed auto

lemma rx_accepts_words: "rx_accepts r s \<longleftrightarrow> s \<in> words r"
  unfolding rx_accepts_def
  by (induction s arbitrary: r) (simp_all add: may_stop_words words_after)

definition literal :: "string \<Rightarrow> rx" where
  "literal w = foldr (\<lambda>c. Then (One ((=) c))) w Empty"

lemma words_literal [simp]: "words (literal w) = {w}"
  by (induction w) (auto simp: literal_def)

definition one_or_more :: "rx \<Rightarrow> rx" where
  "one_or_more r = Then r (Repeat r)"

lemma words_repeat_one [simp]: "words (Repeat (One P)) = {s. \<forall>c \<in> set s. P c}"
proof (intro set_eqI iffI)
  fix s assume "s \<in> {s. \<forall>c \<in> set s. P c}"
  then show "s \<in> words (Repeat (One P))"
    by (auto intro!: exI [of _ "map (\<lambda>c. [c]) s"])
next
  fix s assume "s \<in> words (Repeat (One P))"
  then obtain ss where "s = concat ss" "\<forall>x \<in> set ss. \<exists>c. x = [c] \<and> P c" by auto
  then show "s \<in> {s. \<forall>c \<in> set s. P c}" by fastforce
qed

lemma words_then_one [simp]: "words (Then (One P) r) = {c # s | c s. P c \<and> s \<in> words r}"
proof (intro set_eqI iffI)
  fix s assume "s \<in> {c # s | c s. P c \<and> s \<in> words r}"
  then obtain c t where "s = [c] @ t" "P c" "t \<in> words r" by auto
  then show "s \<in> words (Then (One P) r)" unfolding words.simps by blast
qed auto

lemma words_one_or_more: "words (one_or_more (One P)) = {s. s \<noteq> [] \<and> (\<forall>c \<in> set s. P c)}"
  unfolding one_or_more_def words_then_one words_repeat_one by (auto simp: neq_Nil_conv)

declare words.simps(4,6) [simp del]

section \<open>Validation\<close>

text \<open>
  What the schema uses of Joi: the type of a key, the values it is limited to or that are allowed
  besides, a pattern, the bounds of a number, whether it is required, its default, and the texts that
  replace the messages of some errors. A value is text, a number or a boolean; how Joi reads a number
  from text (or which error it reports) is an argument, \<open>num\<close>.
\<close>

datatype joi_value = VText string | VNumber rat | VFlag bool

datatype joi_type = JoiString | JoiNumber | JoiBoolean

record joi_rule =
  jr_type :: joi_type
  jr_valid :: "string list"
  jr_allow :: "string list"
  jr_pattern :: "rx option"
  jr_integer :: bool
  jr_min :: "rat option"
  jr_required :: bool
  jr_default :: "joi_value option"
  jr_messages :: "(string \<times> string) list"

definition joi :: "joi_type \<Rightarrow> joi_rule" where
  "joi t = \<lparr>jr_type = t, jr_valid = [], jr_allow = [], jr_pattern = None, jr_integer = False,
     jr_min = None, jr_required = False, jr_default = None, jr_messages = []\<rparr>"

text \<open>
  A rule of a key, or one that depends on another key: \<open>When k v r q\<close> is
  \<open>Joi.string().when(k, {is: v, then: r, otherwise: q})\<close>.
\<close>

datatype joi_schema = Always joi_rule | When string string joi_rule joi_rule

type_synonym joi_number = "string \<Rightarrow> string + rat"

definition joi_default :: "joi_value \<Rightarrow> joi_rule \<Rightarrow> joi_rule" where
  "joi_default v r = r\<lparr>jr_default := Some v\<rparr>"

definition joi_required :: "joi_rule \<Rightarrow> joi_rule" where
  "joi_required r = r\<lparr>jr_required := True\<rparr>"

definition joi_messages :: "(string \<times> string) list \<Rightarrow> joi_rule \<Rightarrow> joi_rule" where
  "joi_messages messages r = r\<lparr>jr_messages := messages\<rparr>"

definition joi_valid :: "string list \<Rightarrow> joi_rule \<Rightarrow> joi_rule" where
  "joi_valid vs r = r\<lparr>jr_valid := vs\<rparr>"

definition joi_allow :: "string list \<Rightarrow> joi_rule \<Rightarrow> joi_rule" where
  "joi_allow vs r = r\<lparr>jr_allow := vs\<rparr>"

definition joi_pattern :: "rx \<Rightarrow> joi_rule \<Rightarrow> joi_rule" where
  "joi_pattern p r = r\<lparr>jr_pattern := Some p\<rparr>"

definition joi_integer_min :: "rat \<Rightarrow> joi_rule \<Rightarrow> joi_rule" where
  "joi_integer_min m r = r\<lparr>jr_integer := True, jr_min := Some m\<rparr>"

text \<open>The errors of a value that is there, by their codes; every test is made (\<open>abortEarly\<close> is off).\<close>

definition check_text :: "joi_rule \<Rightarrow> string \<Rightarrow> string list + joi_value" where
  "check_text r s =
     (if s \<in> set (jr_valid r) \<union> set (jr_allow r) then Inr (VText s)
      else let errors = (if jr_valid r = [] then [] else [''any.only'']) @
                (if s = [] then [''string.empty'']
                 else case jr_pattern r of None \<Rightarrow> []
                      | Some p \<Rightarrow> if rx_accepts p s then [] else [''string.pattern.base''])
           in if errors = [] then Inr (VText s) else Inl errors)"

definition check_number :: "joi_number \<Rightarrow> joi_rule \<Rightarrow> string \<Rightarrow> string list + joi_value" where
  "check_number num r s = (case num s of
     Inl code \<Rightarrow> Inl [code]
   | Inr x \<Rightarrow> let errors = (if jr_integer r \<and> of_int \<lfloor>x\<rfloor> \<noteq> x then [''number.integer''] else []) @
                (case jr_min r of None \<Rightarrow> [] | Some m \<Rightarrow> if x < m then [''number.min''] else [])
             in if errors = [] then Inr (VNumber x) else Inl errors)"

definition ascii_lower :: "char \<Rightarrow> char" where
  "ascii_lower c = (if upper_case c then char_of (of_char c + 32 :: nat) else c)"

definition check_flag :: "string \<Rightarrow> string list + joi_value" where
  "check_flag s = (if map ascii_lower s = ''true'' then Inr (VFlag True)
     else if map ascii_lower s = ''false'' then Inr (VFlag False) else Inl [''boolean.base''])"

definition joi_check :: "joi_number \<Rightarrow> joi_rule \<Rightarrow> string option \<Rightarrow> string list + joi_value option" where
  "joi_check num r v = (case v of
     None \<Rightarrow> if jr_required r then Inl [''any.required''] else Inr (jr_default r)
   | Some s \<Rightarrow> map_sum id Some (case jr_type r of
       JoiString \<Rightarrow> check_text r s | JoiNumber \<Rightarrow> check_number num r s | JoiBoolean \<Rightarrow> check_flag s))"

text \<open>
  A reference reads the other key as validated: with its default, and as it was given when it is
  invalid. The text of an error is the one the rule sets for its code.
\<close>

type_synonym schema = "(string \<times> joi_schema) list"

definition joi_reference :: "joi_number \<Rightarrow> schema \<Rightarrow> vars \<Rightarrow> string \<Rightarrow> joi_value option" where
  "joi_reference num S v k = (case map_of S k of
     Some (Always r) \<Rightarrow> (case joi_check num r (v k) of Inr x \<Rightarrow> x | Inl _ \<Rightarrow> map_option VText (v k))
   | _ \<Rightarrow> map_option VText (v k))"

definition joi_select :: "joi_number \<Rightarrow> schema \<Rightarrow> vars \<Rightarrow> joi_schema \<Rightarrow> joi_rule" where
  "joi_select num S v s = (case s of
     Always r \<Rightarrow> r
   | When k x r q \<Rightarrow> if joi_reference num S v k = Some (VText x) then r else q)"

definition joi_errors :: "joi_number \<Rightarrow> schema \<Rightarrow> vars \<Rightarrow> (string \<times> string \<times> string option) list" where
  "joi_errors num S v = concat (map (\<lambda>(k, s). let r = joi_select num S v s in
     case joi_check num r (v k) of Inr _ \<Rightarrow> []
     | Inl codes \<Rightarrow> map (\<lambda>c. (k, c, map_of (jr_messages r) c)) codes) S)"

definition joi_validate :: "joi_number \<Rightarrow> schema \<Rightarrow> vars \<Rightarrow>
    (string \<times> string \<times> string option) list + (string \<rightharpoonup> joi_value)" where
  "joi_validate num S v = (case joi_errors num S v of
     [] \<Rightarrow> Inr (\<lambda>k. case map_of S k of None \<Rightarrow> None
       | Some s \<Rightarrow> (case joi_check num (joi_select num S v s) (v k) of Inr x \<Rightarrow> x | Inl _ \<Rightarrow> None))
   | es \<Rightarrow> Inl es)"

section \<open>The schema of the environment\<close>

text \<open>\<open>/^https?:\/\/.+(,https?:\/\/.+)*$/\<close>\<close>

definition url_pattern :: rx where
  "url_pattern = Then (literal ''http'') (Then (Or (literal ''s'') Empty)
     (Then (literal ''://'') (one_or_more (One any_char))))"

definition origins_pattern :: rx where
  "origins_pattern = Then url_pattern (Repeat (Then (literal '','') url_pattern))"

definition required_text :: joi_rule where
  "required_text = joi_required (joi JoiString)"

definition key_messages :: "string \<Rightarrow> (string \<times> string) list" where
  "key_messages k = [(''string.empty'', k @ '' must not be empty''), (''any.required'', k @ '' is required'')]"

definition multi_tenant_message :: string where
  "multi_tenant_message = ''MULTI_TENANT=true is not supported: this template is single-tenant and does not implement PostgreSQL Row-Level Security (RLS). Set MULTI_TENANT=false or unset it.''"

definition validationSchema :: schema where
  "validationSchema =
    [(''NODE_ENV'', Always (joi_default (VText ''development'')
        (joi_valid [''development'', ''production'', ''test''] (joi JoiString)))),
     (''PORT'', Always (joi_default (VNumber 3000) (joi JoiNumber))),
     (''API_PREFIX'', Always (joi_default (VText ''api'') (joi JoiString))),
     (''DB_HOST'', Always required_text),
     (''DB_PORT'', Always (joi_default (VNumber 5432) (joi JoiNumber))),
     (''DB_USERNAME'', Always required_text),
     (''DB_PASSWORD'', Always required_text),
     (''DB_DATABASE'', Always required_text),
     (''PRIVATE_KEY'', Always (joi_messages (key_messages ''PRIVATE_KEY'') required_text)),
     (''PUBLIC_KEY'', Always (joi_messages (key_messages ''PUBLIC_KEY'') required_text)),
     (''DB_SSL'', When ''NODE_ENV'' ''production''
        (joi_messages [(''any.only'', ''DB_SSL must be '' @ quoted ''true'' @ '' when NODE_ENV=production'')]
          (joi_required (joi_valid [''true''] (joi JoiString))))
        (joi_valid [''true'', ''false''] (joi JoiString))),
     (''DB_SSL_CA'', When ''NODE_ENV'' ''production''
        (joi_messages [(''any.required'', ''DB_SSL_CA is required when NODE_ENV=production and DB_SSL=true'')]
          required_text)
        (joi JoiString)),
     (''ALLOWED_ORIGINS'', When ''NODE_ENV'' ''production''
        (joi_messages [(''any.required'', ''ALLOWED_ORIGINS is required when NODE_ENV=production''),
            (''string.pattern.base'', ''ALLOWED_ORIGINS must be comma-separated URLs (e.g. https://admin.example.com)'')]
          (joi_required (joi_pattern origins_pattern (joi JoiString))))
        (joi_allow [[]] (joi JoiString))),
     (''PURGE_ENABLED'', Always (joi_default (VFlag True) (joi JoiBoolean))),
     (''SESSION_PURGE_CRON'', Always (joi_default (VText ''0 3 * * *'') (joi JoiString))),
     (''SESSION_GRACE_DAYS'', Always (joi_default (VNumber 1) (joi_integer_min 0 (joi JoiNumber)))),
     (''AUDIT_RETENTION_DAYS'', Always (joi_default (VNumber 90) (joi_integer_min 1 (joi JoiNumber)))),
     (''AUDIT_PURGE_CRON'', Always (joi_default (VText ''0 4 * * *'') (joi JoiString))),
     (''PURGE_BATCH_SIZE'', Always (joi_default (VNumber 1000) (joi_integer_min 1 (joi JoiNumber)))),
     (''REDIS_PASSWORD'', Always (joi_allow [[]] (joi JoiString))),
     (''MULTI_TENANT'', Always (joi_messages [(''any.only'', multi_tenant_message)]
        (joi_default (VText ''false'') (joi_valid [''false''] (joi JoiString)))))]"

section \<open>The options of the connection\<close>

text \<open>\<open>a || b\<close> on text, and \<open>parseInt(s, 10)\<close>, exact below \<open>2 ^ 53\<close>; \<open>None\<close> is NaN.\<close>

definition or_text :: "string option \<Rightarrow> string \<Rightarrow> string" where
  "or_text a b = (if truthy a then the a else b)"

definition digits_value :: "string \<Rightarrow> int" where
  "digits_value ds = foldl (\<lambda>n d. 10 * n + (of_char d - 48)) 0 ds"

definition parse_int :: "string \<Rightarrow> int option" where
  "parse_int s = (let t = dropWhile (\<lambda>c. js_space c \<or> of_char c = (160::nat)) s;
       negative = (t \<noteq> [] \<and> hd t = CHR ''-'');
       ds = takeWhile decimal_char (if t \<noteq> [] \<and> hd t \<in> {CHR ''-'', CHR ''+''} then tl t else t)
     in if ds = [] then None else Some (if negative then - digits_value ds else digits_value ds))"

text \<open>The option \<open>ssl\<close>: \<open>None\<close> is \<open>false\<close>, a connection without TLS.\<close>

record ssl_options =
  ssl_ca :: "string option"
  ssl_rejectUnauthorized :: bool

record data_source_options =
  ds_host :: "string option"
  ds_port :: "int option"
  ds_username :: "string option"
  ds_password :: string
  ds_database :: "string option"
  ds_synchronize :: bool
  ds_logging :: bool
  ds_ssl :: "ssl_options option"
  ds_poolMax :: "int option"
  ds_idleTimeoutMillis :: int
  ds_connectionTimeoutMillis :: int

definition db_ssl_ca_message :: string where
  "db_ssl_ca_message = ''DB_SSL_CA is required when DB_SSL=true and NODE_ENV=production (refusing to connect with unverified server certificate)''"

definition buildDataSourceOptions :: "vars \<Rightarrow> string + data_source_options" where
  "buildDataSourceOptions v =
     (if v ''DB_SSL'' = Some ''true'' \<and> v ''NODE_ENV'' = Some ''production'' \<and> \<not> truthy (v ''DB_SSL_CA'')
      then Inl db_ssl_ca_message
      else Inr
       \<lparr>ds_host = v ''DB_HOST'',
        ds_port = parse_int (or_text (v ''DB_PORT'') ''5432''),
        ds_username = v ''DB_USERNAME'',
        ds_password = or_text (v ''DB_PASSWORD'') [],
        ds_database = v ''DB_DATABASE'',
        ds_synchronize = (v ''NODE_ENV'' \<noteq> Some ''production'' \<and>
          (v ''NODE_ENV'' = Some ''development'' \<or> v ''DB_SYNCHRONIZE'' = Some ''true'')),
        ds_logging = (v ''DB_LOGGING'' = Some ''true''),
        ds_ssl = (if v ''DB_SSL'' = Some ''true'' then Some \<lparr>ssl_ca = v ''DB_SSL_CA'', ssl_rejectUnauthorized = True\<rparr> else None),
        ds_poolMax = parse_int (or_text (v ''DB_POOL_MAX'') ''20''),
        ds_idleTimeoutMillis = 30000, ds_connectionTimeoutMillis = 5000\<rparr>)"

section \<open>The loaded configuration\<close>

text \<open>\<open>replace(/\\n/gm, '\n')\<close>: a backslash and an n become a line feed, so PEM text fits a line.\<close>

fun unescape_newlines :: "string \<Rightarrow> string" where
  "unescape_newlines [] = []"
| "unescape_newlines [a] = [a]"
| "unescape_newlines (a # b # s) =
     (if a = CHR 0x5C \<and> b = CHR ''n'' then CHR 0x0A # unescape_newlines s
      else a # unescape_newlines (b # s))"

record app_config =
  ac_env :: string
  ac_port :: int
  ac_privateKey :: string
  ac_publicKey :: string
  ac_database :: data_source_options

definition configuration :: "vars \<Rightarrow> string + app_config" where
  "configuration v = (case buildDataSourceOptions v of
     Inl e \<Rightarrow> Inl e
   | Inr db \<Rightarrow> Inr
      \<lparr>ac_env = or_text (v ''NODE_ENV'') ''development'',
       ac_port = (case Option.bind (v ''PORT'') parse_int of None \<Rightarrow> 3000 | Some n \<Rightarrow> if n = 0 then 3000 else n),
       ac_privateKey = unescape_newlines (or_text (v ''PRIVATE_KEY'') []),
       ac_publicKey = unescape_newlines (or_text (v ''PUBLIC_KEY'') []),
       ac_database = db\<rparr>)"

section \<open>The single-tenant guard and Redis\<close>

definition single_tenant_message :: string where
  "single_tenant_message = ''MULTI_TENANT=true is not supported: this template is single-tenant and does not implement PostgreSQL Row-Level Security (RLS). Set MULTI_TENANT=false (or unset).''"

definition assertSingleTenant :: "vars \<Rightarrow> string + unit" where
  "assertSingleTenant v =
     (if v ''MULTI_TENANT'' = Some ''true'' then Inl single_tenant_message else Inr ())"

text \<open>
  The Redis connection, with the configuration service (its \<open>get\<close>) where there is one.
  \<open>number\<close> is JavaScript's \<open>Number\<close> of a text, \<open>None\<close> for NaN.
\<close>

definition resolveRedisHost :: "(string \<Rightarrow> string option) option \<Rightarrow> vars \<Rightarrow> string option" where
  "resolveRedisHost configService v =
     (let fromConfig = Option.bind configService (\<lambda>get. get ''REDIS_HOST'') in
      if truthy fromConfig then fromConfig else v ''REDIS_HOST'')"

definition isRedisConfigured :: "(string \<Rightarrow> string option) option \<Rightarrow> vars \<Rightarrow> bool" where
  "isRedisConfigured configService v \<longleftrightarrow> truthy (resolveRedisHost configService v)"

record redis_connection =
  rd_host :: string
  rd_port :: rat
  rd_password :: "string option"

definition config_or_env :: "(string \<Rightarrow> string option) option \<Rightarrow> vars \<Rightarrow> string \<Rightarrow> string option" where
  "config_or_env configService v k =
     (case Option.bind configService (\<lambda>get. get k) of None \<Rightarrow> v k | Some x \<Rightarrow> Some x)"

definition resolveRedisConnection ::
  "(string \<Rightarrow> rat option) \<Rightarrow> (string \<Rightarrow> string option) option \<Rightarrow> vars \<Rightarrow> redis_connection option" where
  "resolveRedisConnection number configService v =
     (let host = resolveRedisHost configService v;
          port = (case Option.bind (config_or_env configService v ''REDIS_PORT'') number of
                    None \<Rightarrow> 6379 | Some n \<Rightarrow> if n = 0 then 6379 else n);
          password = config_or_env configService v ''REDIS_PASSWORD'' in
      if \<not> truthy host then None
      else Some \<lparr>rd_host = the host, rd_port = port,
                 rd_password = (if truthy password then password else None)\<rparr>)"

text \<open>
  The queue exists exactly where Redis is configured: \<open>OptionalBullModule\<close> opens the connection,
  \<open>AuditModule\<close> registers the queue with its processor.
\<close>

record bull_connection =
  bc_host :: string
  bc_port :: rat
  bc_password :: "string option"
  bc_maxRetriesPerRequest :: "nat option"

definition OptionalBullModule_register :: "(string \<Rightarrow> rat option) \<Rightarrow> vars \<Rightarrow> bull_connection option" where
  "OptionalBullModule_register number v =
     (if \<not> isRedisConfigured None v then None
      else (let redis = the (resolveRedisConnection number None v) in
        Some \<lparr>bc_host = rd_host redis, bc_port = rd_port redis, bc_password = rd_password redis,
              bc_maxRetriesPerRequest = None\<rparr>))"

record audit_module =
  am_imports :: "string list"
  am_providers :: "string list"
  am_exports :: "string list"

definition AuditModule_register :: "vars \<Rightarrow> audit_module" where
  "AuditModule_register v =
     (let redisConfigured = isRedisConfigured None v;
          m = \<lparr>am_imports = [''TypeOrmModule.forFeature AuditLog''],
               am_providers = [''AuditLogService'', ''AuditInterceptor''],
               am_exports = [''AuditLogService'']\<rparr> in
      if redisConfigured
      then m\<lparr>am_imports := am_imports m @ [''BullModule.registerQueue audit-log''],
             am_providers := am_providers m @ [''AuditLogProcessor''],
             am_exports := am_exports m @ [''BullModule'']\<rparr>
      else m)"

text \<open>
  The tiers of the cache. The stores are made once and shared; a TTL given in the environment is
  text, since the schema does not know the variable.
\<close>

datatype cache_tier = MemoryTier | RedisTier redis_connection

record shared_stores =
  sh_redis :: "redis_connection option"
  sh_memory :: bool

definition buildCacheStores ::
  "(string \<Rightarrow> rat option) \<Rightarrow> (string \<Rightarrow> string option) \<Rightarrow> vars \<Rightarrow> shared_stores \<Rightarrow> cache_tier list \<times> shared_stores" where
  "buildCacheStores number get v sh =
     (case resolveRedisConnection number (Some get) v of
        Some redis \<Rightarrow>
          (let store = (case sh_redis sh of None \<Rightarrow> redis | Some old \<Rightarrow> old) in
           ([MemoryTier, RedisTier store], \<lparr>sh_redis = Some store, sh_memory = True\<rparr>))
      | None \<Rightarrow> ([MemoryTier], sh\<lparr>sh_memory := True\<rparr>))"

definition buildCacheStoresOptions ::
  "(string \<Rightarrow> rat option) \<Rightarrow> (string \<Rightarrow> string option) \<Rightarrow> vars \<Rightarrow> shared_stores \<Rightarrow>
     (joi_value \<times> cache_tier list) \<times> shared_stores" where
  "buildCacheStoresOptions number get v sh =
     (let ttl = (case get ''RBAC_CACHE_TTL'' of None \<Rightarrow> VNumber 300000 | Some s \<Rightarrow> VText s);
          (stores, sh') = buildCacheStores number get v sh in ((ttl, stores), sh'))"

section \<open>The start of the process\<close>

record jwt_options =
  jo_privateKey :: string
  jo_publicKey :: string
  jo_expiresIn :: string
  jo_algorithm :: string

definition jwt_module_options :: "'k key_functions \<Rightarrow> app_config \<Rightarrow> string + jwt_options" where
  "jwt_module_options K c =
     (if ac_privateKey c = [] \<or> ac_publicKey c = []
      then Inl ''PRIVATE_KEY and PUBLIC_KEY must be configured (RS256 JWT)''
      else case assertValidJwtKeyPair K (ac_privateKey c) (ac_publicKey c) of
        Inl e \<Rightarrow> Inl e
      | Inr _ \<Rightarrow> Inr \<lparr>jo_privateKey = ac_privateKey c, jo_publicKey = ac_publicKey c,
          jo_expiresIn = ''15m'', jo_algorithm = ''RS256''\<rparr>)"

text \<open>
  What \<open>PurgeService\<close> reads when its module starts. The values are of these types because the
  schema made them (lemma \<open>purge_values\<close>).
\<close>

definition config_flag :: "(string \<rightharpoonup> joi_value) \<Rightarrow> string \<Rightarrow> bool \<Rightarrow> bool" where
  "config_flag cfg k d = (case cfg k of Some (VFlag b) \<Rightarrow> b | _ \<Rightarrow> d)"

definition config_int :: "(string \<rightharpoonup> joi_value) \<Rightarrow> string \<Rightarrow> int \<Rightarrow> int" where
  "config_int cfg k d = (case cfg k of Some (VNumber x) \<Rightarrow> \<lfloor>x\<rfloor> | _ \<Rightarrow> d)"

definition purge_onModuleInit :: "(string \<rightharpoonup> joi_value) \<Rightarrow> purge_config" where
  "purge_onModuleInit cfg =
     \<lparr>pc_purgeEnabled = config_flag cfg ''PURGE_ENABLED'' True,
      pc_sessionGraceDays = config_int cfg ''SESSION_GRACE_DAYS'' 1,
      pc_auditRetentionDays = config_int cfg ''AUDIT_RETENTION_DAYS'' 90,
      pc_batchSize = nat (config_int cfg ''PURGE_BATCH_SIZE'' 1000)\<rparr>"

text \<open>
  The crons are read when the class is defined, that is before \<open>ConfigModule\<close> reads the file
  \<open>.env\<close>: \<open>shell\<close> is the environment the process was given.
\<close>

definition session_purge_cron :: "vars \<Rightarrow> string" where
  "session_purge_cron shell = (case shell ''SESSION_PURGE_CRON'' of None \<Rightarrow> ''0 3 * * *'' | Some c \<Rightarrow> c)"

definition audit_purge_cron :: "vars \<Rightarrow> string" where
  "audit_purge_cron shell = (case shell ''AUDIT_PURGE_CRON'' of None \<Rightarrow> ''0 4 * * *'' | Some c \<Rightarrow> c)"

text \<open>\<open>split(',')\<close>\<close>

fun split_commas :: "string \<Rightarrow> string list" where
  "split_commas [] = [[]]"
| "split_commas (c # s) =
     (if c = CHR '','' then [] # split_commas s
      else case split_commas s of [] \<Rightarrow> [[c]] | w # ws \<Rightarrow> (c # w) # ws)"

definition config_text :: "(string \<rightharpoonup> joi_value) \<Rightarrow> string \<Rightarrow> string \<Rightarrow> string" where
  "config_text cfg k d = (case cfg k of Some (VText s) \<Rightarrow> s | _ \<Rightarrow> d)"

record server =
  sv_prefix :: string
  sv_origins :: "string list"
  sv_methods :: "string list"
  sv_allowedHeaders :: "string list"
  sv_port :: rat
  sv_config :: app_config
  sv_jwt :: jwt_options
  sv_purge :: purge_config

datatype start_error = ConfigInvalid "(string \<times> string \<times> string option) list" | StartFailed string

text \<open>
  \<open>bootstrap\<close>: the guard, then the modules (validation of the environment \<open>v\<close>, the loaded
  configuration, the keys), then the settings of the server. Between validation and loading
  \<open>ConfigModule\<close> adds validated values to the environment; \<open>assign\<close> is the environment it leaves.
\<close>

definition bootstrap ::
  "'k key_functions \<Rightarrow> joi_number \<Rightarrow> (vars \<Rightarrow> (string \<rightharpoonup> joi_value) \<Rightarrow> vars) \<Rightarrow> vars \<Rightarrow> start_error + server" where
  "bootstrap K num assign v = (case assertSingleTenant v of
     Inl e \<Rightarrow> Inl (StartFailed e)
   | Inr _ \<Rightarrow> (case joi_validate num validationSchema v of
       Inl es \<Rightarrow> Inl (ConfigInvalid es)
     | Inr cfg \<Rightarrow> (case configuration (assign v cfg) of
         Inl e \<Rightarrow> Inl (StartFailed e)
       | Inr c \<Rightarrow> (case jwt_module_options K c of
           Inl e \<Rightarrow> Inl (StartFailed e)
         | Inr j \<Rightarrow> Inr
            \<lparr>sv_prefix = config_text cfg ''API_PREFIX'' ''api'',
             sv_origins = split_commas (config_text cfg ''ALLOWED_ORIGINS'' []),
             sv_methods = [''GET'', ''POST'', ''PUT'', ''DELETE'', ''PATCH''],
             sv_allowedHeaders = [''Content-Type'', ''Authorization'', ''X-Requested-With'', ''X-Correlation-Id''],
             sv_port = (case cfg ''PORT'' of Some (VNumber x) \<Rightarrow> x | _ \<Rightarrow> 3000),
             sv_config = c, sv_jwt = j, sv_purge = purge_onModuleInit cfg\<rparr>))))"

end
