(* ===== verification/Configuration_Properties.thy ===== *)
theory Configuration_Properties
  imports Configuration Demo_Env
begin

text \<open>
  What a process that has started may count on: the values of its configuration have the types
  the code reads them at, and a production process is one that was configured safely.
\<close>

section \<open>Validated values\<close>

lemma validated_key:
  assumes "joi_validate num S v = Inr cfg" and "map_of S k = Some s"
  shows "joi_check num (joi_select num S v s) (v k) = Inr (cfg k)"
proof -
  have none: "joi_errors num S v = []" and cfg: "cfg = (\<lambda>k. case map_of S k of None \<Rightarrow> None
      | Some s \<Rightarrow> (case joi_check num (joi_select num S v s) (v k) of Inr x \<Rightarrow> x | Inl _ \<Rightarrow> None))"
    using assms(1) by (auto simp: joi_validate_def split: list.splits)
  from assms(2) have "(k, s) \<in> set S" by (rule map_of_SomeD)
  with none have no_code: "(case joi_check num (joi_select num S v s) (v k) of Inr _ \<Rightarrow> []
      | Inl codes \<Rightarrow> map (\<lambda>c. (k, c, map_of (jr_messages (joi_select num S v s)) c)) codes) = []"
    by (fastforce simp: joi_errors_def Let_def)
  show ?thesis
  proof (cases "joi_check num (joi_select num S v s) (v k)")
    case (Inl codes)
    with no_code have "codes = []" by simp
    with Inl show ?thesis
      by (auto simp: joi_check_def check_text_def check_number_def check_flag_def Let_def
          split: option.splits if_splits sum.splits joi_type.splits)
  next
    case (Inr x)
    then show ?thesis by (simp add: cfg assms(2))
  qed
qed

lemmas joi_rules = joi_def joi_default_def joi_required_def joi_messages_def joi_valid_def joi_allow_def
  joi_pattern_def joi_integer_min_def required_text_def

text \<open>The outcome for each key, by the kind of its rule.\<close>

lemma check_text_Inr: "check_text r s = Inr x \<longleftrightarrow> x = VText s \<and> (s \<in> set (jr_valid r) \<or> s \<in> set (jr_allow r) \<or>
    jr_valid r = [] \<and> s \<noteq> [] \<and> (\<forall>p. jr_pattern r = Some p \<longrightarrow> rx_accepts p s))"
  by (auto simp: check_text_def Let_def split: option.splits)

lemma check_number_Inr: "check_number num r s = Inr x \<longleftrightarrow> (\<exists>q. num s = Inr q \<and> x = VNumber q \<and>
    (jr_integer r \<longrightarrow> of_int \<lfloor>q\<rfloor> = q) \<and> (\<forall>m. jr_min r = Some m \<longrightarrow> m \<le> q))"
  by (auto simp: check_number_def Let_def split: option.splits sum.splits)

lemma check_flag_Inr: "check_flag s = Inr x \<Longrightarrow> \<exists>b. x = VFlag b"
  by (auto simp: check_flag_def split: if_splits)

lemma joi_check_Inr:
  "joi_check num r None = Inr x \<longleftrightarrow> \<not> jr_required r \<and> x = jr_default r"
  "joi_check num r (Some s) = Inr x \<longleftrightarrow> (\<exists>y. x = Some y \<and> (case jr_type r of
     JoiString \<Rightarrow> check_text r s | JoiNumber \<Rightarrow> check_number num r s | JoiBoolean \<Rightarrow> check_flag s) = Inr y)"
  by (auto simp: joi_check_def map_sum_def split: sum.splits)

lemmas joi_outcome = joi_select_def joi_check_Inr check_text_Inr check_number_Inr joi_rules

lemma required_rules:
  "map_of validationSchema ''DB_HOST'' = Some (Always required_text)"
  "map_of validationSchema ''DB_USERNAME'' = Some (Always required_text)"
  "map_of validationSchema ''DB_PASSWORD'' = Some (Always required_text)"
  "map_of validationSchema ''DB_DATABASE'' = Some (Always required_text)"
  "map_of validationSchema ''PRIVATE_KEY'' = Some (Always (joi_messages (key_messages ''PRIVATE_KEY'') required_text))"
  "map_of validationSchema ''PUBLIC_KEY'' = Some (Always (joi_messages (key_messages ''PUBLIC_KEY'') required_text))"
  by (simp_all add: validationSchema_def)

lemma required_key:
  assumes "joi_validate num validationSchema v = Inr cfg"
    and "k \<in> {''DB_HOST'', ''DB_USERNAME'', ''DB_PASSWORD'', ''DB_DATABASE'', ''PRIVATE_KEY'', ''PUBLIC_KEY''}"
  shows "\<exists>s. v k = Some s \<and> s \<noteq> [] \<and> cfg k = Some (VText s)"
proof -
  have "required_text = joi_messages [] required_text" by (simp add: joi_rules)
  with assms(2) required_rules obtain m where
    "map_of validationSchema k = Some (Always (joi_messages m required_text))"
    by (elim insertE emptyE) metis+
  from validated_key [OF assms(1) this] show ?thesis
    by (cases "v k") (auto simp: joi_outcome)
qed

lemma number_key:
  assumes "joi_validate num validationSchema v = Inr cfg"
    and "map_of validationSchema k = Some (Always (joi_default (VNumber d) (joi_integer_min m (joi JoiNumber))))"
    and "of_int \<lfloor>d\<rfloor> = d" "m \<le> d"
  shows "\<exists>n. cfg k = Some (VNumber (of_int n)) \<and> m \<le> of_int n"
proof -
  have "\<exists>q. cfg k = Some (VNumber q) \<and> of_int \<lfloor>q\<rfloor> = q \<and> m \<le> q"
    using validated_key [OF assms(1,2)] assms(3,4)
    by (cases "v k") (auto simp: joi_outcome)
  then show ?thesis by metis
qed

lemma purge_values:
  assumes "joi_validate num validationSchema v = Inr cfg"
  shows "\<exists>b. cfg ''PURGE_ENABLED'' = Some (VFlag b)"
    and "\<exists>n. cfg ''SESSION_GRACE_DAYS'' = Some (VNumber (of_int n)) \<and> 0 \<le> n"
    and "\<exists>n. cfg ''AUDIT_RETENTION_DAYS'' = Some (VNumber (of_int n)) \<and> 1 \<le> n"
    and "\<exists>n. cfg ''PURGE_BATCH_SIZE'' = Some (VNumber (of_int n)) \<and> 1 \<le> n"
proof -
  have "map_of validationSchema ''PURGE_ENABLED'' = Some (Always (joi_default (VFlag True) (joi JoiBoolean)))"
    by (simp add: validationSchema_def)
  from validated_key [OF assms this] show "\<exists>b. cfg ''PURGE_ENABLED'' = Some (VFlag b)"
    by (cases "v ''PURGE_ENABLED''")
       (auto simp: joi_outcome dest: check_flag_Inr)
  show "\<exists>n. cfg ''SESSION_GRACE_DAYS'' = Some (VNumber (of_int n)) \<and> 0 \<le> n"
    using number_key [OF assms, of "''SESSION_GRACE_DAYS''" 1 0] by (simp add: validationSchema_def)
  show "\<exists>n. cfg ''AUDIT_RETENTION_DAYS'' = Some (VNumber (of_int n)) \<and> 1 \<le> n"
    using number_key [OF assms, of "''AUDIT_RETENTION_DAYS''" 90 1] by (simp add: validationSchema_def)
  show "\<exists>n. cfg ''PURGE_BATCH_SIZE'' = Some (VNumber (of_int n)) \<and> 1 \<le> n"
    using number_key [OF assms, of "''PURGE_BATCH_SIZE''" 1000 1] by (simp add: validationSchema_def)
qed

lemma default_rules:
  "map_of validationSchema ''PORT'' = Some (Always (joi_default (VNumber 3000) (joi JoiNumber)))"
  "map_of validationSchema ''DB_PORT'' = Some (Always (joi_default (VNumber 5432) (joi JoiNumber)))"
  "map_of validationSchema ''API_PREFIX'' = Some (Always (joi_default (VText ''api'') (joi JoiString)))"
  "map_of validationSchema ''SESSION_PURGE_CRON'' = Some (Always (joi_default (VText ''0 3 * * *'') (joi JoiString)))"
  "map_of validationSchema ''AUDIT_PURGE_CRON'' = Some (Always (joi_default (VText ''0 4 * * *'') (joi JoiString)))"
  by (simp_all add: validationSchema_def)

lemma port_values:
  assumes "joi_validate num validationSchema v = Inr cfg"
    and "(k, d) \<in> {(''PORT'', 3000), (''DB_PORT'', 5432)}"
  shows "\<exists>x. cfg k = Some (VNumber x) \<and> (case v k of None \<Rightarrow> x = d | Some s \<Rightarrow> num s = Inr x)"
proof -
  have "map_of validationSchema k = Some (Always (joi_default (VNumber d) (joi JoiNumber)))"
    using assms(2) default_rules by (elim insertE emptyE) (simp_all only: prod.inject)
  from validated_key [OF assms(1) this] show ?thesis
    by (cases "v k") (auto simp: joi_outcome)
qed

lemma text_values:
  assumes "joi_validate num validationSchema v = Inr cfg"
    and "(k, d) \<in> {(''API_PREFIX'', ''api''), (''SESSION_PURGE_CRON'', ''0 3 * * *''), (''AUDIT_PURGE_CRON'', ''0 4 * * *'')}"
  shows "\<exists>s. s \<noteq> [] \<and> s = (case v k of None \<Rightarrow> d | Some x \<Rightarrow> x) \<and> cfg k = Some (VText s)"
proof -
  have "map_of validationSchema k = Some (Always (joi_default (VText d) (joi JoiString)))"
    using assms(2) default_rules by (elim insertE emptyE) (simp_all only: prod.inject)
  moreover have "d \<noteq> []" using assms(2) by auto
  ultimately show ?thesis
    using validated_key [OF assms(1), of k]
    by (cases "v k") (auto simp: joi_outcome)
qed

text \<open>The keys that may be left out: as given, or absent.\<close>

lemma optional_rules:
  "map_of validationSchema ''REDIS_PASSWORD'' = Some (Always (joi_allow [[]] (joi JoiString)))"
  "\<exists>m. map_of validationSchema ''DB_SSL'' = Some (When ''NODE_ENV'' ''production''
     (joi_messages m (joi_required (joi_valid [''true''] (joi JoiString)))) (joi_valid [''true'', ''false''] (joi JoiString)))"
  "\<exists>m. map_of validationSchema ''DB_SSL_CA'' = Some (When ''NODE_ENV'' ''production''
     (joi_messages m required_text) (joi JoiString))"
  "\<exists>m. map_of validationSchema ''ALLOWED_ORIGINS'' = Some (When ''NODE_ENV'' ''production''
     (joi_messages m (joi_required (joi_pattern origins_pattern (joi JoiString)))) (joi_allow [[]] (joi JoiString)))"
  by (simp_all add: validationSchema_def) (rule exI, rule refl)+

lemma optional_values:
  assumes "joi_validate num validationSchema v = Inr cfg"
  shows "cfg ''REDIS_PASSWORD'' = map_option VText (v ''REDIS_PASSWORD'')"
    and "cfg ''DB_SSL'' = map_option VText (v ''DB_SSL'') \<and> v ''DB_SSL'' \<in> {None, Some ''true'', Some ''false''}"
    and "cfg ''DB_SSL_CA'' = map_option VText (v ''DB_SSL_CA'') \<and> v ''DB_SSL_CA'' \<noteq> Some []"
    and "cfg ''ALLOWED_ORIGINS'' = map_option VText (v ''ALLOWED_ORIGINS'')"
proof -
  note key = validated_key [OF assms]
  show "cfg ''REDIS_PASSWORD'' = map_option VText (v ''REDIS_PASSWORD'')"
    using key [OF optional_rules(1)] by (cases "v ''REDIS_PASSWORD''") (auto simp: joi_outcome)
  from optional_rules(2) show "cfg ''DB_SSL'' = map_option VText (v ''DB_SSL'') \<and> v ''DB_SSL'' \<in> {None, Some ''true'', Some ''false''}"
    by (elim exE, drule_tac key, cases "v ''DB_SSL''") (auto simp: joi_outcome split: if_splits)
  from optional_rules(3) show "cfg ''DB_SSL_CA'' = map_option VText (v ''DB_SSL_CA'') \<and> v ''DB_SSL_CA'' \<noteq> Some []"
    by (elim exE, drule_tac key, cases "v ''DB_SSL_CA''") (auto simp: joi_outcome split: if_splits)
  from optional_rules(4) show "cfg ''ALLOWED_ORIGINS'' = map_option VText (v ''ALLOWED_ORIGINS'')"
    by (elim exE, drule_tac key, cases "v ''ALLOWED_ORIGINS''") (auto simp: joi_outcome split: if_splits)
qed

text \<open>Keys the schema does not have are dropped (\<open>stripUnknown\<close>).\<close>

lemma validated_dom: "joi_validate num S v = Inr cfg \<Longrightarrow> dom cfg \<subseteq> fst ` set S"
  by (auto simp: joi_validate_def dom_def image_iff split: list.splits option.splits dest!: map_of_SomeD) force

lemma multi_tenant_value:
  assumes "joi_validate num validationSchema v = Inr cfg"
  shows "cfg ''MULTI_TENANT'' = Some (VText ''false'')"
proof -
  have "map_of validationSchema ''MULTI_TENANT'' = Some (Always (joi_messages [(''any.only'', multi_tenant_message)]
      (joi_default (VText ''false'') (joi_valid [''false''] (joi JoiString)))))"
    by (simp add: validationSchema_def)
  from validated_key [OF assms this] show ?thesis
    by (cases "v ''MULTI_TENANT''") (auto simp: joi_outcome)
qed

text \<open>\<open>NODE_ENV\<close> and the keys whose rules depend on it.\<close>

lemma node_env_value:
  assumes "joi_validate num validationSchema v = Inr cfg"
  shows "cfg ''NODE_ENV'' = (case v ''NODE_ENV'' of None \<Rightarrow> Some (VText ''development'') | Some s \<Rightarrow> Some (VText s))"
    and "v ''NODE_ENV'' \<in> {None, Some ''development'', Some ''production'', Some ''test''}"
    and "joi_reference num validationSchema v ''NODE_ENV'' = cfg ''NODE_ENV''"
proof -
  have rule: "map_of validationSchema ''NODE_ENV'' = Some (Always (joi_default (VText ''development'')
      (joi_valid [''development'', ''production'', ''test''] (joi JoiString))))"
    by (simp add: validationSchema_def)
  note check = validated_key [OF assms rule]
  then show "cfg ''NODE_ENV'' = (case v ''NODE_ENV'' of None \<Rightarrow> Some (VText ''development'') | Some s \<Rightarrow> Some (VText s))"
    and "v ''NODE_ENV'' \<in> {None, Some ''development'', Some ''production'', Some ''test''}"
    by (cases "v ''NODE_ENV''";
        auto simp: joi_outcome)+
  from check show "joi_reference num validationSchema v ''NODE_ENV'' = cfg ''NODE_ENV''"
    by (simp add: joi_reference_def rule joi_select_def)
qed

lemma production_key:
  assumes "joi_validate num validationSchema v = Inr cfg" and "v ''NODE_ENV'' = Some ''production''"
    and "map_of validationSchema k = Some (When ''NODE_ENV'' ''production'' r q)"
  shows "joi_check num r (v k) = Inr (cfg k)"
  using validated_key [OF assms(1,3)] node_env_value(1,3) [OF assms(1)] assms(2) by (simp add: joi_select_def)

lemma production_values:
  assumes "joi_validate num validationSchema v = Inr cfg" and "v ''NODE_ENV'' = Some ''production''"
  shows "v ''DB_SSL'' = Some ''true''"
    and "\<exists>ca. v ''DB_SSL_CA'' = Some ca \<and> ca \<noteq> []"
    and "\<exists>x. v ''ALLOWED_ORIGINS'' = Some x \<and> rx_accepts origins_pattern x \<and>
      cfg ''ALLOWED_ORIGINS'' = Some (VText x)"
proof -
  have "\<exists>r q. map_of validationSchema ''DB_SSL'' = Some (When ''NODE_ENV'' ''production'' r q) \<and> jr_type r = JoiString \<and> jr_required r \<and> jr_valid r = [''true''] \<and> jr_allow r = []"
    by (simp add: validationSchema_def joi_rules)
  then show "v ''DB_SSL'' = Some ''true''"
    by (cases "v ''DB_SSL''") (auto simp: joi_outcome dest!: production_key [OF assms])
  have "\<exists>r q. map_of validationSchema ''DB_SSL_CA'' = Some (When ''NODE_ENV'' ''production'' r q) \<and> jr_type r = JoiString \<and> jr_required r \<and> jr_valid r = [] \<and> jr_allow r = []"
    by (simp add: validationSchema_def joi_rules)
  then show "\<exists>ca. v ''DB_SSL_CA'' = Some ca \<and> ca \<noteq> []"
    by (cases "v ''DB_SSL_CA''") (auto simp: joi_outcome dest!: production_key [OF assms])
  have "\<exists>r q. map_of validationSchema ''ALLOWED_ORIGINS'' = Some (When ''NODE_ENV'' ''production'' r q) \<and> jr_type r = JoiString \<and> jr_required r \<and> jr_valid r = [] \<and>
      jr_allow r = [] \<and> jr_pattern r = Some origins_pattern"
    by (simp add: validationSchema_def joi_rules)
  then show "\<exists>x. v ''ALLOWED_ORIGINS'' = Some x \<and> rx_accepts origins_pattern x \<and>
      cfg ''ALLOWED_ORIGINS'' = Some (VText x)"
    by (cases "v ''ALLOWED_ORIGINS''") (auto simp: joi_outcome dest!: production_key [OF assms])
qed

section \<open>The origins\<close>

definition origins_text :: "string \<Rightarrow> bool" where
  "origins_text s \<longleftrightarrow> (\<exists>scheme \<in> {''http://'', ''https://''}. \<exists>rest. s = scheme @ rest \<and> rest \<noteq> []) \<and>
     \<not> (\<exists>c \<in> set s. line_terminator c)"

lemma in_literal_then: "s \<in> words (Then (literal w) q) \<longleftrightarrow> (\<exists>t \<in> words q. s = w @ t)"
  by (auto simp: words.simps(4))

lemma in_optional_then:
  "s \<in> words (Then (Or (literal w) Empty) q) \<longleftrightarrow> s \<in> words q \<or> (\<exists>t \<in> words q. s = w @ t)"
proof -
  have "s \<in> words (Then (Or (literal w) Empty) q) \<longleftrightarrow> (\<exists>a b. s = a @ b \<and> (a = w \<or> a = []) \<and> b \<in> words q)"
    by (auto simp: words.simps(4))
  then show ?thesis by (metis append_Nil)
qed

lemma in_url:
  "s \<in> words url_pattern \<longleftrightarrow> (\<exists>scheme \<in> {''http://'', ''https://''}. \<exists>rest. s = scheme @ rest \<and>
     rest \<noteq> [] \<and> (\<forall>c \<in> set rest. any_char c))"
proof
  assume "s \<in> words url_pattern"
  then obtain t where s: "s = ''http'' @ t"
      and "t \<in> words (Then (Or (literal ''s'') Empty) (Then (literal ''://'') (one_or_more (One any_char))))"
    unfolding url_pattern_def in_literal_then by blast
  then obtain q where t: "t = q \<or> t = ''s'' @ q" and "q \<in> words (Then (literal ''://'') (one_or_more (One any_char)))"
    unfolding in_optional_then by blast
  then obtain rest where "q = ''://'' @ rest" "rest \<noteq> []" "\<forall>c \<in> set rest. any_char c"
    unfolding in_literal_then words_one_or_more by blast
  with s t show "\<exists>scheme \<in> {''http://'', ''https://''}. \<exists>rest. s = scheme @ rest \<and>
     rest \<noteq> [] \<and> (\<forall>c \<in> set rest. any_char c)" by auto
next
  assume "\<exists>scheme \<in> {''http://'', ''https://''}. \<exists>rest. s = scheme @ rest \<and> rest \<noteq> [] \<and> (\<forall>c \<in> set rest. any_char c)"
  then obtain rest where r: "s = ''http'' @ ''://'' @ rest \<or> s = ''http'' @ ''s'' @ ''://'' @ rest"
      "rest \<noteq> []" "\<forall>c \<in> set rest. any_char c"
    by auto
  from r(2,3) have "''://'' @ rest \<in> words (Then (literal ''://'') (one_or_more (One any_char)))"
    unfolding in_literal_then words_one_or_more by blast
  note colon = this
  have "''://'' @ rest \<in> words (Then (Or (literal ''s'') Empty) (Then (literal ''://'') (one_or_more (One any_char))))"
    unfolding in_optional_then by (rule disjI1) (rule colon)
  moreover have "''s'' @ ''://'' @ rest \<in> words (Then (Or (literal ''s'') Empty) (Then (literal ''://'') (one_or_more (One any_char))))"
    unfolding in_optional_then by (rule disjI2, rule bexI, rule refl, rule colon)
  ultimately show "s \<in> words url_pattern"
    unfolding url_pattern_def in_literal_then [of _ "''http''"] using r(1) by (elim disjE) (rule bexI, assumption+)+
qed

lemma words_url: "words url_pattern = {s. origins_text s}"
proof -
  have "\<forall>c \<in> set ''http://''. any_char c" "\<forall>c \<in> set ''https://''. any_char c"
    by (simp_all add: any_char_def line_terminator_def)
  then show ?thesis unfolding set_eq_iff in_url origins_text_def any_char_def by auto
qed

lemma origins_text_append: "origins_text a \<Longrightarrow> \<not> (\<exists>c \<in> set b. line_terminator c) \<Longrightarrow> origins_text (a @ b)"
  unfolding origins_text_def by fastforce

text \<open>The group after the comma adds nothing: the dot before it already takes commas.\<close>

lemma origins_pattern_accepts: "rx_accepts origins_pattern s \<longleftrightarrow> origins_text s"
proof
  assume "rx_accepts origins_pattern s"
  then obtain a ss where s: "s = a @ concat ss" "origins_text a"
      and ss: "set ss \<subseteq> words (Then (literal '','') url_pattern)"
    by (auto simp: rx_accepts_words origins_pattern_def words.simps(4,6) words_url)
  have "\<not> (\<exists>c \<in> set (concat ss). line_terminator c)"
    using ss by (fastforce simp: words.simps(4) words_url origins_text_def line_terminator_def)
  with s show "origins_text s" by (simp add: origins_text_append)
next
  assume "origins_text s"
  then have "s = s @ concat []" "s \<in> words url_pattern" by (simp_all add: words_url)
  then show "rx_accepts origins_pattern s"
    unfolding rx_accepts_words origins_pattern_def words.simps(4,6)
    by (intro CollectI exI [of _ s] exI [of _ "[]"] conjI) (auto intro: exI [of _ "[]"])
qed

lemma origins_after_the_first_unchecked:
  "rx_accepts origins_pattern ''https://a.example,null'' \<and>
   split_commas ''https://a.example,null'' = [''https://a.example'', ''null'']"
  by (simp add: origins_pattern_accepts origins_text_def line_terminator_def)

section \<open>What a started process may count on\<close>

text \<open>
  C38. Validation gives every key of the schema the type the schema means, within the range the schema
  sets, and no other key: \<open>NODE_ENV\<close> is one of three; \<open>PORT\<close> and \<open>DB_PORT\<close> are numbers (of any size);
  the prefix and the crons are texts that are not empty, and so are the database's names, its password and the keys,
  which must be there; \<open>DB_SSL\<close>, its authority, the origins and Redis' password are texts or absent; there
  are no tenants; and the settings of the purge are a flag and whole numbers with which both jobs end on every table.
\<close>

theorem validated_values_typed:
  assumes "joi_validate num validationSchema v = Inr cfg"
  shows "dom cfg \<subseteq> fst ` set validationSchema \<and>
    (\<exists>s \<in> {''development'', ''production'', ''test''}. cfg ''NODE_ENV'' = Some (VText s)) \<and>
    (\<forall>(k, d) \<in> {(''PORT'', 3000), (''DB_PORT'', 5432)}.
       \<exists>x. cfg k = Some (VNumber x) \<and> (case v k of None \<Rightarrow> x = d | Some s \<Rightarrow> num s = Inr x)) \<and>
    (\<forall>(k, d) \<in> {(''API_PREFIX'', ''api''), (''SESSION_PURGE_CRON'', ''0 3 * * *''), (''AUDIT_PURGE_CRON'', ''0 4 * * *'')}.
       \<exists>s. s \<noteq> [] \<and> s = (case v k of None \<Rightarrow> d | Some x \<Rightarrow> x) \<and> cfg k = Some (VText s)) \<and>
    (\<forall>k \<in> {''DB_HOST'', ''DB_USERNAME'', ''DB_PASSWORD'', ''DB_DATABASE'', ''PRIVATE_KEY'', ''PUBLIC_KEY''}.
       \<exists>s. s \<noteq> [] \<and> v k = Some s \<and> cfg k = Some (VText s)) \<and>
    cfg ''DB_SSL'' = map_option VText (v ''DB_SSL'') \<and> v ''DB_SSL'' \<in> {None, Some ''true'', Some ''false''} \<and>
    cfg ''DB_SSL_CA'' = map_option VText (v ''DB_SSL_CA'') \<and> v ''DB_SSL_CA'' \<noteq> Some [] \<and>
    cfg ''ALLOWED_ORIGINS'' = map_option VText (v ''ALLOWED_ORIGINS'') \<and>
    cfg ''REDIS_PASSWORD'' = map_option VText (v ''REDIS_PASSWORD'') \<and>
    cfg ''MULTI_TENANT'' = Some (VText ''false'') \<and>
    (let p = purge_onModuleInit cfg in
       cfg ''PURGE_ENABLED'' = Some (VFlag (pc_purgeEnabled p)) \<and>
       cfg ''SESSION_GRACE_DAYS'' = Some (VNumber (of_int (pc_sessionGraceDays p))) \<and> 0 \<le> pc_sessionGraceDays p \<and>
       cfg ''AUDIT_RETENTION_DAYS'' = Some (VNumber (of_int (pc_auditRetentionDays p))) \<and> 1 \<le> pc_auditRetentionDays p \<and>
       cfg ''PURGE_BATCH_SIZE'' = Some (VNumber (of_nat (pc_batchSize p))) \<and> 1 \<le> pc_batchSize p \<and>
       (session_ids_distinct w \<longrightarrow> runSessionPurge p w \<noteq> None) \<and>
       (audit_ids_distinct w \<longrightarrow> runAuditPurge p w \<noteq> None))"
proof -
  let ?p = "purge_onModuleInit cfg"
  obtain b g r n where p: "cfg ''PURGE_ENABLED'' = Some (VFlag b)"
      "cfg ''SESSION_GRACE_DAYS'' = Some (VNumber (of_int g))" "0 \<le> g"
      "cfg ''AUDIT_RETENTION_DAYS'' = Some (VNumber (of_int r))" "1 \<le> r"
      "cfg ''PURGE_BATCH_SIZE'' = Some (VNumber (of_int n))" "1 \<le> n"
    using purge_values [OF assms] by blast
  then have init: "?p = \<lparr>pc_purgeEnabled = b, pc_sessionGraceDays = g, pc_auditRetentionDays = r, pc_batchSize = nat n\<rparr>"
    by (simp add: purge_onModuleInit_def config_flag_def config_int_def)
  obtain k where k: "nat n = Suc k" using p(7) by (cases "nat n") simp_all
  have ends: "session_ids_distinct w \<longrightarrow> runSessionPurge ?p w \<noteq> None" "audit_ids_distinct w \<longrightarrow> runAuditPurge ?p w \<noteq> None"
    using session_purge.loop_ends [of w "daysAgo g w" k 0] audit_purge.loop_ends [of w "daysAgo r w" k 0]
    by (auto simp: init k runSessionPurge_def runAuditPurge_def)
  have "\<exists>s \<in> {''development'', ''production'', ''test''}. cfg ''NODE_ENV'' = Some (VText s)"
    using node_env_value(1,2) [OF assms] by auto
  moreover have "cfg ''MULTI_TENANT'' = Some (VText ''false'')" by (rule multi_tenant_value [OF assms])
  moreover have "\<forall>k \<in> {''DB_HOST'', ''DB_USERNAME'', ''DB_PASSWORD'', ''DB_DATABASE'', ''PRIVATE_KEY'', ''PUBLIC_KEY''}.
       \<exists>s. s \<noteq> [] \<and> v k = Some s \<and> cfg k = Some (VText s)"
    using required_key [OF assms] by blast
  moreover have "\<forall>(k, d) \<in> {(''PORT'', 3000), (''DB_PORT'', 5432)}.
       \<exists>x. cfg k = Some (VNumber x) \<and> (case v k of None \<Rightarrow> x = d | Some s \<Rightarrow> num s = Inr x)"
    using port_values [OF assms] by blast
  moreover have "\<forall>(k, d) \<in> {(''API_PREFIX'', ''api''), (''SESSION_PURGE_CRON'', ''0 3 * * *''), (''AUDIT_PURGE_CRON'', ''0 4 * * *'')}.
       \<exists>s. s \<noteq> [] \<and> s = (case v k of None \<Rightarrow> d | Some x \<Rightarrow> x) \<and> cfg k = Some (VText s)"
    using text_values [OF assms] by blast
  moreover have "let p = ?p in cfg ''PURGE_ENABLED'' = Some (VFlag (pc_purgeEnabled p)) \<and>
       cfg ''SESSION_GRACE_DAYS'' = Some (VNumber (of_int (pc_sessionGraceDays p))) \<and> 0 \<le> pc_sessionGraceDays p \<and>
       cfg ''AUDIT_RETENTION_DAYS'' = Some (VNumber (of_int (pc_auditRetentionDays p))) \<and> 1 \<le> pc_auditRetentionDays p \<and>
       cfg ''PURGE_BATCH_SIZE'' = Some (VNumber (of_nat (pc_batchSize p))) \<and> 1 \<le> pc_batchSize p \<and>
       (session_ids_distinct w \<longrightarrow> runSessionPurge p w \<noteq> None) \<and> (audit_ids_distinct w \<longrightarrow> runAuditPurge p w \<noteq> None)"
    using p ends unfolding Let_def by (simp add: init)
  ultimately show ?thesis
    using validated_dom [OF assms] optional_values [OF assms] by (intro conjI) (assumption | blast)+
qed

text \<open>
  C37. A process that starts with \<open>NODE_ENV=production\<close> talks to its database over TLS with a
  given authority and refuses one that does not verify, never alters the schema by itself, has a pair of keys that fit, is
  single-tenant, and allows the origins of \<open>ALLOWED_ORIGINS\<close>, a text that begins like a URL. So an
  environment without one of these does not start. What \<open>ConfigModule\<close> adds to the environment
  does not replace what is there.
\<close>

theorem production_start_is_guarded:
  assumes "bootstrap K num assign v = Inr sv" and "v ''NODE_ENV'' = Some ''production''"
    and "\<And>cfg k. v k \<noteq> None \<Longrightarrow> assign v cfg k = v k"
  shows "let db = ac_database (sv_config sv) in
    (\<exists>ca. ds_ssl db = Some \<lparr>ssl_ca = Some ca, ssl_rejectUnauthorized = True\<rparr> \<and> ca \<noteq> [] \<and> v ''DB_SSL_CA'' = Some ca) \<and> \<not> ds_synchronize db \<and>
    jo_privateKey (sv_jwt sv) \<noteq> [] \<and> jo_publicKey (sv_jwt sv) \<noteq> [] \<and>
    assertValidJwtKeyPair K (jo_privateKey (sv_jwt sv)) (jo_publicKey (sv_jwt sv)) = Inr () \<and>
    v ''MULTI_TENANT'' \<noteq> Some ''true'' \<and>
    (\<exists>x. v ''ALLOWED_ORIGINS'' = Some x \<and> sv_origins sv = split_commas x \<and> origins_text x)"
proof -
  from assms(1) obtain cfg c j where started: "joi_validate num validationSchema v = Inr cfg"
      "configuration (assign v cfg) = Inr c" "jwt_module_options K c = Inr j"
      "v ''MULTI_TENANT'' \<noteq> Some ''true''"
    and sv: "sv_config sv = c" "sv_jwt sv = j" "sv_origins sv = split_commas (config_text cfg ''ALLOWED_ORIGINS'' [])"
    by (auto simp: bootstrap_def assertSingleTenant_def split: sum.splits if_splits)
  note prod = production_values [OF started(1) assms(2)]
  from prod(2) obtain ca where ca: "v ''DB_SSL_CA'' = Some ca" "ca \<noteq> []" by blast
  have env: "assign v cfg ''NODE_ENV'' = Some ''production''" "assign v cfg ''DB_SSL'' = Some ''true''"
      "assign v cfg ''DB_SSL_CA'' = Some ca"
    using assms(2,3) prod(1) ca by simp_all
  have "ds_ssl (ac_database c) = Some \<lparr>ssl_ca = Some ca, ssl_rejectUnauthorized = True\<rparr> \<and> \<not> ds_synchronize (ac_database c)"
    using started(2) env ca by (auto simp: configuration_def buildDataSourceOptions_def split: if_splits)
  moreover have "jo_privateKey j \<noteq> [] \<and> jo_publicKey j \<noteq> [] \<and>
      assertValidJwtKeyPair K (jo_privateKey j) (jo_publicKey j) = Inr ()"
    using started(3) by (auto simp: jwt_module_options_def split: if_splits sum.splits)
  moreover have "\<exists>x. v ''ALLOWED_ORIGINS'' = Some x \<and> sv_origins sv = split_commas x \<and> origins_text x"
    using prod(3) by (auto simp: sv config_text_def origins_pattern_accepts)
  ultimately show ?thesis using ca started(4) unfolding Let_def sv by blast
qed

section \<open>A production environment\<close>

definition demo_number :: joi_number where
  "demo_number s = (case parse_int s of None \<Rightarrow> Inl ''number.base'' | Some n \<Rightarrow> Inr (of_int n))"

definition demo_vars :: vars where
  "demo_vars = [''NODE_ENV'' \<mapsto> ''production'', ''DB_HOST'' \<mapsto> ''db'', ''DB_USERNAME'' \<mapsto> ''app'',
     ''DB_PASSWORD'' \<mapsto> ''pw'', ''DB_DATABASE'' \<mapsto> ''rbac'', ''PRIVATE_KEY'' \<mapsto> ''k1'', ''PUBLIC_KEY'' \<mapsto> ''k1'',
     ''DB_SSL'' \<mapsto> ''true'', ''DB_SSL_CA'' \<mapsto> ''ca.pem'', ''PURGE_BATCH_SIZE'' \<mapsto> ''50'',
     ''ALLOWED_ORIGINS'' \<mapsto> ''https://a.example,https://b.example'']"

definition demo_keys :: "string key_functions" where
  "demo_keys = \<lparr>kf_createPrivateKey = Inr, kf_createPublicKey = Inr, kf_derivedPublic = id\<rparr>"

definition demo_assign :: "vars \<Rightarrow> (string \<rightharpoonup> joi_value) \<Rightarrow> vars" where
  "demo_assign v cfg = (\<lambda>k. case v k of Some s \<Rightarrow> Some s
     | None \<Rightarrow> (case cfg k of Some (VText s) \<Rightarrow> Some s | _ \<Rightarrow> None))"

lemma demo_starts: "\<not> isl (bootstrap demo_keys demo_number demo_assign demo_vars)"
  by code_simp

lemma demo_validates: "\<not> isl (joi_validate demo_number validationSchema demo_vars)"
  by code_simp

lemma demo_batch:
  "pc_batchSize (purge_onModuleInit (projr (joi_validate demo_number validationSchema demo_vars))) = 50"
  by code_simp

theorem validated_values_typed_witness:
  "\<exists>cfg. joi_validate demo_number validationSchema demo_vars = Inr cfg \<and>
     cfg ''PURGE_BATCH_SIZE'' = Some (VNumber 50) \<and> cfg ''MULTI_TENANT'' = Some (VText ''false'') \<and>
     (\<exists>w'. runSessionPurge (purge_onModuleInit cfg) demo_world = Some w')"
proof -
  obtain cfg where cfg: "joi_validate demo_number validationSchema demo_vars = Inr cfg"
    using demo_validates by (cases "joi_validate demo_number validationSchema demo_vars") auto
  moreover have "session_ids_distinct demo_world"
    by (simp add: session_ids_distinct_def demo_world_def demo_db_def)
  moreover have "pc_batchSize (purge_onModuleInit cfg) = 50" using demo_batch cfg by simp
  ultimately show ?thesis
    using validated_values_typed [OF cfg, of demo_world] unfolding Let_def by auto
qed

theorem production_start_is_guarded_witness:
  "\<exists>sv. bootstrap demo_keys demo_number demo_assign demo_vars = Inr sv \<and>
     ds_ssl (ac_database (sv_config sv)) = Some \<lparr>ssl_ca = Some ''ca.pem'', ssl_rejectUnauthorized = True\<rparr> \<and>
     sv_origins sv = [''https://a.example'', ''https://b.example'']"
proof -
  obtain sv where sv: "bootstrap demo_keys demo_number demo_assign demo_vars = Inr sv"
    using demo_starts by (cases "bootstrap demo_keys demo_number demo_assign demo_vars") auto
  have "demo_vars ''NODE_ENV'' = Some ''production''" "demo_vars ''DB_SSL_CA'' = Some ''ca.pem''"
    "demo_vars ''ALLOWED_ORIGINS'' = Some ''https://a.example,https://b.example''"
    by (simp_all add: demo_vars_def)
  moreover have "demo_assign demo_vars cfg k = demo_vars k" if "demo_vars k \<noteq> None" for cfg k
    using that by (auto simp: demo_assign_def)
  ultimately show ?thesis
    using sv production_start_is_guarded [OF sv] unfolding Let_def by auto
qed

end
