(* ===== verification/Graceful_Shutdown.thy ===== *)
theory Graceful_Shutdown
  imports Prelude
begin

text \<open>
  \<open>graceful-shutdown/graceful-shutdown.service.ts\<close>: the two hooks of a shutdown, split where they
  wait (for the audit queue and for the database), and the timer that forces the process to exit.
  Closing may take any time and may fail; the event loop is taken to be free, so a timer that is
  due fires before more time passes.
\<close>

section \<open>The service\<close>

datatype phase = Serving | Signalled | ClosingQueue | ClosingDb | Finished

text \<open>
  \<open>sd_queue\<close> is absent without Redis, otherwise whether the queue is open; \<open>sd_db\<close> is
  \<open>isInitialized\<close>; \<open>sd_timer\<close> is when \<open>forceExitTimer\<close> is due; \<open>sd_log\<close> holds the messages.
  \<open>sd_signal\<close> remembers the time of the signal, for the statements.
\<close>

record shutdown =
  sd_phase :: phase
  sd_now :: int
  sd_queue :: "bool option"
  sd_db :: bool
  sd_timer :: "int option"
  sd_exit :: "int option"
  sd_log :: "string list"
  sd_signal :: "int option"

definition SHUTDOWN_TIMEOUT_MS :: int where
  "SHUTDOWN_TIMEOUT_MS = 10000"

definition log_line :: "string \<Rightarrow> shutdown \<Rightarrow> shutdown" where
  "log_line m s = s\<lparr>sd_log := sd_log s @ [m]\<rparr>"

definition beforeApplicationShutdown :: "string option \<Rightarrow> shutdown \<Rightarrow> shutdown" where
  "beforeApplicationShutdown signal s =
     (log_line (''Shutdown signal received: '' @ (case signal of None \<Rightarrow> ''unknown'' | Some x \<Rightarrow> x)) s)
       \<lparr>sd_timer := Some (sd_now s + SHUTDOWN_TIMEOUT_MS), sd_phase := Signalled, sd_signal := Some (sd_now s)\<rparr>"

definition force_exit :: "shutdown \<Rightarrow> shutdown" where
  "force_exit s = (log_line ''Shutdown timeout (10000ms) - forcing exit'' s)\<lparr>sd_timer := None, sd_exit := Some 1\<rparr>"

text \<open>\<open>finally\<close>, and \<open>catch\<close> before it.\<close>

definition shutdown_complete :: "shutdown \<Rightarrow> shutdown" where
  "shutdown_complete s = log_line ''Graceful shutdown complete'' (s\<lparr>sd_timer := None, sd_phase := Finished\<rparr>)"

definition closing_failed :: "shutdown \<Rightarrow> shutdown" where
  "closing_failed s = shutdown_complete (log_line ''Error closing database connection'' s)"

text \<open>The rest of \<open>onApplicationShutdown\<close> from each point where it goes on.\<close>

definition close_database :: "shutdown \<Rightarrow> shutdown" where
  "close_database s = (if sd_db s then s\<lparr>sd_phase := ClosingDb\<rparr> else shutdown_complete s)"

definition onApplicationShutdown :: "shutdown \<Rightarrow> shutdown" where
  "onApplicationShutdown s = (if sd_queue s \<noteq> None then s\<lparr>sd_phase := ClosingQueue\<rparr> else close_database s)"

definition queue_answers :: "bool \<Rightarrow> shutdown \<Rightarrow> shutdown" where
  "queue_answers ok s =
     (if ok then close_database (log_line ''Audit log queue closed'' (s\<lparr>sd_queue := Some False\<rparr>))
      else closing_failed s)"

definition database_answers :: "bool \<Rightarrow> shutdown \<Rightarrow> shutdown" where
  "database_answers ok s =
     (if ok then shutdown_complete (log_line ''Database connection closed'' (s\<lparr>sd_db := False\<rparr>))
      else closing_failed s)"

section \<open>Runs\<close>

inductive shutdown_step :: "shutdown \<Rightarrow> shutdown \<Rightarrow> bool" where
  signal_arrives: "sd_exit s = None \<Longrightarrow> sd_phase s = Serving \<Longrightarrow>
     shutdown_step s (beforeApplicationShutdown signal s)"
| server_closed: "sd_exit s = None \<Longrightarrow> sd_phase s = Signalled \<Longrightarrow>
     shutdown_step s (onApplicationShutdown s)"
| queue_closed: "sd_exit s = None \<Longrightarrow> sd_phase s = ClosingQueue \<Longrightarrow>
     shutdown_step s (queue_answers ok s)"
| database_closed: "sd_exit s = None \<Longrightarrow> sd_phase s = ClosingDb \<Longrightarrow>
     shutdown_step s (database_answers ok s)"
| timer_fires: "sd_exit s = None \<Longrightarrow> sd_timer s = Some t \<Longrightarrow> t \<le> sd_now s \<Longrightarrow>
     shutdown_step s (force_exit s)"
| time_passes: "sd_exit s = None \<Longrightarrow> 0 < d \<Longrightarrow> (\<And>t. sd_timer s = Some t \<Longrightarrow> sd_now s + d \<le> t) \<Longrightarrow>
     shutdown_step s (s\<lparr>sd_now := sd_now s + d\<rparr>)"

inductive shutdown_reachable :: "shutdown \<Rightarrow> bool" where
  serving: "shutdown_reachable
     \<lparr>sd_phase = Serving, sd_now = t, sd_queue = (if q then Some True else None), sd_db = d,
      sd_timer = None, sd_exit = None, sd_log = [], sd_signal = None\<rparr>"
| goes_on: "shutdown_reachable s \<Longrightarrow> shutdown_step s s' \<Longrightarrow> shutdown_reachable s'"

lemmas shutdown_defs = beforeApplicationShutdown_def force_exit_def shutdown_complete_def closing_failed_def
  close_database_def onApplicationShutdown_def queue_answers_def database_answers_def log_line_def
  SHUTDOWN_TIMEOUT_MS_def

section \<open>The invariant\<close>

definition shutdown_ok :: "shutdown \<Rightarrow> bool" where
  "shutdown_ok s \<longleftrightarrow>
     (case sd_signal s of
        None \<Rightarrow> sd_phase s = Serving \<and> sd_timer s = None \<and> sd_exit s = None
      | Some t0 \<Rightarrow> sd_phase s \<noteq> Serving \<and>
          (sd_exit s = None \<and> sd_phase s \<noteq> Finished \<longrightarrow>
             sd_timer s = Some (t0 + 10000) \<and> sd_now s \<le> t0 + 10000)) \<and>
     (sd_exit s = None \<or> sd_exit s = Some 1 \<and> sd_phase s \<noteq> Finished) \<and>
     (sd_phase s = Finished \<longrightarrow> sd_timer s = None) \<and>
     (sd_phase s = ClosingDb \<longrightarrow> sd_queue s \<noteq> Some True) \<and>
     (sd_phase s = Finished \<and> ''Error closing database connection'' \<notin> set (sd_log s) \<longrightarrow>
        sd_queue s \<noteq> Some True \<and> \<not> sd_db s)"

lemma shutdown_step_ok: "shutdown_step s s' \<Longrightarrow> shutdown_ok s \<Longrightarrow> shutdown_ok s'"
  by (induction rule: shutdown_step.induct)
     (auto simp: shutdown_ok_def shutdown_defs split: option.splits if_splits)

lemma reachable_shutdown_ok: "shutdown_reachable s \<Longrightarrow> shutdown_ok s"
proof (induction rule: shutdown_reachable.induct)
  case (goes_on s s')
  then show ?case by (blast intro: shutdown_step_ok)
qed (simp add: shutdown_ok_def)

section \<open>What a shutdown guarantees\<close>

text \<open>
  C39. Ten seconds after the signal the shutdown is over: it has completed, or the process has
  been forced to exit; until then it can always go on. A completed shutdown is not forced to exit
  any more, and one that reported no error has closed the queue and the database.
\<close>

theorem shutdown_ends_in_time:
  assumes "shutdown_reachable s"
  shows "(\<forall>t. sd_signal s = Some t \<longrightarrow> sd_now s \<le> t + 10 * 1000 \<or> sd_exit s = Some 1 \<or> sd_phase s = Finished) \<and>
    (sd_exit s = None \<and> sd_phase s \<notin> {Serving, Finished} \<longrightarrow>
       (\<exists>s'. shutdown_step s s' \<and> sd_phase s' \<noteq> sd_phase s)) \<and>
    (sd_phase s = Finished \<longrightarrow> sd_exit s = None \<and> \<not> (\<exists>s'. shutdown_step s s' \<and> sd_exit s' \<noteq> None)) \<and>
    (sd_phase s = Finished \<and> ''Error closing database connection'' \<notin> set (sd_log s) \<longrightarrow>
       sd_queue s \<noteq> Some True \<and> \<not> sd_db s)"
proof (intro conjI)
  note ok = reachable_shutdown_ok [OF assms]
  show "\<forall>t. sd_signal s = Some t \<longrightarrow> sd_now s \<le> t + 10 * 1000 \<or> sd_exit s = Some 1 \<or> sd_phase s = Finished"
    using ok by (auto simp: shutdown_ok_def)
  show "sd_exit s = None \<and> sd_phase s \<notin> {Serving, Finished} \<longrightarrow>
      (\<exists>s'. shutdown_step s s' \<and> sd_phase s' \<noteq> sd_phase s)"
  proof (intro impI; elim conjE)
    assume s: "sd_exit s = None" "sd_phase s \<notin> {Serving, Finished}"
    from s(2) consider "sd_phase s = Signalled" | "sd_phase s = ClosingQueue" | "sd_phase s = ClosingDb"
      by (cases "sd_phase s") auto
    then show "\<exists>s'. shutdown_step s s' \<and> sd_phase s' \<noteq> sd_phase s"
    proof cases
      case 1
      moreover have "sd_phase (onApplicationShutdown s) \<noteq> Signalled"
        by (cases "sd_queue s"; cases "sd_db s") (simp_all add: shutdown_defs)
      ultimately show ?thesis using server_closed [OF s(1)] by metis
    next
      case 2
      with queue_closed [OF s(1), of False] show ?thesis by (intro exI conjI) (auto simp: shutdown_defs)
    next
      case 3
      with database_closed [OF s(1), of False] show ?thesis by (intro exI conjI) (auto simp: shutdown_defs)
    qed
  qed
  show "sd_phase s = Finished \<longrightarrow> sd_exit s = None \<and> \<not> (\<exists>s'. shutdown_step s s' \<and> sd_exit s' \<noteq> None)"
    using ok by (auto simp: shutdown_ok_def elim!: shutdown_step.cases)
  show "sd_phase s = Finished \<and> ''Error closing database connection'' \<notin> set (sd_log s) \<longrightarrow>
      sd_queue s \<noteq> Some True \<and> \<not> sd_db s"
    using ok by (auto simp: shutdown_ok_def)
qed

text \<open>A queue that does not close leaves the database connection open.\<close>

lemma queue_failure_leaves_database_open:
  "sd_phase (queue_answers False s) = Finished \<and> sd_db (queue_answers False s) = sd_db s"
  by (simp add: shutdown_defs)

definition demo_serving :: shutdown where
  "demo_serving = \<lparr>sd_phase = Serving, sd_now = 0, sd_queue = Some True, sd_db = True,
     sd_timer = None, sd_exit = None, sd_log = [], sd_signal = None\<rparr>"

definition demo_stopped :: shutdown where
  "demo_stopped = database_answers True (queue_answers True (onApplicationShutdown
     (beforeApplicationShutdown (Some ''SIGTERM'') demo_serving)))"

lemma demo_stopped_reachable: "shutdown_reachable demo_stopped"
proof -
  have "shutdown_reachable demo_serving"
    using serving [of 0 True True] by (simp add: demo_serving_def)
  then have "shutdown_reachable (beforeApplicationShutdown (Some ''SIGTERM'') demo_serving)"
    by (rule goes_on) (rule signal_arrives; simp add: demo_serving_def)
  then have "shutdown_reachable (onApplicationShutdown (beforeApplicationShutdown (Some ''SIGTERM'') demo_serving))"
    by (rule goes_on) (rule server_closed; simp add: shutdown_defs demo_serving_def)
  then have "shutdown_reachable (queue_answers True (onApplicationShutdown
      (beforeApplicationShutdown (Some ''SIGTERM'') demo_serving)))"
    by (rule goes_on) (rule queue_closed; simp add: shutdown_defs demo_serving_def)
  then show ?thesis
    unfolding demo_stopped_def by (rule goes_on) (rule database_closed; simp add: shutdown_defs demo_serving_def)
qed

theorem shutdown_ends_in_time_witness:
  "sd_phase demo_stopped = Finished \<and> sd_queue demo_stopped \<noteq> Some True \<and> \<not> sd_db demo_stopped"
proof -
  have "sd_phase demo_stopped = Finished"
      "''Error closing database connection'' \<notin> set (sd_log demo_stopped)"
    by (simp_all add: demo_stopped_def shutdown_defs demo_serving_def)
  with shutdown_ends_in_time [OF demo_stopped_reachable] show ?thesis by blast
qed

end
