(* ===== verification/Spec2Isabelle.thy ===== *)
theory Spec2Isabelle
  imports Login_Properties Session_Alone Session_Concurrent_Properties Login_Concurrent_Properties Throttling_Properties Responses Logging Rbac_Properties Purge_Properties Pagination_Properties Endpoint_Properties Rbac_Concurrent_Properties Migration_Properties Seed_Properties Configuration_Properties Graceful_Shutdown
begin

text \<open>
  A model of the secure NestJS RBAC template (the TypeScript under \<open>src/src/\<close>) and the
  theorems that make it correct.

  The program. A process reads its configuration from the environment, builds its modules, and
  serves until a signal shuts it down. An HTTP request passes \<open>CorrelationIdMiddleware\<close> (which
  opens the request's context), the guards \<open>JwtAuthGuard\<close> (\<open>JwtStrategy.validate\<close>) and
  \<open>PermissionGuard\<close> (\<open>RbacService.checkPermissions\<close>), the audit interceptor and the
  validation pipe, and reaches a controller that calls one service: \<open>AuthService\<close> (login, refresh
  with rotation, register, changePassword, logout, logoutAll, listSessions), \<open>UserAdminService\<close>
  (activation), and the administration services of roles, features and permissions. They share the
  database, the cache (cache-manager), the audit log with its queue, and the epoch counter in Redis
  that invalidates cached permissions. Two cron jobs purge old sessions and audit logs. Fourteen
  migrations make the database, a seed fills it.

  Theories, from the bottom.
  \<^item> \<open>Prelude\<close>: result and state (\<open>act\<close>), nullish values, the operations on the rows of
    a table and their lemmas.
  \<^item> \<open>Entities\<close>: one record per TypeORM entity (\<open>modules/*/entities\<close>) and the database.
  \<^item> \<open>Cache_Store\<close>: cache-manager's store with expiry, over the locale \<open>ttl_store\<close>.
  \<^item> \<open>World\<close>: the parameters \<open>env\<close>, the faults, the state \<open>world\<close> and its primitive
    operations (\<open>transaction\<close> restores the tables on an error).
  \<^item> \<open>Request_Context\<close>, \<open>Audit_Log\<close>, \<open>Pg_Errors\<close>: \<open>logger/request-context.ts\<close> with the
    middleware and the login throttle key; \<open>modules/audit\<close>; the translation of constraint errors and
    \<open>rbac-crud.util.ts\<close>.
  \<^item> \<open>Users\<close>, \<open>Auth_Service\<close>, \<open>Jwt_Strategy\<close>, \<open>User_Admin\<close>, \<open>Purge\<close>: the services of the
    same names, operation by operation. \<open>Session_Port\<close> is the interface
    \<open>SessionRevocationPort\<close> as a locale, \<open>Auth_Revocation\<close> its implementation.
  \<^item> \<open>Auth_Machine\<close>, \<open>Auth_Invariants\<close>: every handler as a step of one machine
    (\<open>auth_step\<close>, \<open>auth_run\<close>), its reduction to five kinds of change (\<open>touch\<close>), and
    the invariants of all runs (locale \<open>session_invariant\<close>).
  \<^item> \<open>Auth_Properties\<close>, \<open>Login_Properties\<close>, \<open>Purge_Properties\<close>: what the handlers and the purge
    jobs guarantee. \<open>Auth_Refinement\<close>: the contract of the sessions, a vault of refresh tokens with
    four operations, and that every handler implements it.
  \<^item> \<open>Session_Concurrent\<close>, \<open>Session_Concurrent_Properties\<close>: the transaction of a refresh and
    \<open>revokeAllUserSessions\<close> split at their statements, in any number of overlapping requests, under the
    READ COMMITTED isolation of PostgreSQL, and what of the sessions' contract holds then.
    \<open>Session_Alone\<close>: the statements in sequence amount to the atomic handler, so the two models of
    the same lines agree.
  \<^item> \<open>Login_Concurrent\<close>, \<open>Login_Concurrent_Properties\<close>: \<open>login\<close> split at its awaits, what of the
    lockout holds when logins overlap, and that the awaits in sequence amount to the handler.
  \<^item> \<open>Rbac_Db\<close>, \<open>Rbac_Service\<close>, \<open>Rbac_Crud\<close>: the RBAC tables with their constraints
    and cascades, \<open>RbacService\<close>, and the three administration services with the guard.
    \<open>Pagination\<close>, \<open>Pagination_Properties\<close>: their lists, and that the pages partition them.
  \<^item> \<open>Rbac_Machine\<close>, \<open>Rbac_Properties\<close>: runs of these operations, the coherence of
    cached permissions with the tables, and what the operations guarantee.
  \<^item> \<open>Rbac_Concurrent\<close>, \<open>Rbac_Concurrent_Properties\<close>: the same service with its calls split at every
    \<open>await\<close>, in any number of instances with a memory tier each, and when the cache is sound then.
  \<^item> \<open>Password_Policy\<close>, \<open>Audit_Interceptor\<close>, \<open>Health\<close>: the password expression, what the interceptor
    records of a handler, and the health indicators.
  \<^item> \<open>Endpoints\<close>, \<open>Controllers\<close>: every route with its decorators, and the way of a request
    (\<open>serve\<close>). \<open>Endpoint_Frames\<close>, \<open>Endpoint_Audit\<close>, \<open>Endpoint_Properties\<close>: who can change anything,
    and what is recorded of it.
  \<^item> \<open>Throttling\<close>, \<open>Throttling_Properties\<close>: the throttlers of \<open>app.module.ts\<close>, their decorators and keys,
    and what the limits come to. \<open>Responses\<close>: the response classes of the DTOs, and that the
    handlers answer with them. \<open>Logging\<close>: the options of pino.
  \<^item> \<open>Schema\<close>, \<open>Schema_Undo\<close>, \<open>Migrations\<close>, \<open>Migration_Properties\<close>: the statements of the
    migrations on schemas, that they build what the entities declare, and which can be undone.
    \<open>Seed\<close>, \<open>Seed_Properties\<close>: the seed and what it leaves behind.
  \<^item> \<open>Configuration\<close>, \<open>Configuration_Properties\<close>: the schema of the environment with what it uses of
    Joi, the options of the connections, \<open>bootstrap\<close>; the types of validated values and what holds of
    a process that has started in production.
  \<^item> \<open>Graceful_Shutdown\<close>: the hooks of a shutdown with their timer, as steps in time.

  Conventions. A method is a function from its arguments and the world to a result and a
  world: \<open>Inl\<close> is what it throws, \<open>Inr\<close> what it returns. Handlers are atomic, except in
  \<open>Session_Concurrent\<close>, \<open>Login_Concurrent\<close> and \<open>Rbac_Concurrent\<close>, and audit entries that the code logs without
  waiting are written in sequence. Times are milliseconds and the server runs in UTC. Third-party functions
  (jsonwebtoken, SHA-256, bcrypt, the uuid generator, PostgreSQL's uuid syntax) are fields of
  \<open>env\<close>; theorems that rely on them name the documented behaviour (\<open>jwt_ok\<close>, \<open>sha_ok\<close>,
  \<open>bcrypt_ok\<close>, \<open>uuid_ok\<close>; together \<open>env_ok\<close>), and \<open>Demo_Env\<close> shows that they can hold.
  SHA-256 without collisions is the idealisation under which hashes identify tokens. Collation and
  lower-casing of the database, how Joi and \<open>Number\<close> read a number, and the environment that
  \<open>ConfigModule\<close> leaves after validation are arguments of the definitions that use them;
  \<open>ConfigService.get\<close> answers with the validated value first, as documented. Faults of
  the infrastructure are part of the world and may change at any step; in \<open>Rbac_Concurrent\<close> the INCR
  of an invalidation succeeds. Identifiers in
  requests are syntactically valid uuids, as the validation of the routes' clients sends them.
  Characters are code units below 256.

  Limits of the faults. Of the statements in the transaction of a refresh only the INSERT can fail (on a
  text too long for its column), in \<open>Session_Concurrent\<close> any of them aborts the request; a COMMIT
  does not fail. The handlers of \<open>Auth_Service\<close> and \<open>Jwt_Strategy\<close> see one cache: what they
  guarantee of cached users holds for the instance that serves the request, whose memory tier the
  invalidation clears. The runs of \<open>Rbac_Machine\<close> leave out a failing INCR; what is lost when it fails
  is stated for one call in \<open>Rbac_Properties\<close>. The counter of failed logins has no upper bound. The
  role that \<open>RoleService.update\<close> returns is modelled without its loaded assignments. A start reads
  the environment with the .env file already merged, which only \<open>assertSingleTenant\<close> would see
  differently. The signal, and the hooks that run before \<open>beforeApplicationShutdown\<close>, take no time.
  Filters of list requests start at the typed query: the conversion that \<open>enableImplicitConversion\<close> makes
  before a transform is not part of it. Entities are given by columns, keys and references, without
  indexes and defaults.

  Loops. The batches of the purge jobs are a \<open>partial_function\<close>; the locale
  \<open>batched_delete\<close> proves that they end. A queued audit job has three attempts, as
  configured. The matchers of the two regular expressions recurse with a measure, or on the
  expression. Nothing else recurses except over lists.

  Not modelled: the wiring of modules other than the factories named above, the Redis, Keyv and
  BullMQ clients, log lines (but for those of the shutdown), the rest of Swagger, helmet, the
  counting of requests by \<open>ThrottlerGuard\<close> (a parameter, with its documented promise as the hypothesis
  \<open>guard_ok\<close>), rows in the schemas of the migrations, and \<open>run-seed.ts\<close>,
  which opens a connection, seeds and exits.
\<close>

end
